(* ===== verification/Prelude.thy ===== *)
theory Prelude
  imports Main
begin

text \<open>
  Shared notions of the development: Python strings as lists of code points, computations
  that read and write a state and may raise (\<open>se\<close>: Python statements over mutable
  objects), and the rules that carry an invariant through such computations.
\<close>

section \<open>Collections of rules\<close>

named_theorems se_defs \<open>definitions of the statement combinators\<close>
named_theorems preserves_intro \<open>invariant preservation of statements\<close>
named_theorems keeps_intro \<open>invariants kept by statements that succeed\<close>
named_theorems pystr_eval \<open>evaluation of string functions on concrete strings\<close>

section \<open>Python strings\<close>

text \<open>
  Python's \<open>str\<close> is a sequence of Unicode code points, and \<open>len\<close> and slices count them;
  Isabelle's \<open>char\<close> has 256 values only. A literal of the source is written
  \<open>lit ''...''\<close>.
\<close>

type_synonym codepoint = nat
type_synonym pystr = "codepoint list"

definition lit :: "string \<Rightarrow> pystr" where
  "lit s = map of_char s"

lemma lit_inject [simp]: "lit s = lit t \<longleftrightarrow> s = t"
proof
  assume "lit s = lit t"
  then have "map (of_char :: char \<Rightarrow> nat) s = map of_char t"
    by (simp add: lit_def)
  moreover have "inj (of_char :: char \<Rightarrow> nat)"
    by (rule inj_of_char)
  ultimately show "s = t"
    by (simp add: inj_map_eq_map)
qed simp

lemma length_lit [simp]: "length (lit s) = length s"
  by (simp add: lit_def)

lemma lit_append: "lit (s @ t) = lit s @ lit t"
  by (simp add: lit_def)

lemma lit_Nil [simp]: "lit [] = []"
  by (simp add: lit_def)

lemma lit_eq_Nil [simp]: "lit s = [] \<longleftrightarrow> s = []"
  by (simp add: lit_def)

lemma set_lit_ascii: "(\<forall>c \<in> set s. of_char c < (128::nat)) \<Longrightarrow> c \<in> set (lit s) \<Longrightarrow> c < 128"
  by (auto simp: lit_def)

text \<open>Truthiness of an optional string: \<open>None\<close> and \<open>""\<close> are false.\<close>

definition truthy :: "'a list option \<Rightarrow> bool" where
  "truthy x \<longleftrightarrow> (case x of None \<Rightarrow> False | Some s \<Rightarrow> s \<noteq> [])"

lemma truthy_simps [simp]:
  "\<not> truthy None"
  "truthy (Some s) \<longleftrightarrow> s \<noteq> []"
  by (simp_all add: truthy_def)

lemma truthyE: "truthy x \<Longrightarrow> (\<And>s. x = Some s \<Longrightarrow> s \<noteq> [] \<Longrightarrow> P) \<Longrightarrow> P"
  by (cases x) auto

text \<open>A bounded column or slice: does an optional string have at most \<open>n\<close> characters?\<close>

definition fits :: "nat \<Rightarrow> 'a list option \<Rightarrow> bool" where
  "fits n x \<longleftrightarrow> (case x of None \<Rightarrow> True | Some s \<Rightarrow> length s \<le> n)"

lemma fits_simps [simp]:
  "fits n None"
  "fits n (Some s) \<longleftrightarrow> length s \<le> n"
  by (simp_all add: fits_def)

section \<open>Statements: state and exceptions\<close>

text \<open>
  \<open>('s, 'e, 'a) se\<close> is a Python computation over a state \<open>'s\<close>: it ends in a value or
  raises an exception, and in both cases leaves a state behind (what was mutated before an
  exception stays mutated unless somebody rolls it back).
\<close>

type_synonym ('s, 'e, 'a) se = "'s \<Rightarrow> ('e + 'a) \<times> 's"

definition se_return :: "'a \<Rightarrow> ('s, 'e, 'a) se" where
  [se_defs]: "se_return x = (\<lambda>s. (Inr x, s))"

definition se_raise :: "'e \<Rightarrow> ('s, 'e, 'a) se" where
  [se_defs]: "se_raise e = (\<lambda>s. (Inl e, s))"

definition se_bind :: "('s, 'e, 'a) se \<Rightarrow> ('a \<Rightarrow> ('s, 'e, 'b) se) \<Rightarrow> ('s, 'e, 'b) se" where
  [se_defs]: "se_bind m f = (\<lambda>s. case m s of (Inl e, s') \<Rightarrow> (Inl e, s') | (Inr x, s') \<Rightarrow> f x s')"

definition se_gets :: "('s \<Rightarrow> 'a) \<Rightarrow> ('s, 'e, 'a) se" where
  [se_defs]: "se_gets f = (\<lambda>s. (Inr (f s), s))"

definition se_modify :: "('s \<Rightarrow> 's) \<Rightarrow> ('s, 'e, unit) se" where
  [se_defs]: "se_modify f = (\<lambda>s. (Inr (), f s))"

definition se_require :: "bool \<Rightarrow> 'e \<Rightarrow> ('s, 'e, unit) se" where
  [se_defs]: "se_require b e = (if b then se_return () else se_raise e)"

text \<open>\<open>try: m except e: h e\<close>\<close>

definition se_try :: "('s, 'e, 'a) se \<Rightarrow> ('e \<Rightarrow> ('s, 'e, 'a) se) \<Rightarrow> ('s, 'e, 'a) se" where
  [se_defs]: "se_try m h = (\<lambda>s. case m s of (Inl e, s') \<Rightarrow> h e s' | (Inr x, s') \<Rightarrow> (Inr x, s'))"

text \<open>\<open>for x in xs: body\<close>, and the same loop with an accumulator.\<close>

primrec se_foreach :: "'a list \<Rightarrow> ('a \<Rightarrow> ('s, 'e, unit) se) \<Rightarrow> ('s, 'e, unit) se" where
  "se_foreach [] f = se_return ()"
| "se_foreach (x # xs) f = se_bind (f x) (\<lambda>_. se_foreach xs f)"

primrec se_fold :: "'a list \<Rightarrow> ('a \<Rightarrow> 'b \<Rightarrow> ('s, 'e, 'b) se) \<Rightarrow> 'b \<Rightarrow> ('s, 'e, 'b) se" where
  "se_fold [] f acc = se_return acc"
| "se_fold (x # xs) f acc = se_bind (f x acc) (\<lambda>acc'. se_fold xs f acc')"

lemma se_run [simp]:
  "se_return x s = (Inr x, s)"
  "se_raise e s = (Inl e, s)"
  "se_gets f s = (Inr (f s), s)"
  "se_modify g s = (Inr (), g s)"
  "se_require True e s = (Inr (), s)"
  "se_require False e s = (Inl e, s)"
  by (simp_all add: se_defs)

lemma se_bind_Inr [simp]: "m s = (Inr x, s') \<Longrightarrow> se_bind m f s = f x s'"
  by (simp add: se_bind_def)

lemma se_bind_Inl [simp]: "m s = (Inl e, s') \<Longrightarrow> se_bind m f s = (Inl e, s')"
  by (simp add: se_bind_def)

lemma se_bind_eq_Inr:
  "se_bind m f s = (Inr y, t) \<longleftrightarrow> (\<exists>x u. m s = (Inr x, u) \<and> f x u = (Inr y, t))"
  by (auto simp: se_bind_def split: prod.splits sum.splits)

lemma se_bind_eq_Inl:
  "se_bind m f s = (Inl e, t) \<longleftrightarrow>
     m s = (Inl e, t) \<or> (\<exists>x u. m s = (Inr x, u) \<and> f x u = (Inl e, t))"
  by (auto simp: se_bind_def split: prod.splits sum.splits)

lemma se_require_eq_Inr [simp]: "se_require b e s = (Inr x, t) \<longleftrightarrow> b \<and> t = s"
  by (auto simp: se_require_def)

lemma se_bind_assoc: "se_bind (se_bind m f) g = se_bind m (\<lambda>x. se_bind (f x) g)"
  by (rule ext) (simp add: se_bind_def split: prod.splits sum.splits)

lemma se_bind_return_left [simp]: "se_bind (se_return x) f = f x"
  by (rule ext) (simp add: se_bind_def)

subsection \<open>Invariants of statements\<close>

text \<open>
  \<open>preserves I m\<close>: whatever happens, an exception included, \<open>m\<close> leaves a state that
  satisfies \<open>I\<close> when it started in one.
\<close>

definition preserves :: "('s \<Rightarrow> bool) \<Rightarrow> ('s, 'e, 'a) se \<Rightarrow> bool" where
  "preserves I m \<longleftrightarrow> (\<forall>s. I s \<longrightarrow> I (snd (m s)))"

lemma preservesI: "(\<And>s r t. I s \<Longrightarrow> m s = (r, t) \<Longrightarrow> I t) \<Longrightarrow> preserves I m"
  unfolding preserves_def by (metis prod.collapse)

lemma preservesD: "preserves I m \<Longrightarrow> I s \<Longrightarrow> m s = (r, t) \<Longrightarrow> I t"
  unfolding preserves_def by (metis snd_conv)

lemma preserves_return [preserves_intro]: "preserves I (se_return x)"
  by (simp add: preserves_def)

lemma preserves_Pair [preserves_intro]: "preserves I (Pair r)"
  by (simp add: preserves_def)

lemma preserves_raise [preserves_intro]: "preserves I (se_raise e)"
  by (simp add: preserves_def)

lemma preserves_gets [preserves_intro]: "preserves I (se_gets f)"
  by (simp add: preserves_def)

lemma preserves_require [preserves_intro]: "preserves I (se_require b e)"
  by (simp add: preserves_def se_require_def)

lemma preserves_modify: "(\<And>s. I s \<Longrightarrow> I (g s)) \<Longrightarrow> preserves I (se_modify g)"
  by (simp add: preserves_def)

lemma preserves_bind [preserves_intro]:
  "preserves I m \<Longrightarrow> (\<And>x. preserves I (f x)) \<Longrightarrow> preserves I (se_bind m f)"
  by (fastforce simp: preserves_def se_bind_def split: prod.splits sum.splits)

text \<open>The same when the rest relies on what the first statement returned.\<close>

lemma preserves_bind_dep:
  assumes "preserves I m"
    and "\<And>x s t. I s \<Longrightarrow> m s = (Inr x, t) \<Longrightarrow> I t \<Longrightarrow> I (snd (f x t))"
  shows "preserves I (se_bind m f)"
proof (rule preservesI)
  fix s r t
  assume I: "I s" and run: "se_bind m f s = (r, t)"
  obtain r1 u where m: "m s = (r1, u)" by fastforce
  with assms(1) I have "I u" by (rule preservesD)
  show "I t"
  proof (cases r1)
    case (Inl e)
    with run m \<open>I u\<close> show ?thesis by simp
  next
    case (Inr x)
    with run m have "f x u = (r, t)" by simp
    with assms(2) [OF I, of x u] m Inr \<open>I u\<close> show ?thesis by simp
  qed
qed

lemma preserves_try [preserves_intro]:
  "preserves I m \<Longrightarrow> (\<And>e. preserves I (h e)) \<Longrightarrow> preserves I (se_try m h)"
  by (fastforce simp: preserves_def se_try_def split: prod.splits sum.splits)

lemma preserves_foreach [preserves_intro]:
  "(\<And>x. preserves I (f x)) \<Longrightarrow> preserves I (se_foreach xs f)"
  by (induction xs) (auto intro: preserves_intro)

lemma preserves_fold [preserves_intro]:
  "(\<And>x acc. preserves I (f x acc)) \<Longrightarrow> preserves I (se_fold xs f acc)"
  by (induction xs arbitrary: acc) (auto intro: preserves_intro)

lemma preserves_if [preserves_intro]:
  "(b \<Longrightarrow> preserves I m) \<Longrightarrow> (\<not> b \<Longrightarrow> preserves I m') \<Longrightarrow> preserves I (if b then m else m')"
  by simp

lemma preserves_case_option [preserves_intro]:
  "(x = None \<Longrightarrow> preserves I m) \<Longrightarrow> (\<And>y. x = Some y \<Longrightarrow> preserves I (f y)) \<Longrightarrow>
   preserves I (case x of None \<Rightarrow> m | Some y \<Rightarrow> f y)"
  by (cases x) simp_all

lemma preserves_case_sum [preserves_intro]:
  "(\<And>y. x = Inl y \<Longrightarrow> preserves I (f y)) \<Longrightarrow> (\<And>y. x = Inr y \<Longrightarrow> preserves I (g y)) \<Longrightarrow>
   preserves I (case x of Inl y \<Rightarrow> f y | Inr y \<Rightarrow> g y)"
  by (cases x) simp_all

subsection \<open>What a successful statement keeps\<close>

text \<open>
  Inside a database transaction only a successful end matters, because a failed one is rolled
  back: \<open>keeps I m\<close> says nothing about the state that an exception leaves.
\<close>

definition keeps :: "('s \<Rightarrow> bool) \<Rightarrow> ('s, 'e, 'a) se \<Rightarrow> bool" where
  "keeps I m \<longleftrightarrow> (\<forall>s x t. I s \<longrightarrow> m s = (Inr x, t) \<longrightarrow> I t)"

lemma keepsI: "(\<And>s x t. I s \<Longrightarrow> m s = (Inr x, t) \<Longrightarrow> I t) \<Longrightarrow> keeps I m"
  unfolding keeps_def by blast

lemma keepsD: "keeps I m \<Longrightarrow> I s \<Longrightarrow> m s = (Inr x, t) \<Longrightarrow> I t"
  unfolding keeps_def by blast

lemma keeps_return [keeps_intro]: "keeps I (se_return x)"
  by (simp add: keeps_def)

lemma keeps_Pair [keeps_intro]: "keeps I (Pair r)"
  by (simp add: keeps_def)

lemma keeps_raise [keeps_intro]: "keeps I (se_raise e)"
  by (simp add: keeps_def)

lemma keeps_gets [keeps_intro]: "keeps I (se_gets f)"
  by (simp add: keeps_def)

lemma keeps_require [keeps_intro]: "keeps I (se_require b e)"
  by (auto simp: keeps_def)

lemma keeps_modify: "(\<And>s. I s \<Longrightarrow> I (g s)) \<Longrightarrow> keeps I (se_modify g)"
  by (simp add: keeps_def)

lemma keeps_bind [keeps_intro]: "keeps I m \<Longrightarrow> (\<And>x. keeps I (f x)) \<Longrightarrow> keeps I (se_bind m f)"
  unfolding keeps_def by (metis se_bind_eq_Inr)

lemma keeps_foreach [keeps_intro]: "(\<And>x. keeps I (f x)) \<Longrightarrow> keeps I (se_foreach xs f)"
  by (induction xs) (auto intro: keeps_intro)

lemma keeps_fold [keeps_intro]: "(\<And>x acc. keeps I (f x acc)) \<Longrightarrow> keeps I (se_fold xs f acc)"
  by (induction xs arbitrary: acc) (auto intro: keeps_intro)

lemma keeps_if [keeps_intro]:
  "(b \<Longrightarrow> keeps I m) \<Longrightarrow> (\<not> b \<Longrightarrow> keeps I m') \<Longrightarrow> keeps I (if b then m else m')"
  by simp

lemma keeps_case_option [keeps_intro]:
  "(x = None \<Longrightarrow> keeps I m) \<Longrightarrow> (\<And>y. x = Some y \<Longrightarrow> keeps I (f y)) \<Longrightarrow>
   keeps I (case x of None \<Rightarrow> m | Some y \<Rightarrow> f y)"
  by (cases x) simp_all

section \<open>Lists\<close>

text \<open>Selecting and updating the row of a table by its key.\<close>

lemma find_distinct_key:
  "distinct (map k xs) \<Longrightarrow> x \<in> set xs \<Longrightarrow> find (\<lambda>y. k y = k x) xs = Some x"
  by (induction xs) (auto simp: rev_image_eqI)

lemma find_SomeD: "find P xs = Some x \<Longrightarrow> x \<in> set xs \<and> P x"
  by (auto simp: find_Some_iff)

lemma map_key_update:
  "(\<And>x. k (f x) = k x) \<Longrightarrow> map k (map (\<lambda>x. if P x then f x else x) xs) = map k xs"
  by (induction xs) auto

lemma take_sort_key_subset: "x \<in> set (take n (sort_key k xs)) \<Longrightarrow> x \<in> set xs"
  by (metis in_set_takeD set_sort)

lemma distinct_map_filter_key: "distinct (map k xs) \<Longrightarrow> distinct (map k (filter P xs))"
  by (induction xs) auto

end
