(* ===== verification/Lifecycle.thy ===== *)
theory Lifecycle
  imports Prelude
begin

text \<open>
  \<open>gateway/models/status.py\<close>: the event lifecycle as data, the CRM sources and the match key
  types. The enums are \<open>StrEnum\<close>s: the functions \<open>*_value\<close> give the string of each member.
\<close>

datatype EventStatus =
    RECEIVED
  | VALIDATED
  | REJECTED
  | QUEUED
  | SUPPRESSED
  | PROCESSED
  | UPLOADING
  | UPLOADED
  | FAILED_RETRYABLE
  | DEAD_LETTERED

fun status_value :: "EventStatus \<Rightarrow> pystr" where
  "status_value RECEIVED = lit ''RECEIVED''"
| "status_value VALIDATED = lit ''VALIDATED''"
| "status_value REJECTED = lit ''REJECTED''"
| "status_value QUEUED = lit ''QUEUED''"
| "status_value SUPPRESSED = lit ''SUPPRESSED''"
| "status_value PROCESSED = lit ''PROCESSED''"
| "status_value UPLOADING = lit ''UPLOADING''"
| "status_value UPLOADED = lit ''UPLOADED''"
| "status_value FAILED_RETRYABLE = lit ''FAILED_RETRYABLE''"
| "status_value DEAD_LETTERED = lit ''DEAD_LETTERED''"

fun ALLOWED_TRANSITIONS :: "EventStatus \<Rightarrow> EventStatus set" where
  "ALLOWED_TRANSITIONS RECEIVED = {VALIDATED, REJECTED}"
| "ALLOWED_TRANSITIONS VALIDATED = {QUEUED}"
| "ALLOWED_TRANSITIONS QUEUED = {PROCESSED, SUPPRESSED, REJECTED}"
| "ALLOWED_TRANSITIONS SUPPRESSED = {QUEUED}"
| "ALLOWED_TRANSITIONS PROCESSED = {UPLOADING}"
| "ALLOWED_TRANSITIONS UPLOADING = {UPLOADED, FAILED_RETRYABLE, DEAD_LETTERED}"
| "ALLOWED_TRANSITIONS FAILED_RETRYABLE = {UPLOADING, DEAD_LETTERED}"
| "ALLOWED_TRANSITIONS DEAD_LETTERED = {QUEUED}"
| "ALLOWED_TRANSITIONS UPLOADED = {}"
| "ALLOWED_TRANSITIONS REJECTED = {}"

datatype Source = SALESFORCE | HUBSPOT

fun source_value :: "Source \<Rightarrow> pystr" where
  "source_value SALESFORCE = lit ''salesforce''"
| "source_value HUBSPOT = lit ''hubspot''"

datatype MatchKeyType = CLICK_ID | USER_IDENTIFIERS

fun match_key_value :: "MatchKeyType \<Rightarrow> pystr" where
  "match_key_value CLICK_ID = lit ''click_id''"
| "match_key_value USER_IDENTIFIERS = lit ''user_identifiers''"

section \<open>The statuses and the sources are finite, so facts about all of them are decided by listing\<close>

instantiation EventStatus :: enum
begin

definition enum_EventStatus :: "EventStatus list" where
  "enum_EventStatus = [RECEIVED, VALIDATED, REJECTED, QUEUED, SUPPRESSED, PROCESSED, UPLOADING,
     UPLOADED, FAILED_RETRYABLE, DEAD_LETTERED]"

definition enum_all_EventStatus :: "(EventStatus \<Rightarrow> bool) \<Rightarrow> bool" where
  "enum_all_EventStatus P \<longleftrightarrow> list_all P enum_class.enum"

definition enum_ex_EventStatus :: "(EventStatus \<Rightarrow> bool) \<Rightarrow> bool" where
  "enum_ex_EventStatus P \<longleftrightarrow> list_ex P enum_class.enum"

lemma EventStatus_enumerated: "x \<in> set [RECEIVED, VALIDATED, REJECTED, QUEUED, SUPPRESSED, PROCESSED,
    UPLOADING, UPLOADED, FAILED_RETRYABLE, DEAD_LETTERED]"
  by (cases x) simp_all

instance
proof
  show "(UNIV :: EventStatus set) = set enum_class.enum"
    using EventStatus_enumerated by (auto simp only: enum_EventStatus_def)
  show "distinct (enum_class.enum :: EventStatus list)"
    by (simp add: enum_EventStatus_def)
  fix P :: "EventStatus \<Rightarrow> bool"
  show "enum_class.enum_all P \<longleftrightarrow> Ball UNIV P"
    using EventStatus_enumerated
    by (auto simp only: enum_all_EventStatus_def enum_EventStatus_def list_all_iff)
  show "enum_class.enum_ex P \<longleftrightarrow> Bex UNIV P"
    using EventStatus_enumerated
    by (auto simp only: enum_ex_EventStatus_def enum_EventStatus_def list_ex_iff)
qed

end

lemma UNIV_EventStatus: "(UNIV :: EventStatus set) =
    {RECEIVED, VALIDATED, REJECTED, QUEUED, SUPPRESSED, PROCESSED, UPLOADING, UPLOADED,
     FAILED_RETRYABLE, DEAD_LETTERED}"
  using EventStatus_enumerated by auto

lemma status_value_inject [simp]: "status_value a = status_value b \<longleftrightarrow> a = b"
  by (cases a; cases b) simp_all

lemma source_value_inject [simp]: "source_value a = source_value b \<longleftrightarrow> a = b"
  by (cases a; cases b) simp_all

section \<open>Shape of the transition table\<close>

definition terminal :: "EventStatus \<Rightarrow> bool" where
  "terminal s \<longleftrightarrow> ALLOWED_TRANSITIONS s = {}"

lemma terminal_iff: "terminal s \<longleftrightarrow> s = UPLOADED \<or> s = REJECTED"
  by (cases s) (simp_all add: terminal_def)

lemma no_self_transition: "s \<notin> ALLOWED_TRANSITIONS s"
  by (cases s) simp_all

lemma not_back_to_received: "RECEIVED \<notin> ALLOWED_TRANSITIONS s"
  by (cases s) simp_all

text \<open>The statuses of an event whose digests are on its row: everything after the worker.\<close>

definition past_worker :: "EventStatus \<Rightarrow> bool" where
  "past_worker s \<longleftrightarrow> s \<in> {PROCESSED, UPLOADING, UPLOADED, FAILED_RETRYABLE, DEAD_LETTERED}"

lemma past_worker_entry:
  "t \<in> ALLOWED_TRANSITIONS s \<Longrightarrow> past_worker t \<Longrightarrow> \<not> past_worker s \<Longrightarrow> s = QUEUED \<and> t = PROCESSED"
  by (cases s; cases t) (simp_all add: past_worker_def)

end
