(* ===== verification/Consent.thy ===== *)
theory Consent
  imports Prelude
begin

text \<open>
  \<open>gateway/consent/gate.py\<close>: the consent gate. Absent signals are \<open>None\<close>, which is not the
  same as an explicit \<open>UNSPECIFIED\<close>.
\<close>

datatype ConsentStatus = GRANTED | DENIED | UNSPECIFIED

datatype SuppressionReason =
    AD_USER_DATA_DENIED
  | AD_USER_DATA_UNSPECIFIED
  | AD_USER_DATA_MISSING
  | AD_PERSONALIZATION_DENIED
  | AD_PERSONALIZATION_UNSPECIFIED
  | AD_PERSONALIZATION_MISSING

fun consent_value :: "ConsentStatus \<Rightarrow> pystr" where
  "consent_value GRANTED = lit ''GRANTED''"
| "consent_value DENIED = lit ''DENIED''"
| "consent_value UNSPECIFIED = lit ''UNSPECIFIED''"

text \<open>\<open>ConsentStatus(value)\<close>: \<open>None\<close> stands for the \<open>ValueError\<close> on any other string.\<close>

definition consent_of_value :: "pystr \<Rightarrow> ConsentStatus option" where
  "consent_of_value s =
     (if s = lit ''GRANTED'' then Some GRANTED
      else if s = lit ''DENIED'' then Some DENIED
      else if s = lit ''UNSPECIFIED'' then Some UNSPECIFIED
      else None)"

fun suppression_value :: "SuppressionReason \<Rightarrow> pystr" where
  "suppression_value AD_USER_DATA_DENIED = lit ''ad_user_data_denied''"
| "suppression_value AD_USER_DATA_UNSPECIFIED = lit ''ad_user_data_unspecified''"
| "suppression_value AD_USER_DATA_MISSING = lit ''ad_user_data_missing''"
| "suppression_value AD_PERSONALIZATION_DENIED = lit ''ad_personalization_denied''"
| "suppression_value AD_PERSONALIZATION_UNSPECIFIED = lit ''ad_personalization_unspecified''"
| "suppression_value AD_PERSONALIZATION_MISSING = lit ''ad_personalization_missing''"

record ConsentSignals =
  ad_user_data :: "ConsentStatus option"
  ad_personalization :: "ConsentStatus option"

record ConsentDecision =
  permitted :: bool
  decision_reason :: "SuppressionReason option"

definition blocking_reason ::
  "ConsentStatus option \<Rightarrow> SuppressionReason \<Rightarrow> SuppressionReason \<Rightarrow> SuppressionReason \<Rightarrow>
   SuppressionReason option" where
  "blocking_reason status denied unspecified missing =
     (if status = Some GRANTED then None
      else if status = None then Some missing
      else if status = Some DENIED then Some denied
      else Some unspecified)"

definition evaluate_consent :: "ConsentSignals \<Rightarrow> ConsentDecision" where
  "evaluate_consent signals =
     (case blocking_reason (ad_user_data signals)
             AD_USER_DATA_DENIED AD_USER_DATA_UNSPECIFIED AD_USER_DATA_MISSING of
        Some r \<Rightarrow> \<lparr>permitted = False, decision_reason = Some r\<rparr>
      | None \<Rightarrow>
          (case blocking_reason (ad_personalization signals)
                  AD_PERSONALIZATION_DENIED AD_PERSONALIZATION_UNSPECIFIED
                  AD_PERSONALIZATION_MISSING of
             Some r \<Rightarrow> \<lparr>permitted = False, decision_reason = Some r\<rparr>
           | None \<Rightarrow> \<lparr>permitted = True, decision_reason = None\<rparr>))"

section \<open>Lemmas\<close>

lemma consent_of_value_value [simp]: "consent_of_value (consent_value c) = Some c"
  by (cases c) (simp_all add: consent_of_value_def)

lemma consent_value_of_value: "consent_of_value s = Some c \<Longrightarrow> consent_value c = s"
  by (auto simp: consent_of_value_def split: if_splits)

lemma consent_value_not_Nil [simp]: "consent_value c \<noteq> []"
  by (cases c) simp_all

lemma length_consent_value: "length (consent_value c) \<le> 16"
  by (cases c) simp_all

lemma blocking_reason_None [simp]: "blocking_reason s d u m = None \<longleftrightarrow> s = Some GRANTED"
  by (simp add: blocking_reason_def)

lemma blocking_reason_granted [simp]: "blocking_reason (Some GRANTED) d u m = None"
  by simp

lemma permitted_iff:
  "permitted (evaluate_consent c) \<longleftrightarrow>
     ad_user_data c = Some GRANTED \<and> ad_personalization c = Some GRANTED"
  by (auto simp: evaluate_consent_def split: option.splits)

lemma decision_reason_None_iff:
  "decision_reason (evaluate_consent c) = None \<longleftrightarrow> permitted (evaluate_consent c)"
  by (simp add: evaluate_consent_def split: option.splits)

lemma length_suppression_value: "length (suppression_value r) \<le> 64"
  by (cases r) simp_all

end
