(* ===== verification/PyStr.thy ===== *)
theory PyStr
  imports Prelude
begin

text \<open>
  The operations of Python's \<open>str\<close> that the gateway uses. What Python defines through the
  Unicode character database of the running interpreter (white space, case mapping, normal
  form, general category) is concrete on ASCII and comes from a parameter \<open>ucd\<close> for every
  other code point, so that the definitions evaluate on ASCII text for every database.
\<close>

section \<open>The Unicode character database\<close>

record ucd =
  ucd_isspace :: "codepoint \<Rightarrow> bool"
  ucd_lower :: "pystr \<Rightarrow> pystr"
  ucd_upper :: "pystr \<Rightarrow> pystr"
  ucd_nfkd :: "pystr \<Rightarrow> pystr"
  ucd_isalpha :: "codepoint \<Rightarrow> bool"
  ucd_category_Mn :: "codepoint \<Rightarrow> bool"
  ucd_category_P :: "codepoint \<Rightarrow> bool"
  ucd_decimal :: "codepoint \<Rightarrow> nat option"

definition is_ascii :: "pystr \<Rightarrow> bool" where
  "is_ascii s \<longleftrightarrow> (\<forall>c \<in> set s. c < 128)"

definition ascii_isspace :: "codepoint \<Rightarrow> bool" where
  "ascii_isspace c \<longleftrightarrow> 9 \<le> c \<and> c \<le> 13 \<or> 28 \<le> c \<and> c \<le> 32"

definition ascii_lower :: "codepoint \<Rightarrow> codepoint" where
  "ascii_lower c = (if 65 \<le> c \<and> c \<le> 90 then c + 32 else c)"

definition ascii_upper :: "codepoint \<Rightarrow> codepoint" where
  "ascii_upper c = (if 97 \<le> c \<and> c \<le> 122 then c - 32 else c)"

definition ascii_isalpha :: "codepoint \<Rightarrow> bool" where
  "ascii_isalpha c \<longleftrightarrow> 65 \<le> c \<and> c \<le> 90 \<or> 97 \<le> c \<and> c \<le> 122"

text \<open>
  The ASCII characters of a general category that starts with P: every graphic ASCII
  character but the letters, the digits and the symbols \<open>$ + < = > ^ ` | ~\<close>.
\<close>

definition ascii_punctuation :: "codepoint \<Rightarrow> bool" where
  "ascii_punctuation c \<longleftrightarrow>
     33 \<le> c \<and> c \<le> 35 \<or> 37 \<le> c \<and> c \<le> 42 \<or> 44 \<le> c \<and> c \<le> 47 \<or> c = 58 \<or> c = 59 \<or>
     c = 63 \<or> c = 64 \<or> 91 \<le> c \<and> c \<le> 93 \<or> c = 95 \<or> c = 123 \<or> c = 125"

definition char_isspace :: "ucd \<Rightarrow> codepoint \<Rightarrow> bool" where
  "char_isspace U c \<longleftrightarrow> (if c < 128 then ascii_isspace c else ucd_isspace U c)"

definition char_isalpha :: "ucd \<Rightarrow> codepoint \<Rightarrow> bool" where
  "char_isalpha U c \<longleftrightarrow> (if c < 128 then ascii_isalpha c else ucd_isalpha U c)"

text \<open>\<open>unicodedata.category(ch) == "Mn"\<close> and \<open>unicodedata.category(ch).startswith("P")\<close>\<close>

definition category_Mn :: "ucd \<Rightarrow> codepoint \<Rightarrow> bool" where
  "category_Mn U c \<longleftrightarrow> (if c < 128 then False else ucd_category_Mn U c)"

definition category_P :: "ucd \<Rightarrow> codepoint \<Rightarrow> bool" where
  "category_P U c \<longleftrightarrow> (if c < 128 then ascii_punctuation c else ucd_category_P U c)"

definition is_digit :: "codepoint \<Rightarrow> bool" where
  "is_digit c \<longleftrightarrow> 48 \<le> c \<and> c \<le> 57"

text \<open>\<open>unicodedata.decimal(ch)\<close>, where it is defined (general category Nd).\<close>

definition char_decimal :: "ucd \<Rightarrow> codepoint \<Rightarrow> nat option" where
  "char_decimal U c = (if c < 128 then if is_digit c then Some (c - 48) else None else ucd_decimal U c)"

section \<open>Methods of str\<close>

definition str_lower :: "ucd \<Rightarrow> pystr \<Rightarrow> pystr" where
  "str_lower U s = (if is_ascii s then map ascii_lower s else ucd_lower U s)"

definition str_upper :: "ucd \<Rightarrow> pystr \<Rightarrow> pystr" where
  "str_upper U s = (if is_ascii s then map ascii_upper s else ucd_upper U s)"

text \<open>\<open>unicodedata.normalize("NFKD", s)\<close>\<close>

definition str_nfkd :: "ucd \<Rightarrow> pystr \<Rightarrow> pystr" where
  "str_nfkd U s = (if is_ascii s then s else ucd_nfkd U s)"

text \<open>\<open>s.isalpha()\<close>: at least one character, all of them letters.\<close>

definition str_isalpha :: "ucd \<Rightarrow> pystr \<Rightarrow> bool" where
  "str_isalpha U s \<longleftrightarrow> s \<noteq> [] \<and> (\<forall>c \<in> set s. char_isalpha U c)"

definition lstrip :: "('a \<Rightarrow> bool) \<Rightarrow> 'a list \<Rightarrow> 'a list" where
  "lstrip p s = dropWhile p s"

definition str_strip :: "ucd \<Rightarrow> pystr \<Rightarrow> pystr" where
  "str_strip U s = rev (lstrip (char_isspace U) (rev (lstrip (char_isspace U) s)))"

text \<open>\<open>s.split()\<close>: the maximal runs of characters that are not white space.\<close>

fun split_runs :: "('a \<Rightarrow> bool) \<Rightarrow> 'a list \<Rightarrow> 'a list \<Rightarrow> 'a list list" where
  "split_runs p acc [] = (if acc = [] then [] else [acc])"
| "split_runs p acc (c # s) =
     (if p c then (if acc = [] then split_runs p [] s else acc # split_runs p [] s)
      else split_runs p (acc @ [c]) s)"

definition str_split :: "ucd \<Rightarrow> pystr \<Rightarrow> pystr list" where
  "str_split U s = split_runs (char_isspace U) [] s"

text \<open>\<open>sep.join(parts)\<close>\<close>

fun str_join :: "pystr \<Rightarrow> pystr list \<Rightarrow> pystr" where
  "str_join sep [] = []"
| "str_join sep [p] = p"
| "str_join sep (p # ps) = p @ sep @ str_join sep ps"

text \<open>
  \<open>s.partition(ch)\<close> for a separator of one character: the part before its first
  occurrence, whether it occurs, and the part after it.
\<close>

fun str_partition :: "codepoint \<Rightarrow> pystr \<Rightarrow> pystr \<times> bool \<times> pystr" where
  "str_partition ch [] = ([], False, [])"
| "str_partition ch (c # s) =
     (if c = ch then ([], True, s)
      else (case str_partition ch s of (before, found, after) \<Rightarrow> (c # before, found, after)))"

text \<open>\<open>s.replace(ch, "")\<close> and \<open>s.split(ch, 1)[0]\<close>\<close>

definition str_remove :: "codepoint \<Rightarrow> pystr \<Rightarrow> pystr" where
  "str_remove ch s = filter (\<lambda>c. c \<noteq> ch) s"

definition str_before :: "codepoint \<Rightarrow> pystr \<Rightarrow> pystr" where
  "str_before ch s = takeWhile (\<lambda>c. c \<noteq> ch) s"

fun str_startswith :: "pystr \<Rightarrow> pystr \<Rightarrow> bool" where
  "str_startswith s [] = True"
| "str_startswith [] (p # ps) = False"
| "str_startswith (c # s) (p # ps) = (c = p \<and> str_startswith s ps)"

text \<open>\<open>p in s\<close>\<close>

fun str_contains :: "pystr \<Rightarrow> pystr \<Rightarrow> bool" where
  "str_contains [] p \<longleftrightarrow> p = []"
| "str_contains (c # s) p \<longleftrightarrow> str_startswith (c # s) p \<or> str_contains s p"

text \<open>\<open>str(n)\<close> for an integer.\<close>

fun digits_of_nat :: "nat \<Rightarrow> pystr" where
  "digits_of_nat n = (if n < 10 then [48 + n] else digits_of_nat (n div 10) @ [48 + n mod 10])"

declare digits_of_nat.simps [simp del]

definition str_of_int :: "int \<Rightarrow> pystr" where
  "str_of_int i = (if i < 0 then lit ''-'' @ digits_of_nat (nat (- i)) else digits_of_nat (nat i))"

definition str_of_nat :: "nat \<Rightarrow> pystr" where
  "str_of_nat n = digits_of_nat n"

section \<open>Lemmas\<close>

subsection \<open>White space\<close>

lemma lstrip_id: "(\<And>c. c \<in> set s \<Longrightarrow> \<not> p c) \<Longrightarrow> lstrip p s = s"
  by (cases s) (auto simp: lstrip_def)

lemma str_strip_id:
  assumes "\<And>c. c \<in> set s \<Longrightarrow> \<not> char_isspace U c"
  shows "str_strip U s = s"
proof -
  have "lstrip (char_isspace U) s = s" using assms by (rule lstrip_id)
  moreover have "lstrip (char_isspace U) (rev s) = rev s" using assms by (intro lstrip_id) simp
  ultimately show ?thesis by (simp add: str_strip_def)
qed

lemma lstrip_sub: "c \<in> set (lstrip p s) \<Longrightarrow> c \<in> set s"
  by (auto simp: lstrip_def dest: set_dropWhileD)

lemma lstrip_Nil [simp]: "lstrip p [] = []"
  by (simp add: lstrip_def)

lemma lstrip_eq_Nil: "lstrip p s = [] \<longleftrightarrow> (\<forall>c \<in> set s. p c)"
  by (simp add: lstrip_def)

lemma set_str_strip: "c \<in> set (str_strip U s) \<Longrightarrow> c \<in> set s"
  unfolding str_strip_def by (metis lstrip_sub set_rev)

lemma str_strip_eq_Nil: "str_strip U s = [] \<longleftrightarrow> (\<forall>c \<in> set s. char_isspace U c)"
proof
  assume "str_strip U s = []"
  then have "lstrip (char_isspace U) (rev (lstrip (char_isspace U) s)) = []"
    by (simp add: str_strip_def)
  then have "\<forall>c \<in> set (lstrip (char_isspace U) s). char_isspace U c"
    by (simp add: lstrip_eq_Nil)
  moreover have "takeWhile (char_isspace U) s @ lstrip (char_isspace U) s = s"
    by (simp add: lstrip_def)
  ultimately show "\<forall>c \<in> set s. char_isspace U c"
    by (metis Un_iff set_append set_takeWhileD)
next
  assume "\<forall>c \<in> set s. char_isspace U c"
  then have "lstrip (char_isspace U) s = []" by (subst lstrip_eq_Nil)
  then show "str_strip U s = []" by (simp add: str_strip_def)
qed

lemma str_strip_Nil [simp]: "str_strip U [] = []"
  by (simp add: str_strip_eq_Nil)

text \<open>The ends of a stripped string are not white space, so stripping again does nothing.\<close>

lemma hd_lstrip: "lstrip p s \<noteq> [] \<Longrightarrow> \<not> p (hd (lstrip p s))"
  by (simp add: lstrip_def hd_dropWhile)

lemma lstrip_idem: "(s \<noteq> [] \<Longrightarrow> \<not> p (hd s)) \<Longrightarrow> lstrip p s = s"
  by (cases s) (simp_all add: lstrip_def)

lemma lstrip_rev_hd: "t = rev (lstrip p (rev s)) \<Longrightarrow> t \<noteq> [] \<Longrightarrow> hd t = hd s"
proof -
  assume t: "t = rev (lstrip p (rev s))" and ne: "t \<noteq> []"
  have "rev s = takeWhile p (rev s) @ lstrip p (rev s)" by (simp add: lstrip_def)
  then have "s = rev (lstrip p (rev s)) @ rev (takeWhile p (rev s))"
    by (metis rev_append rev_rev_ident)
  with t have "s = t @ rev (takeWhile p (rev s))" by simp
  with ne show "hd t = hd s" by (metis hd_append2)
qed

lemma str_strip_idem [simp]: "str_strip U (str_strip U s) = str_strip U s"
proof (cases "str_strip U s = []")
  case True
  then show ?thesis by simp
next
  case False
  let ?p = "char_isspace U"
  let ?l = "lstrip ?p s" and ?t = "str_strip U s"
  have t: "?t = rev (lstrip ?p (rev ?l))" by (simp add: str_strip_def)
  from False t have "?l \<noteq> []" by (metis lstrip_eq_Nil rev_is_Nil_conv set_rev empty_iff list.set(1))
  then have "\<not> ?p (hd ?l)" by (rule hd_lstrip)
  moreover have "hd ?t = hd ?l" using lstrip_rev_hd [OF t False] .
  ultimately have "lstrip ?p ?t = ?t" by (simp add: lstrip_idem)
  moreover have "lstrip ?p (rev ?t) = rev ?t"
  proof (rule lstrip_idem)
    assume "rev ?t \<noteq> []"
    then have "lstrip ?p (rev ?l) \<noteq> []" using t by simp
    then have "\<not> ?p (hd (lstrip ?p (rev ?l)))" by (rule hd_lstrip)
    then show "\<not> ?p (hd (rev ?t))" using t by simp
  qed
  ultimately show ?thesis by (simp add: str_strip_def)
qed

subsection \<open>Splitting and joining\<close>

lemma split_runs_chars:
  "\<forall>c \<in> set acc. \<not> p c \<Longrightarrow> t \<in> set (split_runs p acc s) \<Longrightarrow>
   t \<noteq> [] \<and> (\<forall>c \<in> set t. \<not> p c \<and> (c \<in> set acc \<or> c \<in> set s))"
proof (induction p acc s rule: split_runs.induct)
  case (1 p acc)
  then show ?case by (simp split: if_splits)
next
  case (2 p acc c s)
  consider "p c" "t = acc" "acc \<noteq> []" | "p c" "t \<in> set (split_runs p [] s)" | "\<not> p c"
    using "2.prems"(2) by (auto split: if_splits)
  then show ?case
  proof cases
    case 1
    with "2.prems"(1) show ?thesis by simp
  next
    case 2
    then have "t \<noteq> [] \<and> (\<forall>c \<in> set t. \<not> p c \<and> (c \<in> set [] \<or> c \<in> set s))"
      using "2.IH"(1,2) [OF 2(1)] by (metis empty_iff list.set(1))
    then show ?thesis by auto
  next
    case 3
    then have "t \<in> set (split_runs p (acc @ [c]) s)" using "2.prems"(2) by simp
    moreover have "\<forall>d \<in> set (acc @ [c]). \<not> p d" using 3 "2.prems"(1) by simp
    ultimately have "t \<noteq> [] \<and> (\<forall>d \<in> set t. \<not> p d \<and> (d \<in> set (acc @ [c]) \<or> d \<in> set s))"
      using "2.IH"(3) [OF 3] by blast
    then show ?thesis by auto
  qed
qed

lemma str_split_chars:
  assumes "t \<in> set (str_split U s)"
  shows "t \<noteq> []" and "c \<in> set t \<Longrightarrow> \<not> char_isspace U c" and "c \<in> set t \<Longrightarrow> c \<in> set s"
  using split_runs_chars [of "[]" "char_isspace U" t s] assms by (auto simp: str_split_def)

text \<open>No character other than white space is lost by splitting.\<close>

lemma concat_split_runs:
  "(\<And>c. c \<in> set acc \<Longrightarrow> \<not> p c) \<Longrightarrow> concat (split_runs p acc s) = acc @ filter (\<lambda>c. \<not> p c) s"
  by (induction p acc s rule: split_runs.induct) auto

lemma concat_str_split: "concat (str_split U s) = filter (\<lambda>c. \<not> char_isspace U c) s"
  using concat_split_runs [of "[]" "char_isspace U" s] by (simp add: str_split_def)

lemma split_runs_run:
  "\<forall>c \<in> set t. \<not> p c \<Longrightarrow> split_runs p acc (t @ s) = split_runs p (acc @ t) s"
  by (induction t arbitrary: acc) auto

lemma str_join_Nil_sep [simp]: "str_join [] ps = concat ps"
  by (induction "[] :: pystr" ps rule: str_join.induct) auto

lemma str_join_eq_Nil: "(\<And>p. p \<in> set ps \<Longrightarrow> p \<noteq> []) \<Longrightarrow> str_join sep ps = [] \<longleftrightarrow> ps = []"
  by (induction sep ps rule: str_join.induct) auto

lemma set_str_join: "c \<in> set (str_join sep ps) \<Longrightarrow> c \<in> set sep \<or> (\<exists>p \<in> set ps. c \<in> set p)"
  by (induction sep ps rule: str_join.induct) auto

text \<open>Splitting what a single blank joined gives the parts back.\<close>

lemma split_runs_join:
  assumes "p b" and "\<forall>t \<in> set ts. t \<noteq> [] \<and> (\<forall>c \<in> set t. \<not> p c)"
  shows "split_runs p [] (str_join [b] ts) = ts"
  using assms(2)
proof (induction "[b]" ts rule: str_join.induct)
  case 1
  then show ?case by simp
next
  case (2 t)
  then show ?case using split_runs_run [of t p "[]" "[]"] by simp
next
  case (3 t u us)
  then have "split_runs p [] (t @ b # str_join [b] (u # us)) = t # split_runs p [] (str_join [b] (u # us))"
    using assms(1) by (simp add: split_runs_run)
  with 3 show ?case by simp
qed

lemma str_split_join:
  assumes "\<forall>t \<in> set ts. t \<noteq> [] \<and> (\<forall>c \<in> set t. \<not> char_isspace U c)"
  shows "str_split U (str_join (lit '' '') ts) = ts"
proof -
  have "char_isspace U 32" by (simp add: char_isspace_def ascii_isspace_def)
  moreover have "lit '' '' = [32]" by (simp add: lit_def)
  ultimately show ?thesis
    using split_runs_join [of "char_isspace U" 32 ts] assms by (simp add: str_split_def)
qed

text \<open>White space around the text does not change how it splits.\<close>

lemma split_runs_leading: "\<forall>c \<in> set ws. p c \<Longrightarrow> split_runs p [] (ws @ s) = split_runs p [] s"
  by (induction ws) auto

lemma split_runs_trailing: "\<forall>c \<in> set ws. p c \<Longrightarrow> split_runs p acc (s @ ws) = split_runs p acc s"
proof (induction p acc s rule: split_runs.induct)
  case (1 p acc)
  show ?case
  proof (cases ws)
    case (Cons w ws')
    then show ?thesis using 1 split_runs_leading [of ws' p "[]"] by simp
  qed simp
qed auto

lemma strip_decompose:
  obtains ws ws' where "s = ws @ str_strip U s @ ws'"
    and "\<forall>c \<in> set ws. char_isspace U c" and "\<forall>c \<in> set ws'. char_isspace U c"
proof
  let ?p = "char_isspace U"
  let ?l = "dropWhile ?p s"
  have "s = takeWhile ?p s @ ?l" by simp
  moreover have "rev ?l = takeWhile ?p (rev ?l) @ dropWhile ?p (rev ?l)" by simp
  then have "?l = rev (dropWhile ?p (rev ?l)) @ rev (takeWhile ?p (rev ?l))"
    by (metis rev_append rev_rev_ident)
  ultimately show "s = takeWhile ?p s @ str_strip U s @ rev (takeWhile ?p (rev ?l))"
    by (simp add: str_strip_def lstrip_def)
  show "\<forall>c \<in> set (takeWhile ?p s). ?p c" "\<forall>c \<in> set (rev (takeWhile ?p (rev ?l))). ?p c"
    by (auto dest: set_takeWhileD)
qed

lemma str_split_map_strip:
  assumes f: "\<And>c. char_isspace U c \<Longrightarrow> c \<in> set s \<Longrightarrow> q (f c) \<and> char_isspace U (f c)"
  shows "str_split U (filter q (map f (str_strip U s))) = str_split U (filter q (map f s))"
proof -
  obtain ws ws' where s: "s = ws @ str_strip U s @ ws'"
    and ws: "\<forall>c \<in> set ws. char_isspace U c" and ws': "\<forall>c \<in> set ws'. char_isspace U c"
    by (rule strip_decompose)
  have "set s = set ws \<union> (set (str_strip U s) \<union> set ws')"
    by (subst s) (simp only: set_append)
  then have sub: "set ws \<subseteq> set s" "set ws' \<subseteq> set s" by blast+
  have "\<forall>c \<in> set (filter q (map f ws)). char_isspace U c"
    "\<forall>c \<in> set (filter q (map f ws')). char_isspace U c"
    using ws ws' sub f by auto
  then show ?thesis
    by (subst (2) s) (simp add: str_split_def split_runs_leading split_runs_trailing
        append_assoc [symmetric] del: append_assoc)
qed

lemma str_split_strip: "str_split U (str_strip U s) = str_split U s"
  using str_split_map_strip [of U s "\<lambda>_. True" "\<lambda>c. c"] by simp

subsection \<open>Partition\<close>

lemma str_partition_found:
  "str_partition ch s = (b, True, a) \<longleftrightarrow> s = b @ ch # a \<and> ch \<notin> set b"
proof (induction s arbitrary: b)
  case (Cons c s)
  obtain b' f' a' where p: "str_partition ch s = (b', f', a')" by (metis prod_cases3)
  show ?case
    using Cons.IH [of "tl b"] p by (cases b) auto
qed simp

lemma str_partition_not_found:
  "str_partition ch s = (b, False, a) \<longleftrightarrow> ch \<notin> set s \<and> b = s \<and> a = []"
proof (induction s arbitrary: b)
  case (Cons c s)
  obtain b' f' a' where p: "str_partition ch s = (b', f', a')" by (metis prod_cases3)
  show ?case
    using Cons.IH [of "tl b"] p by (cases b) auto
qed auto

lemma str_partition_unique:
  "ch \<notin> set b \<Longrightarrow> str_partition ch (b @ ch # a) = (b, True, a)"
  by (simp add: str_partition_found)

subsection \<open>Removal and prefixes\<close>

lemma set_str_remove: "c \<in> set (str_remove ch s) \<longleftrightarrow> c \<in> set s \<and> c \<noteq> ch"
  by (auto simp: str_remove_def)

lemma str_before_chars: "c \<in> set (str_before ch s) \<Longrightarrow> c \<in> set s \<and> c \<noteq> ch"
  by (auto simp: str_before_def dest: set_takeWhileD)

lemma str_remove_id: "ch \<notin> set s \<Longrightarrow> str_remove ch s = s"
  by (auto simp: str_remove_def intro!: filter_True)

lemma str_before_id: "ch \<notin> set s \<Longrightarrow> str_before ch s = s"
  by (auto simp: str_before_def intro!: takeWhile_eq_all_conv [THEN iffD2])

lemma str_startswith_append: "str_startswith s p \<longleftrightarrow> (\<exists>t. s = p @ t)"
  by (induction s p rule: str_startswith.induct) auto

subsection \<open>Digits\<close>

lemma digits_of_nat_digits: "c \<in> set (digits_of_nat n) \<Longrightarrow> is_digit c"
proof (induction n rule: digits_of_nat.induct)
  case (1 n)
  from 1(2) show ?case
    by (subst (asm) digits_of_nat.simps) (auto split: if_splits simp: is_digit_def dest: 1(1))
qed

lemma digits_of_nat_not_Nil [simp]: "digits_of_nat n \<noteq> []"
  by (subst digits_of_nat.simps) simp

lemma is_digit_plain: "is_digit c \<Longrightarrow> c < 128 \<and> \<not> ascii_isspace c \<and> ascii_lower c = c"
  by (auto simp: is_digit_def ascii_isspace_def ascii_lower_def)

lemma char_decimal_digit: "is_digit c \<Longrightarrow> char_decimal U c = Some (c - 48)"
  using is_digit_plain [of c] by (simp add: char_decimal_def)

subsection \<open>ASCII text\<close>

lemma is_ascii_append [simp]: "is_ascii (s @ t) \<longleftrightarrow> is_ascii s \<and> is_ascii t"
  by (auto simp: is_ascii_def)

lemma is_ascii_Nil [simp]: "is_ascii []"
  by (simp add: is_ascii_def)

lemma is_ascii_Cons [simp]: "is_ascii (c # s) \<longleftrightarrow> c < 128 \<and> is_ascii s"
  by (auto simp: is_ascii_def)

lemma ascii_lower_idem [simp]: "ascii_lower (ascii_lower c) = ascii_lower c"
  by (simp add: ascii_lower_def)

lemma ascii_lower_ascii: "c < 128 \<Longrightarrow> ascii_lower c < 128"
  by (simp add: ascii_lower_def)

lemma ascii_lower_isspace [simp]: "ascii_isspace (ascii_lower c) \<longleftrightarrow> ascii_isspace c"
  by (auto simp: ascii_lower_def ascii_isspace_def)

lemma is_ascii_map_lower: "is_ascii s \<Longrightarrow> is_ascii (map ascii_lower s)"
  by (auto simp: is_ascii_def ascii_lower_ascii)

lemma str_lower_ascii: "is_ascii s \<Longrightarrow> str_lower U s = map ascii_lower s"
  by (simp add: str_lower_def)

lemma str_lower_Nil [simp]: "str_lower U [] = []"
  by (simp add: str_lower_def)

lemma str_upper_Nil [simp]: "str_upper U [] = []"
  by (simp add: str_upper_def)

lemma str_lower_idem_ascii: "is_ascii s \<Longrightarrow> str_lower U (str_lower U s) = str_lower U s"
  by (simp add: str_lower_ascii is_ascii_map_lower)

lemmas pystr_eval_defs [pystr_eval] =
  lit_def is_ascii_def ascii_isspace_def ascii_lower_def ascii_upper_def ascii_isalpha_def
  ascii_punctuation_def char_isspace_def char_isalpha_def category_Mn_def category_P_def
  str_lower_def str_upper_def str_nfkd_def str_isalpha_def str_strip_def lstrip_def
  str_split_def str_remove_def str_before_def

end
