(* ===== verification/Sha256.thy ===== *)
theory Sha256
  imports PyStr "HOL-Library.Word"
begin

text \<open>
  What the gateway uses of Python's \<open>hashlib\<close> and \<open>hmac\<close>: the UTF-8 encoding of a string,
  SHA-256 (FIPS 180-4) and HMAC-SHA256 (RFC 2104), and \<open>hexdigest()\<close>. Bytes are naturals
  below 256. The results needed elsewhere are that a digest is 64 lower-case hexadecimal
  characters, that the round constants are the exact integer roots, and that the functions evaluate.
\<close>

unbundle bit_operations_syntax

type_synonym bytes = "nat list"
type_synonym u32 = "32 word"

section \<open>UTF-8\<close>

text \<open>The encoding of a Unicode scalar value (text that Python's codec accepts has no others).\<close>

definition utf8_char :: "codepoint \<Rightarrow> bytes" where
  "utf8_char c =
     (if c < 128 then [c]
      else if c < 2048 then [192 + c div 64, 128 + c mod 64]
      else if c < 65536 then [224 + c div 4096, 128 + c div 64 mod 64, 128 + c mod 64]
      else [240 + c div 262144, 128 + c div 4096 mod 64, 128 + c div 64 mod 64, 128 + c mod 64])"

definition utf8_encode :: "pystr \<Rightarrow> bytes" where
  "utf8_encode s = concat (map utf8_char s)"

section \<open>SHA-256\<close>

text \<open>
  The constants as FIPS 180-4 introduces them: the first 32 bits of the fractional parts of the
  cube roots of the first 64 primes (the round constants) and of the square roots of the first
  eight (the initial hash value). \<open>root_bits k n b r\<close> is the largest \<open>r + i\<close> with
  \<open>i < 2 ^ b\<close> whose \<open>k\<close>-th power is at most \<open>n\<close>, found bit by bit; conversion to a word drops the
  integer part.
\<close>

fun root_bits :: "nat \<Rightarrow> int \<Rightarrow> nat \<Rightarrow> int \<Rightarrow> int" where
  "root_bits k n 0 r = r"
| "root_bits k n (Suc b) r = root_bits k n b (if (r + 2 ^ b) ^ k \<le> n then r + 2 ^ b else r)"

definition sha_primes :: "int list" where
  "sha_primes =
    [2, 3, 5, 7, 11, 13, 17, 19, 23, 29, 31, 37, 41, 43, 47, 53, 59, 61, 67, 71, 73, 79, 83,
     89, 97, 101, 103, 107, 109, 113, 127, 131, 137, 139, 149, 151, 157, 163, 167, 173, 179,
     181, 191, 193, 197, 199, 211, 223, 227, 229, 233, 239, 241, 251, 257, 263, 269, 271, 277,
     281, 283, 293, 307, 311]"

definition sha_K :: "u32 list" where
  "sha_K = map (\<lambda>p. word_of_int (root_bits 3 (p * 2 ^ 96) 36 0)) sha_primes"

definition sha_H0 :: "u32 list" where
  "sha_H0 = map (\<lambda>p. word_of_int (root_bits 2 (p * 2 ^ 64) 36 0)) (take 8 sha_primes)"

lemma root_bits_bounds:
  assumes "r ^ k \<le> n" and "n < (r + 2 ^ b) ^ k"
  shows "root_bits k n b r ^ k \<le> n \<and> n < (root_bits k n b r + 1) ^ k"
  using assms
proof (induction b arbitrary: r)
  case (Suc b)
  show ?case
  proof (cases "(r + 2 ^ b) ^ k \<le> n")
    case True
    then show ?thesis using Suc.IH [of "r + 2 ^ b"] Suc.prems by (simp add: add.assoc)
  next
    case False
    then show ?thesis using Suc.IH [of r] Suc.prems by simp
  qed
qed simp

lemma sha_K_exact:
  assumes "p \<in> set sha_primes"
  shows "root_bits 3 (p * 2 ^ 96) 36 0 ^ 3 \<le> p * 2 ^ 96 \<and> p * 2 ^ 96 < (root_bits 3 (p * 2 ^ 96) 36 0 + 1) ^ 3"
proof -
  have "\<forall>p \<in> set sha_primes. 0 \<le> p \<and> p < 2 ^ 12" by (simp add: sha_primes_def)
  with assms show ?thesis by (intro root_bits_bounds) auto
qed

definition sha_Ch :: "u32 \<Rightarrow> u32 \<Rightarrow> u32 \<Rightarrow> u32" where
  "sha_Ch x y z = (x AND y) XOR (NOT x AND z)"

definition sha_Maj :: "u32 \<Rightarrow> u32 \<Rightarrow> u32 \<Rightarrow> u32" where
  "sha_Maj x y z = (x AND y) XOR (x AND z) XOR (y AND z)"

definition sha_Sigma0 :: "u32 \<Rightarrow> u32" where
  "sha_Sigma0 x = word_rotr 2 x XOR word_rotr 13 x XOR word_rotr 22 x"

definition sha_Sigma1 :: "u32 \<Rightarrow> u32" where
  "sha_Sigma1 x = word_rotr 6 x XOR word_rotr 11 x XOR word_rotr 25 x"

definition sha_sigma0 :: "u32 \<Rightarrow> u32" where
  "sha_sigma0 x = word_rotr 7 x XOR word_rotr 18 x XOR drop_bit 3 x"

definition sha_sigma1 :: "u32 \<Rightarrow> u32" where
  "sha_sigma1 x = word_rotr 17 x XOR word_rotr 19 x XOR drop_bit 10 x"

text \<open>The message schedule, most recent word first.\<close>

fun sha_schedule :: "nat \<Rightarrow> u32 list \<Rightarrow> u32 list" where
  "sha_schedule 0 ws = ws"
| "sha_schedule (Suc n) ws =
     sha_schedule n ((sha_sigma1 (ws ! 1) + ws ! 6 + sha_sigma0 (ws ! 14) + ws ! 15) # ws)"

fun sha_round :: "u32 \<times> u32 \<Rightarrow> u32 list \<Rightarrow> u32 list" where
  "sha_round (k, w) [a, b, c, d, e, f, g, h] =
     (let t1 = h + sha_Sigma1 e + sha_Ch e f g + k + w;
          t2 = sha_Sigma0 a + sha_Maj a b c
      in [t1 + t2, a, b, c, d + t1, e, f, g])"
| "sha_round kw hs = hs"

definition sha_compress :: "u32 list \<Rightarrow> u32 list \<Rightarrow> u32 list" where
  "sha_compress hs block =
     map2 (+) hs (fold sha_round (zip sha_K (rev (sha_schedule 48 (rev block)))) hs)"

fun words_of_bytes :: "bytes \<Rightarrow> u32 list" where
  "words_of_bytes (a # b # c # d # bs) =
     word_of_nat (a * 16777216 + b * 65536 + c * 256 + d) # words_of_bytes bs"
| "words_of_bytes bs = []"

text \<open>\<open>n\<close> big-endian bytes of a number.\<close>

fun be_bytes :: "nat \<Rightarrow> nat \<Rightarrow> bytes" where
  "be_bytes 0 x = []"
| "be_bytes (Suc n) x = be_bytes n (x div 256) @ [x mod 256]"

definition sha_pad :: "bytes \<Rightarrow> bytes" where
  "sha_pad m = m @ [128] @ replicate ((119 - length m mod 64) mod 64) 0 @ be_bytes 8 (8 * length m)"

function sha_blocks :: "u32 list \<Rightarrow> u32 list \<Rightarrow> u32 list" where
  "sha_blocks hs ws =
     (if length ws < 16 then hs else sha_blocks (sha_compress hs (take 16 ws)) (drop 16 ws))"
  by pat_completeness auto
termination
  by (relation "measure (\<lambda>(hs, ws). length ws)") auto

declare sha_blocks.simps [simp del]

text \<open>\<open>hashlib.sha256(m).digest()\<close>\<close>

definition sha256 :: "bytes \<Rightarrow> bytes" where
  "sha256 m = concat (map (\<lambda>w. be_bytes 4 (unat w)) (sha_blocks sha_H0 (words_of_bytes (sha_pad m))))"

section \<open>hexdigest and HMAC\<close>

definition hex_digit :: "nat \<Rightarrow> codepoint" where
  "hex_digit n = (if n < 10 then 48 + n else 87 + n)"

definition hex_of_bytes :: "bytes \<Rightarrow> pystr" where
  "hex_of_bytes bs = concat (map (\<lambda>b. [hex_digit (b div 16), hex_digit (b mod 16)]) bs)"

definition sha256_hexdigest :: "bytes \<Rightarrow> pystr" where
  "sha256_hexdigest m = hex_of_bytes (sha256 m)"

definition xor_byte :: "nat \<Rightarrow> nat \<Rightarrow> nat" where
  "xor_byte a b = a XOR b"

definition hmac_key :: "bytes \<Rightarrow> bytes" where
  "hmac_key k = (let k' = (if length k > 64 then sha256 k else k) in k' @ replicate (64 - length k') 0)"

text \<open>\<open>hmac.new(k, m, hashlib.sha256).hexdigest()\<close>\<close>

definition hmac_sha256_hexdigest :: "bytes \<Rightarrow> bytes \<Rightarrow> pystr" where
  "hmac_sha256_hexdigest k m =
     (let k0 = hmac_key k
      in sha256_hexdigest (map (xor_byte 92) k0 @ sha256 (map (xor_byte 54) k0 @ m)))"

section \<open>The shape of a digest\<close>

definition is_hex64 :: "pystr \<Rightarrow> bool" where
  "is_hex64 s \<longleftrightarrow> length s = 64 \<and> (\<forall>c \<in> set s. 48 \<le> c \<and> c \<le> 57 \<or> 97 \<le> c \<and> c \<le> 102)"

lemma length_sha_round [simp]: "length (sha_round kw hs) = length hs"
  by (cases "(kw, hs)" rule: sha_round.cases) (simp_all add: Let_def)

lemma length_fold_sha_round [simp]: "length (fold sha_round kws hs) = length hs"
  by (induction kws arbitrary: hs) simp_all

lemma length_sha_compress [simp]: "length (sha_compress hs block) = length hs"
  by (simp add: sha_compress_def)

lemma length_sha_blocks [simp]: "length (sha_blocks hs ws) = length hs"
proof (induction hs ws rule: sha_blocks.induct)
  case (1 hs ws)
  then show ?case by (subst sha_blocks.simps) simp
qed

lemma length_be_bytes [simp]: "length (be_bytes n x) = n"
  by (induction n arbitrary: x) simp_all

lemma be_bytes_byte: "b \<in> set (be_bytes n x) \<Longrightarrow> b < 256"
  by (induction n arbitrary: x) auto

lemma length_concat_const: "(\<forall>x \<in> set xs. length (f x) = n) \<Longrightarrow> length (concat (map f xs)) = n * length xs"
  by (induction xs) simp_all

lemma length_sha256 [simp]: "length (sha256 m) = 32"
  using length_concat_const [of "sha_blocks sha_H0 (words_of_bytes (sha_pad m))" "\<lambda>w. be_bytes 4 (unat w)" 4]
  by (simp add: sha256_def sha_H0_def sha_primes_def)

lemma sha256_byte: "b \<in> set (sha256 m) \<Longrightarrow> b < 256"
  by (auto simp: sha256_def dest: be_bytes_byte)

lemma hex_digit_range: "n < 16 \<Longrightarrow> 48 \<le> hex_digit n \<and> hex_digit n \<le> 57 \<or> 97 \<le> hex_digit n \<and> hex_digit n \<le> 102"
  by (auto simp: hex_digit_def)

lemma is_hex64_hex_of_bytes:
  assumes "length bs = 32" and "\<forall>b \<in> set bs. b < 256"
  shows "is_hex64 (hex_of_bytes bs)"
proof -
  have "length (hex_of_bytes bs) = 2 * length bs"
    unfolding hex_of_bytes_def by (rule length_concat_const) simp
  moreover have "b div 16 < 16" "b mod 16 < 16" if "b \<in> set bs" for b
    using that assms(2) by (auto simp: div_less_iff_less_mult)
  ultimately show ?thesis
    using assms(1) hex_digit_range by (fastforce simp: is_hex64_def hex_of_bytes_def)
qed

lemma is_hex64_sha256_hexdigest [simp]: "is_hex64 (sha256_hexdigest m)"
  unfolding sha256_hexdigest_def by (rule is_hex64_hex_of_bytes) (auto dest: sha256_byte)

lemma is_hex64_hmac [simp]: "is_hex64 (hmac_sha256_hexdigest k m)"
  by (simp add: hmac_sha256_hexdigest_def Let_def)

lemma is_hex64_not_Nil: "is_hex64 s \<Longrightarrow> s \<noteq> []"
  by (auto simp: is_hex64_def)

lemma is_hex64_ascii: "is_hex64 s \<Longrightarrow> is_ascii s"
  by (fastforce simp: is_hex64_def is_ascii_def)

end
