(* ===== verification/Normalise.thy ===== *)
theory Normalise
  imports Sha256
begin

text \<open>
  \<open>gateway/normalise\<close>: the field normalisers (\<open>email.py\<close>, \<open>phone.py\<close>, \<open>name.py\<close>,
  \<open>address.py\<close>), \<open>hashing.py\<close> and the assembly of a hashed identifier set
  (\<open>identifiers.py\<close>). A normaliser returns \<open>Inr\<close> the normalised string or \<open>Inl\<close> the
  reason why there is none, as the code returns \<open>str | RejectionReason\<close>.
\<close>

section \<open>rejection.py\<close>

datatype RejectionReason =
    MISSING
  | EMPTY
  | MALFORMED
  | UNPARSEABLE
  | INVALID
  | NO_DEFAULT_REGION
  | NOT_ALPHA2
  | NO_MATCH_KEY

fun rejection_value :: "RejectionReason \<Rightarrow> pystr" where
  "rejection_value MISSING = lit ''missing''"
| "rejection_value EMPTY = lit ''empty''"
| "rejection_value MALFORMED = lit ''malformed''"
| "rejection_value UNPARSEABLE = lit ''unparseable''"
| "rejection_value INVALID = lit ''invalid''"
| "rejection_value NO_DEFAULT_REGION = lit ''no_default_region''"
| "rejection_value NOT_ALPHA2 = lit ''not_alpha2''"
| "rejection_value NO_MATCH_KEY = lit ''no_match_key''"

record FieldRejection =
  rej_field :: pystr
  rej_reason :: RejectionReason

type_synonym outcome = "RejectionReason + pystr"

section \<open>email.py\<close>

abbreviation AT :: codepoint where "AT \<equiv> 64"
abbreviation DOT :: codepoint where "DOT \<equiv> 46"
abbreviation PLUS :: codepoint where "PLUS \<equiv> 43"

definition DOT_INSENSITIVE_DOMAINS :: "pystr set" where
  "DOT_INSENSITIVE_DOMAINS = {lit ''gmail.com'', lit ''googlemail.com''}"

definition normalise_email :: "ucd \<Rightarrow> pystr option \<Rightarrow> outcome" where
  "normalise_email U raw =
     (case raw of
        None \<Rightarrow> Inl MISSING
      | Some raw \<Rightarrow>
          let value = str_lower U (str_strip U raw) in
          if value = [] then Inl EMPTY
          else
            case str_partition AT value of (loc, sep, domain) \<Rightarrow>
              if \<not> sep \<or> loc = [] \<or> domain = [] \<or> AT \<in> set domain then Inl MALFORMED
              else if domain \<in> DOT_INSENSITIVE_DOMAINS then
                let loc' = str_before PLUS (str_remove DOT loc) in
                if loc' = [] then Inl MALFORMED else Inr (loc' @ lit ''@'' @ domain)
              else Inr (loc @ lit ''@'' @ domain))"

section \<open>name.py\<close>

definition TITLES :: "pystr set" where
  "TITLES = lit ` {''mr'', ''mrs'', ''ms'', ''miss'', ''mx'', ''dr'', ''prof'', ''sir'', ''madam''}"

definition SUFFIXES :: "pystr set" where
  "SUFFIXES = lit ` {''jr'', ''sr'', ''ii'', ''iii'', ''iv'', ''esq'', ''phd'', ''md''}"

definition STRIP_TOKENS :: "pystr set" where
  "STRIP_TOKENS = TITLES \<union> SUFFIXES"

definition strip_accents :: "ucd \<Rightarrow> pystr \<Rightarrow> pystr" where
  "strip_accents U value = filter (\<lambda>ch. \<not> category_Mn U ch) (str_nfkd U value)"

definition strip_punctuation :: "ucd \<Rightarrow> pystr \<Rightarrow> pystr" where
  "strip_punctuation U value = filter (\<lambda>ch. \<not> category_P U ch) value"

definition normalise_name :: "ucd \<Rightarrow> pystr option \<Rightarrow> outcome" where
  "normalise_name U raw =
     (case raw of
        None \<Rightarrow> Inl MISSING
      | Some raw \<Rightarrow>
          let value = strip_punctuation U (strip_accents U (str_lower U (str_strip U raw)));
              tokens = filter (\<lambda>t. t \<notin> STRIP_TOKENS) (str_split U value)
          in if tokens = [] then Inl EMPTY else Inr (str_join [] tokens))"

section \<open>address.py\<close>

definition normalise_street :: "ucd \<Rightarrow> pystr option \<Rightarrow> outcome" where
  "normalise_street U raw =
     (case raw of
        None \<Rightarrow> Inl MISSING
      | Some raw \<Rightarrow>
          let value = strip_punctuation U (strip_accents U (str_lower U (str_strip U raw)));
              tokens = str_split U value
          in if tokens = [] then Inl EMPTY else Inr (str_join (lit '' '') tokens))"

definition lowercase_collapsed :: "ucd \<Rightarrow> pystr option \<Rightarrow> outcome" where
  "lowercase_collapsed U raw =
     (case raw of
        None \<Rightarrow> Inl MISSING
      | Some raw \<Rightarrow>
          let value = str_join (lit '' '') (str_split U (str_lower U (str_strip U raw)))
          in if value = [] then Inl EMPTY else Inr value)"

definition normalise_city :: "ucd \<Rightarrow> pystr option \<Rightarrow> outcome" where
  "normalise_city U raw = lowercase_collapsed U raw"

definition normalise_region :: "ucd \<Rightarrow> pystr option \<Rightarrow> outcome" where
  "normalise_region U raw = lowercase_collapsed U raw"

definition normalise_postal_code :: "ucd \<Rightarrow> pystr option \<Rightarrow> outcome" where
  "normalise_postal_code U raw =
     (case raw of
        None \<Rightarrow> Inl MISSING
      | Some raw \<Rightarrow>
          let value = str_strip U raw in if value = [] then Inl EMPTY else Inr value)"

definition normalise_country :: "ucd \<Rightarrow> pystr option \<Rightarrow> outcome" where
  "normalise_country U raw =
     (case raw of
        None \<Rightarrow> Inl MISSING
      | Some raw \<Rightarrow>
          let value = str_upper U (str_strip U raw) in
          if value = [] then Inl EMPTY
          else if length value \<noteq> 2 \<or> \<not> str_isalpha U value then Inl NOT_ALPHA2
          else Inr value)"

section \<open>phone.py\<close>

text \<open>
  The \<open>phonenumbers\<close> package is a parameter: \<open>parse(value, region)\<close> (\<open>None\<close> where it
  raises \<open>NumberParseException\<close>), \<open>is_valid_number\<close> and \<open>format_number(_, E164)\<close>.
\<close>

record 'n phonelib =
  pn_parse :: "pystr \<Rightarrow> pystr option \<Rightarrow> 'n option"
  pn_is_valid_number :: "'n \<Rightarrow> bool"
  pn_format_e164 :: "'n \<Rightarrow> pystr"

definition normalise_phone :: "ucd \<Rightarrow> 'n phonelib \<Rightarrow> pystr option \<Rightarrow> pystr option \<Rightarrow> outcome" where
  "normalise_phone U P raw default_region =
     (case raw of
        None \<Rightarrow> Inl MISSING
      | Some raw \<Rightarrow>
          let value = str_strip U raw in
          if value = [] then Inl EMPTY
          else
            let region = map_option (str_upper U) default_region in
            if region = None \<and> \<not> str_startswith value (lit ''+'') then Inl NO_DEFAULT_REGION
            else
              case pn_parse P value region of
                None \<Rightarrow> Inl UNPARSEABLE
              | Some parsed \<Rightarrow>
                  if \<not> pn_is_valid_number P parsed then Inl INVALID
                  else Inr (pn_format_e164 P parsed))"

section \<open>hashing.py\<close>

definition sha256_hex :: "pystr \<Rightarrow> pystr" where
  "sha256_hex value = sha256_hexdigest (utf8_encode value)"

section \<open>identifiers.py\<close>

record RawIdentifiers =
  raw_email :: "pystr option"
  raw_phone :: "pystr option"
  raw_given_name :: "pystr option"
  raw_family_name :: "pystr option"
  raw_street_address :: "pystr option"
  raw_city :: "pystr option"
  raw_region :: "pystr option"
  raw_postal_code :: "pystr option"
  raw_country :: "pystr option"

text \<open>\<open>RawIdentifiers()\<close>: every field \<open>None\<close>.\<close>

definition no_identifiers :: RawIdentifiers where
  "no_identifiers = \<lparr>raw_email = None, raw_phone = None, raw_given_name = None,
     raw_family_name = None, raw_street_address = None, raw_city = None, raw_region = None,
     raw_postal_code = None, raw_country = None\<rparr>"

record HashedIdentifiers =
  hashed_email :: "pystr option"
  hashed_phone :: "pystr option"
  hashed_given_name :: "pystr option"
  hashed_family_name :: "pystr option"
  hashed_street_address :: "pystr option"
  id_city :: "pystr option"
  id_region :: "pystr option"
  id_postal_code :: "pystr option"
  id_country :: "pystr option"

definition has_match_key :: "HashedIdentifiers \<Rightarrow> bool" where
  "has_match_key h =
     (let full_address = hashed_given_name h \<noteq> None \<and> hashed_family_name h \<noteq> None \<and>
            id_postal_code h \<noteq> None \<and> id_country h \<noteq> None
      in hashed_email h \<noteq> None \<or> hashed_phone h \<noteq> None \<or> full_address)"

record IdentifierBuildResult =
  identifiers :: HashedIdentifiers
  rejections :: "FieldRejection list"

definition build_ok :: "IdentifierBuildResult \<Rightarrow> bool" where
  "build_ok r \<longleftrightarrow> rejections r = []"

definition hash_or_none :: "outcome \<Rightarrow> pystr option" where
  "hash_or_none v = (case v of Inl _ \<Rightarrow> None | Inr s \<Rightarrow> Some (sha256_hex s))"

definition plain_or_none :: "outcome \<Rightarrow> pystr option" where
  "plain_or_none v = (case v of Inl _ \<Rightarrow> None | Inr s \<Rightarrow> Some s)"

text \<open>\<open>if raw.f is not None: outcomes["f"] = ...\<close>\<close>

definition outcome_entry :: "string \<Rightarrow> pystr option \<Rightarrow> outcome \<Rightarrow> (pystr \<times> outcome) list" where
  "outcome_entry f raw v = (if raw \<noteq> None then [(lit f, v)] else [])"

text \<open>The dict \<open>outcomes\<close> in its order of insertion.\<close>

definition field_outcomes :: "ucd \<Rightarrow> 'n phonelib \<Rightarrow> RawIdentifiers \<Rightarrow> (pystr \<times> outcome) list" where
  "field_outcomes U P raw =
     (let country = normalise_country U (raw_country raw);
          region = (case country of Inl _ \<Rightarrow> None | Inr c \<Rightarrow> Some c)
      in outcome_entry ''country'' (raw_country raw) country
       @ outcome_entry ''email'' (raw_email raw) (normalise_email U (raw_email raw))
       @ outcome_entry ''phone'' (raw_phone raw) (normalise_phone U P (raw_phone raw) region)
       @ outcome_entry ''given_name'' (raw_given_name raw) (normalise_name U (raw_given_name raw))
       @ outcome_entry ''family_name'' (raw_family_name raw) (normalise_name U (raw_family_name raw))
       @ outcome_entry ''street_address'' (raw_street_address raw) (normalise_street U (raw_street_address raw))
       @ outcome_entry ''city'' (raw_city raw) (normalise_city U (raw_city raw))
       @ outcome_entry ''region'' (raw_region raw) (normalise_region U (raw_region raw))
       @ outcome_entry ''postal_code'' (raw_postal_code raw) (normalise_postal_code U (raw_postal_code raw)))"

text \<open>\<open>outcomes.get(f, absent)\<close>\<close>

definition get_outcome :: "(pystr \<times> outcome) list \<Rightarrow> string \<Rightarrow> outcome" where
  "get_outcome outcomes f = (case map_of outcomes (lit f) of None \<Rightarrow> Inl MISSING | Some v \<Rightarrow> v)"

definition outcome_rejections :: "(pystr \<times> outcome) list \<Rightarrow> FieldRejection list" where
  "outcome_rejections outcomes =
     concat (map (\<lambda>(f, v). case v of Inl r \<Rightarrow> [\<lparr>rej_field = f, rej_reason = r\<rparr>] | Inr _ \<Rightarrow> []) outcomes)"

definition build_user_identifiers :: "ucd \<Rightarrow> 'n phonelib \<Rightarrow> RawIdentifiers \<Rightarrow> IdentifierBuildResult" where
  "build_user_identifiers U P raw =
     (let outcomes = field_outcomes U P raw;
          rejs = outcome_rejections outcomes;
          ids = \<lparr>hashed_email = hash_or_none (get_outcome outcomes ''email''),
                 hashed_phone = hash_or_none (get_outcome outcomes ''phone''),
                 hashed_given_name = hash_or_none (get_outcome outcomes ''given_name''),
                 hashed_family_name = hash_or_none (get_outcome outcomes ''family_name''),
                 hashed_street_address = hash_or_none (get_outcome outcomes ''street_address''),
                 id_city = plain_or_none (get_outcome outcomes ''city''),
                 id_region = plain_or_none (get_outcome outcomes ''region''),
                 id_postal_code = plain_or_none (get_outcome outcomes ''postal_code''),
                 id_country = plain_or_none (get_outcome outcomes ''country'')\<rparr>;
          rejs' = (if has_match_key ids then rejs
                   else rejs @ [\<lparr>rej_field = lit ''identifiers'', rej_reason = NO_MATCH_KEY\<rparr>])
      in \<lparr>identifiers = ids, rejections = rejs'\<rparr>)"

section \<open>What every normaliser promises\<close>

text \<open>
  The contract that \<open>build_user_identifiers\<close> relies on: an absent field, and only an absent
  field, is \<open>MISSING\<close>; a blank one is \<open>EMPTY\<close>; \<open>NO_MATCH_KEY\<close> is about records, not fields.
\<close>

locale field_normaliser =
  fixes U :: ucd
    and norm :: "pystr option \<Rightarrow> outcome"
  assumes norm_absent: "norm None = Inl MISSING"
    and norm_blank: "\<forall>c \<in> set s. char_isspace U c \<Longrightarrow> norm (Some s) = Inl EMPTY"
    and norm_not_missing: "norm (Some s) \<noteq> Inl MISSING"
    and norm_field_level: "norm raw \<noteq> Inl NO_MATCH_KEY"
begin

lemma missing_iff: "norm raw = Inl MISSING \<longleftrightarrow> raw = None"
  by (cases raw) (simp_all add: norm_absent norm_not_missing)

lemma get_entry:
  "(case map_of (outcome_entry f raw (norm raw)) (lit f) of None \<Rightarrow> Inl MISSING | Some v \<Rightarrow> v) = norm raw"
  by (cases raw) (simp_all add: outcome_entry_def norm_absent)

lemma entry_rejections:
  "x \<in> set (outcome_rejections (outcome_entry f raw (norm raw))) \<longleftrightarrow>
     rej_field x = lit f \<and> rej_reason x \<noteq> MISSING \<and> norm raw = Inl (rej_reason x)"
  by (cases raw)
    (auto simp: outcome_entry_def outcome_rejections_def norm_absent norm_not_missing
      norm_not_missing [symmetric] split: sum.splits)

end

text \<open>A normaliser whose results are never empty strings.\<close>

locale string_normaliser = field_normaliser +
  assumes norm_nonempty: "norm (Some s) = Inr v \<Longrightarrow> v \<noteq> []"
begin

lemma plain_nonempty: "plain_or_none (norm raw) \<noteq> Some []"
  by (cases raw) (auto simp: plain_or_none_def norm_absent dest: norm_nonempty split: sum.splits)

lemma plain_truthy: "truthy (plain_or_none (norm raw)) \<longleftrightarrow> plain_or_none (norm raw) \<noteq> None"
  using plain_nonempty by (auto simp: truthy_def split: option.splits)

end

text \<open>A normaliser with a canonical form that it produces (on the inputs \<open>input\<close>) and keeps.\<close>

locale canonicaliser = string_normaliser +
  fixes input canonical :: "pystr \<Rightarrow> bool"
  assumes canonical_result: "input s \<Longrightarrow> norm (Some s) = Inr v \<Longrightarrow> canonical v"
    and canonical_fixed: "canonical v \<Longrightarrow> norm (Some v) = Inr v"
begin

lemma idempotent: "input s \<Longrightarrow> norm (Some s) = Inr v \<Longrightarrow> norm (Some v) = Inr v"
  by (rule canonical_fixed) (rule canonical_result)

end

section \<open>The normalisers keep the contract\<close>

lemmas normaliser_defs =
  normalise_email_def normalise_name_def normalise_street_def lowercase_collapsed_def
  normalise_city_def normalise_region_def normalise_postal_code_def normalise_country_def
  normalise_phone_def

lemma strip_accents_Nil [simp]: "strip_accents U [] = []"
  by (simp add: strip_accents_def str_nfkd_def)

lemma strip_punctuation_Nil [simp]: "strip_punctuation U [] = []"
  by (simp add: strip_punctuation_def)

lemma str_split_Nil [simp]: "str_split U [] = []"
  by (simp add: str_split_def)

lemma blank_strip: "\<forall>c \<in> set s. char_isspace U c \<Longrightarrow> str_strip U s = []"
  by (simp add: str_strip_eq_Nil)

lemma str_join_tokens_Nil: "str_join sep (filter q (str_split U v)) = [] \<longleftrightarrow> filter q (str_split U v) = []"
  by (rule str_join_eq_Nil) (auto dest: str_split_chars(1))

interpretation email: string_normaliser U "normalise_email U" for U
  by unfold_locales
    (auto simp: normaliser_defs blank_strip Let_def split: prod.splits if_splits option.splits)

interpretation name: string_normaliser U "normalise_name U" for U
  by unfold_locales
    (auto simp: normaliser_defs blank_strip Let_def str_join_tokens_Nil simp del: str_join_Nil_sep
      split: if_splits option.splits)

interpretation street: string_normaliser U "normalise_street U" for U
  using str_join_tokens_Nil [where q = "\<lambda>_. True"]
  by unfold_locales (auto simp: normaliser_defs blank_strip Let_def split: if_splits option.splits)

interpretation city: string_normaliser U "normalise_city U" for U
  by unfold_locales (auto simp: normaliser_defs blank_strip Let_def split: if_splits option.splits)

interpretation region: string_normaliser U "normalise_region U" for U
  by unfold_locales (auto simp: normaliser_defs blank_strip Let_def split: if_splits option.splits)

interpretation postal_code: string_normaliser U "normalise_postal_code U" for U
  by unfold_locales (auto simp: normaliser_defs blank_strip Let_def split: if_splits option.splits)

interpretation country: string_normaliser U "normalise_country U" for U
  by unfold_locales (auto simp: normaliser_defs blank_strip Let_def split: if_splits option.splits)

interpretation phone: field_normaliser U "\<lambda>raw. normalise_phone U P raw r" for U P r
  by unfold_locales
    (auto simp: normaliser_defs blank_strip Let_def split: if_splits option.splits)

section \<open>Email\<close>

text \<open>The normal form of an address, given its two halves.\<close>

definition canonical_local :: "pystr \<Rightarrow> pystr \<Rightarrow> pystr" where
  "canonical_local domain loc =
     (if domain \<in> DOT_INSENSITIVE_DOMAINS then str_before PLUS (str_remove DOT loc) else loc)"

lemma lit_AT [simp]: "lit ''@'' = [AT]"
  by (simp add: lit_def)

lemma normalise_email_Inr:
  "normalise_email U (Some raw) = Inr e \<longleftrightarrow>
     (\<exists>l d. str_lower U (str_strip U raw) = l @ AT # d \<and> l \<noteq> [] \<and> d \<noteq> [] \<and>
            AT \<notin> set l \<and> AT \<notin> set d \<and> canonical_local d l \<noteq> [] \<and> e = canonical_local d l @ AT # d)"
  (is "?lhs \<longleftrightarrow> ?rhs")
proof
  assume ?lhs
  moreover obtain l sep d where p: "str_partition AT (str_lower U (str_strip U raw)) = (l, sep, d)"
    by (metis prod_cases3)
  ultimately have sep and ne: "l \<noteq> []" "d \<noteq> []" "AT \<notin> set d"
    and e: "canonical_local d l \<noteq> []" "e = canonical_local d l @ AT # d"
    by (auto simp: normalise_email_def canonical_local_def Let_def split: if_splits)
  from \<open>sep\<close> p have "str_lower U (str_strip U raw) = l @ AT # d" "AT \<notin> set l"
    by (simp_all add: str_partition_found)
  with ne e show ?rhs by blast
next
  assume ?rhs
  then show ?lhs
    by (auto simp: normalise_email_def canonical_local_def str_partition_unique Let_def split: if_splits)
qed

lemma canonical_local_chars: "c \<in> set (canonical_local d l) \<Longrightarrow> c \<in> set l"
  by (auto simp: canonical_local_def set_str_remove dest: str_before_chars split: if_splits)

lemma canonical_local_clean:
  "d \<in> DOT_INSENSITIVE_DOMAINS \<Longrightarrow> DOT \<notin> set (canonical_local d l) \<and> PLUS \<notin> set (canonical_local d l)"
  by (auto simp: canonical_local_def set_str_remove dest: str_before_chars)

lemma canonical_local_idem [simp]: "canonical_local d (canonical_local d l) = canonical_local d l"
proof (cases "d \<in> DOT_INSENSITIVE_DOMAINS")
  case True
  from canonical_local_clean [OF this, of l] True show ?thesis
    by (subst canonical_local_def) (simp add: str_remove_id str_before_id)
qed (simp add: canonical_local_def)

text \<open>An address that is already in normal form (and ASCII without blanks).\<close>

definition canonical_email :: "pystr \<Rightarrow> bool" where
  "canonical_email e \<longleftrightarrow>
     is_ascii e \<and> (\<forall>c \<in> set e. \<not> ascii_isspace c \<and> ascii_lower c = c) \<and>
     (case str_partition AT e of (l, sep, d) \<Rightarrow>
        sep \<and> l \<noteq> [] \<and> d \<noteq> [] \<and> AT \<notin> set d \<and> canonical_local d l = l)"

definition plain_text :: "pystr \<Rightarrow> bool" where
  "plain_text s \<longleftrightarrow> is_ascii s \<and> (\<forall>c \<in> set s. \<not> ascii_isspace c)"

lemma ascii_isspace_char: "is_ascii s \<Longrightarrow> c \<in> set s \<Longrightarrow> char_isspace U c \<longleftrightarrow> ascii_isspace c"
  by (simp add: char_isspace_def is_ascii_def)

lemma plain_text_strip: "plain_text s \<Longrightarrow> str_strip U s = s"
  by (rule str_strip_id) (auto simp: plain_text_def ascii_isspace_char)

lemma canonical_email_fixed: "canonical_email e \<Longrightarrow> normalise_email U (Some e) = Inr e"
proof -
  assume c: "canonical_email e"
  obtain l sep d where p: "str_partition AT e = (l, sep, d)" by (metis prod_cases3)
  from c p have e: "e = l @ AT # d" "AT \<notin> set l"
    by (simp_all add: canonical_email_def str_partition_found)
  have "plain_text e" using c by (simp add: canonical_email_def plain_text_def)
  then have "str_strip U e = e" by (rule plain_text_strip)
  moreover have "map ascii_lower e = e" using c by (auto simp: canonical_email_def intro: map_idI)
  then have "str_lower U e = e" using c by (simp add: canonical_email_def str_lower_ascii)
  ultimately have "str_lower U (str_strip U e) = l @ AT # d" using e(1) by metis
  moreover have "l \<noteq> []" "d \<noteq> []" "AT \<notin> set d" "canonical_local d l = l"
    using c p by (simp_all add: canonical_email_def)
  ultimately show ?thesis using e by (subst normalise_email_Inr) metis
qed

lemma canonical_email_result:
  assumes "plain_text s" and "normalise_email U (Some s) = Inr e"
  shows "canonical_email e"
proof -
  have lower: "str_lower U (str_strip U s) = map ascii_lower s"
    using assms(1) by (simp add: plain_text_strip) (simp add: plain_text_def str_lower_ascii)
  from assms(2) lower obtain l d where ld: "map ascii_lower s = l @ AT # d" "l \<noteq> []" "d \<noteq> []"
      "AT \<notin> set l" "AT \<notin> set d" "canonical_local d l \<noteq> []" "e = canonical_local d l @ AT # d"
    by (auto simp: normalise_email_Inr)
  have mem: "c \<in> set (map ascii_lower s)" if "c \<in> set e" for c
  proof -
    have "c \<in> set (l @ AT # d)"
      using that canonical_local_chars [of c d l] by (auto simp: ld(7))
    then show ?thesis by (simp only: ld(1))
  qed
  have "\<forall>c \<in> set (map ascii_lower s). c < 128 \<and> \<not> ascii_isspace c \<and> ascii_lower c = c"
    using assms(1) by (auto simp: plain_text_def is_ascii_def ascii_lower_ascii)
  with mem have "is_ascii e" "\<forall>c \<in> set e. \<not> ascii_isspace c \<and> ascii_lower c = c"
    unfolding is_ascii_def by blast+
  moreover have "AT \<notin> set (canonical_local d l)" using ld(4) canonical_local_chars by blast
  then have "str_partition AT e = (canonical_local d l, True, d)"
    using ld(7) by (simp add: str_partition_unique)
  ultimately show ?thesis using ld by (simp add: canonical_email_def)
qed

interpretation email_form: canonicaliser U "normalise_email U" plain_text canonical_email for U
  by unfold_locales (auto intro: canonical_email_result canonical_email_fixed)

section \<open>Names and streets\<close>

lemma strip_accents_ascii: "is_ascii s \<Longrightarrow> strip_accents U s = s"
  by (auto simp: strip_accents_def str_nfkd_def category_Mn_def is_ascii_def intro!: filter_True)

text \<open>The words of an ASCII text: lower case, punctuation removed, split at blanks.\<close>

definition words_of :: "ucd \<Rightarrow> pystr \<Rightarrow> pystr list" where
  "words_of U s = str_split U (strip_punctuation U (map ascii_lower s))"

lemma ascii_space_not_punctuation: "ascii_isspace c \<Longrightarrow> \<not> ascii_punctuation c"
  by (auto simp: ascii_isspace_def ascii_punctuation_def)

lemma is_ascii_strip: "is_ascii s \<Longrightarrow> is_ascii (str_strip U s)"
  by (auto simp: is_ascii_def dest: set_str_strip)

lemma words_of_strip:
  assumes "is_ascii s"
  shows "str_split U (strip_punctuation U (strip_accents U (str_lower U (str_strip U s)))) = words_of U s"
proof -
  have "is_ascii (str_strip U s)" using assms by (rule is_ascii_strip)
  then have "strip_accents U (str_lower U (str_strip U s)) = map ascii_lower (str_strip U s)"
    by (simp add: str_lower_ascii is_ascii_map_lower strip_accents_ascii)
  moreover have "\<not> category_P U (ascii_lower c) \<and> char_isspace U (ascii_lower c)"
    if "char_isspace U c" "c \<in> set s" for c
    using that assms ascii_lower_ascii ascii_space_not_punctuation
    by (auto simp: is_ascii_def char_isspace_def category_P_def)
  ultimately show ?thesis
    unfolding words_of_def strip_punctuation_def by (simp add: str_split_map_strip)
qed

lemma normalise_name_ascii:
  assumes "is_ascii s"
  shows "normalise_name U (Some s) =
    (let ks = filter (\<lambda>t. t \<notin> STRIP_TOKENS) (words_of U s) in if ks = [] then Inl EMPTY else Inr (concat ks))"
  using words_of_strip [OF assms, of U] by (simp add: normalise_name_def Let_def)

lemma normalise_street_ascii:
  assumes "is_ascii s"
  shows "normalise_street U (Some s) =
    (let ks = words_of U s in if ks = [] then Inl EMPTY else Inr (str_join (lit '' '') ks))"
  using words_of_strip [OF assms, of U] by (simp add: normalise_street_def Let_def)

text \<open>A list of words that splitting, lower-casing and removing punctuation leave alone.\<close>

definition clean_words :: "pystr list \<Rightarrow> bool" where
  "clean_words ts \<longleftrightarrow>
     (\<forall>t \<in> set ts. t \<noteq> [] \<and>
        (\<forall>c \<in> set t. c < 128 \<and> \<not> ascii_isspace c \<and> \<not> ascii_punctuation c \<and> ascii_lower c = c))"

lemma clean_words_of: "is_ascii s \<Longrightarrow> clean_words (words_of U s)"
proof -
  assume a: "is_ascii s"
  show ?thesis
    unfolding clean_words_def
  proof (intro ballI conjI)
    fix t assume t: "t \<in> set (words_of U s)"
    then show "t \<noteq> []" by (auto simp: words_of_def dest: str_split_chars(1))
    fix c assume c: "c \<in> set t"
    with t have "c \<in> set (strip_punctuation U (map ascii_lower s))" and ns: "\<not> char_isspace U c"
      by (auto simp: words_of_def dest: str_split_chars)
    then obtain b where b: "c = ascii_lower b" "b < 128" "\<not> category_P U c"
      using a by (auto simp: strip_punctuation_def is_ascii_def)
    then show "c < 128" by (simp add: ascii_lower_ascii)
    with b ns show "\<not> ascii_isspace c" "\<not> ascii_punctuation c" "ascii_lower c = c"
      by (auto simp: char_isspace_def category_P_def)
  qed
qed

lemma clean_words_join_chars:
  assumes "clean_words ts" and "c \<in> set (str_join (lit '' '') ts)"
  shows "c < 128 \<and> \<not> ascii_punctuation c \<and> ascii_lower c = c"
proof -
  from assms(2) consider "c = 32" | t where "t \<in> set ts" "c \<in> set t"
    by (auto dest!: set_str_join simp: lit_def)
  then show ?thesis
  proof cases
    case 1
    then show ?thesis by (simp add: ascii_punctuation_def ascii_lower_def)
  next
    case 2
    with assms(1) show ?thesis by (simp add: clean_words_def)
  qed
qed

lemma words_of_join:
  assumes "clean_words ts"
  shows "words_of U (str_join (lit '' '') ts) = ts"
proof -
  let ?s = "str_join (lit '' '') ts"
  have "map ascii_lower ?s = ?s"
    using clean_words_join_chars [OF assms] by (auto intro: map_idI)
  moreover have "strip_punctuation U ?s = ?s"
    using clean_words_join_chars [OF assms]
    by (auto simp: strip_punctuation_def category_P_def intro!: filter_True)
  moreover have "str_split U ?s = ts"
    using assms by (intro str_split_join) (auto simp: clean_words_def char_isspace_def)
  ultimately show ?thesis by (simp add: words_of_def)
qed

lemma is_ascii_join: "clean_words ts \<Longrightarrow> is_ascii (str_join (lit '' '') ts)"
  using clean_words_join_chars by (auto simp: is_ascii_def)

definition canonical_street :: "pystr \<Rightarrow> bool" where
  "canonical_street v \<longleftrightarrow> v \<noteq> [] \<and> (\<exists>ts. clean_words ts \<and> v = str_join (lit '' '') ts)"

interpretation street_form: canonicaliser U "normalise_street U" is_ascii canonical_street for U
proof unfold_locales
  fix s v assume "is_ascii s" and n: "normalise_street U (Some s) = Inr v"
  then have "v = str_join (lit '' '') (words_of U s)" "clean_words (words_of U s)"
    by (auto simp: normalise_street_ascii clean_words_of Let_def split: if_splits)
  moreover have "v \<noteq> []" using n by (rule street.norm_nonempty)
  ultimately show "canonical_street v" by (auto simp: canonical_street_def)
next
  fix v assume "canonical_street v"
  then obtain ts where ts: "clean_words ts" "v = str_join (lit '' '') ts" "v \<noteq> []"
    by (auto simp: canonical_street_def)
  then show "normalise_street U (Some v) = Inr v"
    by (auto simp: normalise_street_ascii is_ascii_join words_of_join Let_def)
qed

section \<open>Postal code and country\<close>

definition canonical_postal_code :: "ucd \<Rightarrow> pystr \<Rightarrow> bool" where
  "canonical_postal_code U v \<longleftrightarrow> v \<noteq> [] \<and> str_strip U v = v"

interpretation postal_form:
  canonicaliser U "normalise_postal_code U" "\<lambda>_. True" "canonical_postal_code U" for U
  by unfold_locales
    (auto simp: canonical_postal_code_def normalise_postal_code_def Let_def split: if_splits)

definition canonical_country :: "pystr \<Rightarrow> bool" where
  "canonical_country v \<longleftrightarrow> length v = 2 \<and> (\<forall>c \<in> set v. 65 \<le> c \<and> c \<le> 90)"

lemma ascii_upper_alpha: "ascii_isalpha (ascii_upper c) \<Longrightarrow> 65 \<le> ascii_upper c \<and> ascii_upper c \<le> 90"
  by (auto simp: ascii_isalpha_def ascii_upper_def split: if_splits)

lemma canonical_country_fixed: "canonical_country v \<Longrightarrow> normalise_country U (Some v) = Inr v"
proof -
  assume v: "canonical_country v"
  then have "\<forall>c \<in> set v. 65 \<le> c \<and> c \<le> 90" by (simp add: canonical_country_def)
  then have a: "is_ascii v" and "map ascii_upper v = v" and ns: "\<And>c. c \<in> set v \<Longrightarrow> \<not> char_isspace U c"
    and al: "\<forall>c \<in> set v. char_isalpha U c"
    by (fastforce simp: is_ascii_def ascii_upper_def char_isspace_def ascii_isspace_def
        char_isalpha_def ascii_isalpha_def intro: map_idI)+
  then have "str_upper U (str_strip U v) = v" by (simp add: str_upper_def str_strip_id)
  with v al show ?thesis
    by (auto simp: normalise_country_def Let_def canonical_country_def str_isalpha_def)
qed

interpretation country_form: canonicaliser U "normalise_country U" is_ascii canonical_country for U
proof unfold_locales
  fix s v assume a: "is_ascii s" and n: "normalise_country U (Some s) = Inr v"
  let ?t = "str_strip U s"
  have "is_ascii ?t" using a by (rule is_ascii_strip)
  then have up: "str_upper U ?t = map ascii_upper ?t" by (simp add: str_upper_def)
  from n have "v = str_upper U ?t" "length v = 2" "\<forall>c \<in> set v. char_isalpha U c"
    by (auto simp: normalise_country_def Let_def str_isalpha_def split: if_splits)
  with up have v: "v = map ascii_upper ?t" "length v = 2" "\<forall>c \<in> set v. char_isalpha U c"
    by simp_all
  have "ascii_upper c < 128" if "c < 128" for c using that by (auto simp: ascii_upper_def)
  with v \<open>is_ascii ?t\<close> have "\<forall>c \<in> set ?t. ascii_isalpha (ascii_upper c)"
    by (auto simp: char_isalpha_def is_ascii_def)
  with v show "canonical_country v" using ascii_upper_alpha by (auto simp: canonical_country_def)
qed (rule canonical_country_fixed)

section \<open>The assembled identifier set\<close>

lemma map_of_outcome_entry:
  "map_of (outcome_entry f raw v) (lit g) = (if f = g \<and> raw \<noteq> None then Some v else None)"
  by (simp add: outcome_entry_def)

lemma get_outcome_absent:
  "get_outcome [] f = Inl MISSING"
  by (simp add: get_outcome_def)

lemma get_outcome_append:
  "get_outcome (outcome_entry g raw v @ rest) f =
     (if f = g \<and> raw \<noteq> None then v else get_outcome rest f)"
  by (auto simp: get_outcome_def map_of_outcome_entry map_add_def)

lemma get_outcome_entry:
  "get_outcome (outcome_entry g raw v) f = (if f = g \<and> raw \<noteq> None then v else Inl MISSING)"
  by (auto simp: get_outcome_def map_of_outcome_entry)

lemmas absent_fields =
  email.norm_absent name.norm_absent street.norm_absent city.norm_absent region.norm_absent
  postal_code.norm_absent country.norm_absent phone.norm_absent

text \<open>The country that phone parsing falls back on: none where the country was rejected.\<close>

definition phone_region :: "ucd \<Rightarrow> RawIdentifiers \<Rightarrow> pystr option" where
  "phone_region U raw = (case normalise_country U (raw_country raw) of Inl _ \<Rightarrow> None | Inr c \<Rightarrow> Some c)"

text \<open>The result of one field, written without the dict.\<close>

lemma get_field_outcomes:
  "get_outcome (field_outcomes U P raw) ''email'' = normalise_email U (raw_email raw)"
  "get_outcome (field_outcomes U P raw) ''phone'' = normalise_phone U P (raw_phone raw) (phone_region U raw)"
  "get_outcome (field_outcomes U P raw) ''given_name'' = normalise_name U (raw_given_name raw)"
  "get_outcome (field_outcomes U P raw) ''family_name'' = normalise_name U (raw_family_name raw)"
  "get_outcome (field_outcomes U P raw) ''street_address'' = normalise_street U (raw_street_address raw)"
  "get_outcome (field_outcomes U P raw) ''city'' = normalise_city U (raw_city raw)"
  "get_outcome (field_outcomes U P raw) ''region'' = normalise_region U (raw_region raw)"
  "get_outcome (field_outcomes U P raw) ''postal_code'' = normalise_postal_code U (raw_postal_code raw)"
  "get_outcome (field_outcomes U P raw) ''country'' = normalise_country U (raw_country raw)"
  by (simp_all add: field_outcomes_def phone_region_def Let_def get_outcome_append get_outcome_entry
      absent_fields)

lemma build_identifiers:
  "identifiers (build_user_identifiers U P raw) =
     \<lparr>hashed_email = hash_or_none (normalise_email U (raw_email raw)),
      hashed_phone = hash_or_none (normalise_phone U P (raw_phone raw) (phone_region U raw)),
      hashed_given_name = hash_or_none (normalise_name U (raw_given_name raw)),
      hashed_family_name = hash_or_none (normalise_name U (raw_family_name raw)),
      hashed_street_address = hash_or_none (normalise_street U (raw_street_address raw)),
      id_city = plain_or_none (normalise_city U (raw_city raw)),
      id_region = plain_or_none (normalise_region U (raw_region raw)),
      id_postal_code = plain_or_none (normalise_postal_code U (raw_postal_code raw)),
      id_country = plain_or_none (normalise_country U (raw_country raw))\<rparr>"
  by (simp add: build_user_identifiers_def Let_def get_field_outcomes)

lemma outcome_rejections_append [simp]:
  "outcome_rejections (a @ b) = outcome_rejections a @ outcome_rejections b"
  by (simp add: outcome_rejections_def)

lemma build_rejections:
  "rejections (build_user_identifiers U P raw) =
     outcome_rejections (field_outcomes U P raw) @
     (if has_match_key (identifiers (build_user_identifiers U P raw)) then []
      else [\<lparr>rej_field = lit ''identifiers'', rej_reason = NO_MATCH_KEY\<rparr>])"
  by (simp add: build_user_identifiers_def Let_def)

text \<open>The fields of a record with the normaliser that each goes through.\<close>

definition field_results :: "ucd \<Rightarrow> 'n phonelib \<Rightarrow> RawIdentifiers \<Rightarrow> (string \<times> outcome) list" where
  "field_results U P raw =
     [(''country'', normalise_country U (raw_country raw)),
      (''email'', normalise_email U (raw_email raw)),
      (''phone'', normalise_phone U P (raw_phone raw) (phone_region U raw)),
      (''given_name'', normalise_name U (raw_given_name raw)),
      (''family_name'', normalise_name U (raw_family_name raw)),
      (''street_address'', normalise_street U (raw_street_address raw)),
      (''city'', normalise_city U (raw_city raw)),
      (''region'', normalise_region U (raw_region raw)),
      (''postal_code'', normalise_postal_code U (raw_postal_code raw))]"

lemma pick_field:
  "(\<exists>f. a = lit f \<and> (f = c \<and> P \<or> R f)) \<longleftrightarrow> a = lit c \<and> P \<or> (\<exists>f. a = lit f \<and> R f)"
  "(\<exists>f. a = lit f \<and> f = c \<and> P) \<longleftrightarrow> a = lit c \<and> P"
  by blast+

lemma outcome_rejections_field_outcomes:
  "x \<in> set (outcome_rejections (field_outcomes U P raw)) \<longleftrightarrow>
     rej_reason x \<noteq> MISSING \<and>
     (\<exists>f. rej_field x = lit f \<and> (f, Inl (rej_reason x)) \<in> set (field_results U P raw))"
  unfolding field_outcomes_def field_results_def Let_def phone_region_def [symmetric]
  by (simp only: outcome_rejections_append set_append Un_iff email.entry_rejections
      name.entry_rejections street.entry_rejections city.entry_rejections region.entry_rejections
      postal_code.entry_rejections country.entry_rejections phone.entry_rejections
      list.set insert_iff empty_iff prod.inject pick_field simp_thms
      eq_commute [of "Inl (rej_reason x)"])
    (cases "rej_reason x = MISSING"; simp only: simp_thms)

lemma field_results_field_level: "(f, Inl NO_MATCH_KEY) \<notin> set (field_results U P raw)"
  by (simp add: field_results_def eq_commute [of "Inl _"] email.norm_field_level
      name.norm_field_level street.norm_field_level city.norm_field_level region.norm_field_level
      postal_code.norm_field_level country.norm_field_level phone.norm_field_level)

lemma hash_or_none_hex64: "hash_or_none v = Some d \<Longrightarrow> is_hex64 d"
  by (auto simp: hash_or_none_def sha256_hex_def split: sum.splits)

lemma hash_or_none_truthy: "truthy (hash_or_none v) \<longleftrightarrow> hash_or_none v \<noteq> None"
  using hash_or_none_hex64 [of v] is_hex64_not_Nil by (cases "hash_or_none v") auto

text \<open>What holds of every identifier set the normaliser builds: digests are digests, and a
  field that is there is not an empty string.\<close>

definition hashed_ok :: "HashedIdentifiers \<Rightarrow> bool" where
  "hashed_ok h \<longleftrightarrow>
     (\<forall>d \<in> {hashed_email h, hashed_phone h, hashed_given_name h, hashed_family_name h,
             hashed_street_address h}. \<forall>s. d = Some s \<longrightarrow> is_hex64 s) \<and>
     (\<forall>d \<in> {id_city h, id_region h, id_postal_code h, id_country h}. d \<noteq> Some [])"

lemma build_hashed_ok: "hashed_ok (identifiers (build_user_identifiers U P raw))"
  unfolding build_identifiers hashed_ok_def
  using hash_or_none_hex64
  by (simp add: city.plain_nonempty region.plain_nonempty postal_code.plain_nonempty
      country.plain_nonempty)

lemma hashed_ok_truthy:
  assumes "hashed_ok h"
  shows "truthy (hashed_email h) \<longleftrightarrow> hashed_email h \<noteq> None"
    and "truthy (hashed_phone h) \<longleftrightarrow> hashed_phone h \<noteq> None"
    and "truthy (hashed_given_name h) \<longleftrightarrow> hashed_given_name h \<noteq> None"
    and "truthy (hashed_family_name h) \<longleftrightarrow> hashed_family_name h \<noteq> None"
    and "truthy (hashed_street_address h) \<longleftrightarrow> hashed_street_address h \<noteq> None"
    and "truthy (id_city h) \<longleftrightarrow> id_city h \<noteq> None"
    and "truthy (id_region h) \<longleftrightarrow> id_region h \<noteq> None"
    and "truthy (id_postal_code h) \<longleftrightarrow> id_postal_code h \<noteq> None"
    and "truthy (id_country h) \<longleftrightarrow> id_country h \<noteq> None"
  using assms by (auto simp: hashed_ok_def truthy_def is_hex64_def split: option.splits)

lemma build_no_identifiers:
  "rejections (build_user_identifiers U P no_identifiers) =
     [\<lparr>rej_field = lit ''identifiers'', rej_reason = NO_MATCH_KEY\<rparr>]"
  by (simp add: build_rejections build_identifiers no_identifiers_def absent_fields
      field_outcomes_def outcome_entry_def outcome_rejections_def hash_or_none_def
      plain_or_none_def has_match_key_def)

end
