(* ===== verification/Canonical.thy ===== *)
theory Canonical
  imports Complex_Main Lifecycle Consent Normalise
begin

text \<open>
  \<open>gateway/models/canonical.py\<close>: the one event shape every CRM payload is mapped into; the
  exceptions of the program; time. An instant (\<open>received_at\<close>, \<open>now\<close>, ...) and a duration are
  integers, in microseconds, Python's resolution. A \<open>datetime\<close> that is only stored and printed
  (\<open>conversion_time\<close>) is its wall-clock fields and its offset from UTC in minutes, \<open>None\<close>
  for a naive one.
\<close>

type_synonym time = int
type_synonym duration = int

definition second :: duration where
  "second = 1000000"

record datetime =
  dt_year :: nat
  dt_month :: nat
  dt_day :: nat
  dt_hour :: nat
  dt_minute :: nat
  dt_second :: nat
  dt_microsecond :: nat
  dt_utcoffset :: "int option"

text \<open>The errors of the Google API client that the code tells apart.\<close>

datatype api_error = DeadlineExceeded | AlreadyExists | OtherApiError pystr

text \<open>
  Exceptions. \<open>DataError\<close> is the database's refusal of a value that does not fit its column,
  \<open>PublishError\<close> whatever a queue transport raises from \<open>publish\<close>.
\<close>

datatype exn =
    IllegalTransition pystr EventStatus EventStatus
  | DataError
  | PublishError
  | ValueError
  | KeyError
  | TypeError
  | AttributeError
  | AssertionError
  | UnicodeEncodeError
  | OverflowError
  | TransientUploadError pystr
  | PermanentUploadError pystr
  | PoisonUploadError pystr nat
  | GoogleAPICallError api_error

record CanonicalLeadEvent =
  ce_event_id :: pystr
  ce_source :: Source
  ce_source_event_id :: pystr
  ce_correlation_id :: "pystr option"
  ce_conversion_action :: pystr
  ce_conversion_time :: datetime
  ce_conversion_value :: "rat option"
  ce_currency :: "pystr option"
  ce_click_id :: "pystr option"
  ce_identifiers :: RawIdentifiers
  ce_consent :: ConsentSignals

definition must_be_timezone_aware :: "datetime \<Rightarrow> exn + datetime" where
  "must_be_timezone_aware value = (if dt_utcoffset value = None then Inl ValueError else Inr value)"

definition match_key_type :: "CanonicalLeadEvent \<Rightarrow> MatchKeyType" where
  "match_key_type e = (if truthy (ce_click_id e) then CLICK_ID else USER_IDENTIFIERS)"

end
