(* ===== verification/Ledger.thy ===== *)
theory Ledger
  imports Canonical "HOL-Library.Sublist"
begin

text \<open>
  \<open>gateway/models/ledger.py\<close> and \<open>gateway/ledger.py\<close>: the event ledger. A session is the
  state of the three tables; an ORM object is denoted by its primary key and read through the
  session, so every holder of an \<open>Event\<close> sees what another one wrote to it (SQLAlchemy's
  identity map). Tables are lists in order of insertion, which is the order of the
  autoincremented ids. SQLAlchemy writes pending rows at the next flush, so the database refuses
  a value that does not fit its column (\<open>DataError\<close>) there: in \<open>flush\<close>, which the queries run
  first, and at the commit of the transaction (theory World).
\<close>

section \<open>Tables\<close>

record event =
  ev_event_id :: pystr
  ev_source :: pystr
  ev_source_event_id :: pystr
  ev_received_at :: time
  ev_correlation_id :: "pystr option"
  ev_conversion_action :: "pystr option"
  ev_conversion_time :: "datetime option"
  ev_conversion_value :: "rat option"
  ev_currency :: "pystr option"
  ev_match_key_type :: "pystr option"
  ev_click_id :: "pystr option"
  ev_hashed_identifiers :: "HashedIdentifiers option"
  ev_consent_ad_user_data :: "pystr option"
  ev_consent_ad_personalization :: "pystr option"
  ev_status :: EventStatus
  ev_status_reason :: "pystr option"
  ev_attempt_count :: nat
  ev_last_attempt_at :: "time option"

record event_transition =
  tr_event_id :: pystr
  tr_from_status :: "EventStatus option"
  tr_to_status :: EventStatus
  tr_reason :: "pystr option"
  tr_occurred_at :: time

text \<open>The entries of \<open>attempt_history\<close>: \<open>{"at": ..., "status": ..., "reason": ...}\<close>.\<close>

record history_entry =
  he_at :: time
  he_status :: EventStatus
  he_reason :: "pystr option"

text \<open>The JSON that the payload column holds.\<close>

datatype json =
    JNull
  | JBool bool
  | JInt int
  | JNum rat
  | JStr pystr
  | JArr "json list"
  | JObj "(pystr \<times> json) list"

record dead_letter =
  dl_id :: nat
  dl_event_id :: pystr
  dl_source :: pystr
  dl_conversion_action :: "pystr option"
  dl_dead_lettered_at :: time
  dl_failure_class :: pystr
  dl_reason :: pystr
  dl_platform_error_code :: "pystr option"
  dl_platform_error_message :: "pystr option"
  dl_payload :: json
  dl_attempt_history :: "history_entry list"
  dl_replayed_at :: "time option"
  dl_replay_count :: nat

record store =
  events :: "event list"
  transitions :: "event_transition list"
  dead_letters :: "dead_letter list"

definition empty_store :: store where
  "empty_store = \<lparr>events = [], transitions = [], dead_letters = []\<rparr>"

type_synonym 'a session = "(store, exn, 'a) se"

section \<open>Rows\<close>

text \<open>\<open>NUMERIC(18, 6)\<close>: rounded to six places (half away from zero), twelve digits before them.\<close>

definition numeric_18_6 :: "rat \<Rightarrow> rat" where
  "numeric_18_6 v =
     (let x = v * 1000000
      in of_int (if x \<ge> 0 then \<lfloor>x + 1 / 2\<rfloor> else \<lceil>x - 1 / 2\<rceil>) / 1000000)"

definition event_fits :: "event \<Rightarrow> bool" where
  "event_fits e \<longleftrightarrow>
     length (ev_event_id e) \<le> 255 \<and> length (ev_source e) \<le> 32 \<and>
     length (ev_source_event_id e) \<le> 255 \<and> fits 32 (ev_correlation_id e) \<and>
     fits 255 (ev_conversion_action e) \<and>
     (case ev_conversion_value e of None \<Rightarrow> True | Some v \<Rightarrow> \<bar>numeric_18_6 v\<bar> < 1000000000000) \<and>
     fits 3 (ev_currency e) \<and> fits 32 (ev_match_key_type e) \<and> fits 255 (ev_click_id e) \<and>
     fits 16 (ev_consent_ad_user_data e) \<and> fits 16 (ev_consent_ad_personalization e) \<and>
     fits 512 (ev_status_reason e)"

definition transition_fits :: "event_transition \<Rightarrow> bool" where
  "transition_fits t \<longleftrightarrow> length (tr_event_id t) \<le> 255 \<and> fits 512 (tr_reason t)"

definition dead_letter_fits :: "dead_letter \<Rightarrow> bool" where
  "dead_letter_fits d \<longleftrightarrow>
     length (dl_event_id d) \<le> 255 \<and> length (dl_source d) \<le> 32 \<and> fits 255 (dl_conversion_action d) \<and>
     length (dl_failure_class d) \<le> 16 \<and> length (dl_reason d) \<le> 512 \<and>
     fits 128 (dl_platform_error_code d) \<and> fits 1024 (dl_platform_error_message d)"

definition store_fits :: "store \<Rightarrow> bool" where
  "store_fits db \<longleftrightarrow>
     list_all event_fits (events db) \<and> list_all transition_fits (transitions db) \<and>
     list_all dead_letter_fits (dead_letters db)"

definition flush :: "unit session" where
  "flush = se_bind (se_gets store_fits) (\<lambda>ok. se_require ok DataError)"

definition find_event :: "store \<Rightarrow> pystr \<Rightarrow> event option" where
  "find_event db eid = find (\<lambda>e. ev_event_id e = eid) (events db)"

definition update_event :: "pystr \<Rightarrow> (event \<Rightarrow> event) \<Rightarrow> store \<Rightarrow> store" where
  "update_event eid f db =
     db\<lparr>events := map (\<lambda>e. if ev_event_id e = eid then f e else e) (events db)\<rparr>"

definition add_transition ::
  "pystr \<Rightarrow> EventStatus option \<Rightarrow> EventStatus \<Rightarrow> pystr option \<Rightarrow> time \<Rightarrow> unit session" where
  "add_transition eid from to reason now =
     se_modify (\<lambda>db. db\<lparr>transitions := transitions db @
       [\<lparr>tr_event_id = eid, tr_from_status = from, tr_to_status = to, tr_reason = reason,
         tr_occurred_at = now\<rparr>]\<rparr>)"

section \<open>Operations of ledger.py\<close>

definition get_event :: "pystr \<Rightarrow> event option session" where
  "get_event eid = se_gets (\<lambda>db. find_event db eid)"

text \<open>The object of a primary key that the caller holds (\<open>assert row is not None\<close>).\<close>

definition the_event :: "pystr \<Rightarrow> event session" where
  "the_event eid =
     se_bind (get_event eid) (\<lambda>r. case r of None \<Rightarrow> se_raise AssertionError | Some e \<Rightarrow> se_return e)"

definition set_event :: "pystr \<Rightarrow> (event \<Rightarrow> event) \<Rightarrow> unit session" where
  "set_event eid f = se_modify (update_event eid f)"

definition transition :: "pystr \<Rightarrow> EventStatus \<Rightarrow> pystr option \<Rightarrow> time \<Rightarrow> unit session" where
  "transition eid to_status reason now =
     se_bind (the_event eid) (\<lambda>event.
       let from_status = ev_status event in
       if to_status \<notin> ALLOWED_TRANSITIONS from_status
       then se_raise (IllegalTransition eid from_status to_status)
       else
         se_bind (set_event eid (\<lambda>e. e\<lparr>ev_status := to_status, ev_status_reason := reason\<rparr>)) (\<lambda>_.
         add_transition eid (Some from_status) to_status reason now))"

text \<open>
  \<open>INSERT ... ON CONFLICT (event_id) DO NOTHING RETURNING event_id\<close>: the values are checked
  against the columns before the constraint arbitrates.
\<close>

definition insert_if_absent :: "event \<Rightarrow> bool session" where
  "insert_if_absent row =
     se_bind (se_require (event_fits row) DataError) (\<lambda>_.
     se_bind (get_event (ev_event_id row)) (\<lambda>existing.
       if existing \<noteq> None then se_return False
       else
         se_bind (se_modify (\<lambda>db. db\<lparr>events := events db @
           [row\<lparr>ev_conversion_value := map_option numeric_18_6 (ev_conversion_value row)\<rparr>]\<rparr>)) (\<lambda>_.
         se_return True)))"

definition consent_column :: "ConsentStatus option \<Rightarrow> pystr option" where
  "consent_column status = map_option consent_value status"

text \<open>The row that \<open>record_validated\<close> inserts; it does not mention the identifiers.\<close>

definition validated_row :: "CanonicalLeadEvent \<Rightarrow> time \<Rightarrow> event" where
  "validated_row event now =
     \<lparr>ev_event_id = ce_event_id event,
      ev_source = source_value (ce_source event),
      ev_source_event_id = ce_source_event_id event,
      ev_received_at = now,
      ev_correlation_id = ce_correlation_id event,
      ev_conversion_action = Some (ce_conversion_action event),
      ev_conversion_time = Some (ce_conversion_time event),
      ev_conversion_value = ce_conversion_value event,
      ev_currency = ce_currency event,
      ev_match_key_type = Some (match_key_value (match_key_type event)),
      ev_click_id = ce_click_id event,
      ev_hashed_identifiers = None,
      ev_consent_ad_user_data = consent_column (ad_user_data (ce_consent event)),
      ev_consent_ad_personalization = consent_column (ad_personalization (ce_consent event)),
      ev_status = RECEIVED,
      ev_status_reason = None,
      ev_attempt_count = 0,
      ev_last_attempt_at = None\<rparr>"

definition record_validated :: "CanonicalLeadEvent \<Rightarrow> time \<Rightarrow> event option session" where
  "record_validated event now =
     se_bind (insert_if_absent (validated_row event now)) (\<lambda>inserted.
       if \<not> inserted then se_return None
       else
         se_bind (add_transition (ce_event_id event) None RECEIVED None now) (\<lambda>_.
         se_bind (transition (ce_event_id event) VALIDATED None now) (\<lambda>_.
         se_bind (transition (ce_event_id event) QUEUED None now) (\<lambda>_.
         se_bind (the_event (ce_event_id event)) (\<lambda>row. se_return (Some row))))))"

definition rejected_row :: "pystr \<Rightarrow> pystr \<Rightarrow> pystr \<Rightarrow> time \<Rightarrow> event" where
  "rejected_row event_id source source_event_id now =
     \<lparr>ev_event_id = event_id,
      ev_source = source,
      ev_source_event_id = source_event_id,
      ev_received_at = now,
      ev_correlation_id = None,
      ev_conversion_action = None,
      ev_conversion_time = None,
      ev_conversion_value = None,
      ev_currency = None,
      ev_match_key_type = None,
      ev_click_id = None,
      ev_hashed_identifiers = None,
      ev_consent_ad_user_data = None,
      ev_consent_ad_personalization = None,
      ev_status = RECEIVED,
      ev_status_reason = None,
      ev_attempt_count = 0,
      ev_last_attempt_at = None\<rparr>"

definition record_rejected :: "pystr \<Rightarrow> pystr \<Rightarrow> pystr \<Rightarrow> pystr \<Rightarrow> time \<Rightarrow> event option session" where
  "record_rejected event_id source source_event_id reason now =
     se_bind (insert_if_absent (rejected_row event_id source source_event_id now)) (\<lambda>inserted.
       if \<not> inserted then se_return None
       else
         se_bind (add_transition event_id None RECEIVED None now) (\<lambda>_.
         se_bind (transition event_id REJECTED (Some reason) now) (\<lambda>_.
         se_bind (the_event event_id) (\<lambda>row. se_return (Some row)))))"

definition record_processed :: "pystr \<Rightarrow> HashedIdentifiers \<Rightarrow> time \<Rightarrow> unit session" where
  "record_processed eid hashed now =
     se_bind (set_event eid (\<lambda>e. e\<lparr>ev_hashed_identifiers := Some hashed\<rparr>)) (\<lambda>_.
     transition eid PROCESSED None now)"

text \<open>
  Queries. \<open>ORDER BY received_at\<close> leaves the order of equal keys open; the model takes the
  order of insertion.
\<close>

definition find_stuck_queued :: "time \<Rightarrow> event list session" where
  "find_stuck_queued older_than =
     se_gets (\<lambda>db. sort_key ev_received_at
       (filter (\<lambda>e. ev_status e = QUEUED \<and> ev_received_at e < older_than) (events db)))"

definition due :: "time \<Rightarrow> event \<Rightarrow> bool" where
  "due t e \<longleftrightarrow> (case ev_last_attempt_at e of None \<Rightarrow> False | Some a \<Rightarrow> a \<le> t)"

definition claimable :: "time \<Rightarrow> duration \<Rightarrow> duration \<Rightarrow> event \<Rightarrow> bool" where
  "claimable now retry_after stale_after e \<longleftrightarrow>
     ev_status e = PROCESSED \<or>
     ev_status e = FAILED_RETRYABLE \<and> due (now - retry_after) e \<or>
     ev_status e = UPLOADING \<and> due (now - stale_after) e"

text \<open>
  \<open>SELECT ... ORDER BY received_at LIMIT n FOR UPDATE SKIP LOCKED\<close>, where \<open>locked\<close> holds
  the keys of the rows that other transactions have locked.
\<close>

definition select_for_upload ::
  "store \<Rightarrow> pystr set \<Rightarrow> time \<Rightarrow> nat \<Rightarrow> duration \<Rightarrow> duration \<Rightarrow> event list" where
  "select_for_upload db locked now limit retry_after stale_after =
     take limit (sort_key ev_received_at
       (filter (\<lambda>e. claimable now retry_after stale_after e \<and> ev_event_id e \<notin> locked) (events db)))"

definition claim_row :: "time \<Rightarrow> event \<Rightarrow> unit session" where
  "claim_row now event =
     se_bind
       (if ev_status event \<noteq> UPLOADING
        then transition (ev_event_id event) UPLOADING None now
        else add_transition (ev_event_id event) (Some (ev_status event)) (ev_status event)
               (Some (lit ''reclaimed_stale'')) now)
       (\<lambda>_. set_event (ev_event_id event)
          (\<lambda>e. e\<lparr>ev_attempt_count := ev_attempt_count e + 1, ev_last_attempt_at := Some now\<rparr>))"

definition claim_for_upload ::
  "pystr set \<Rightarrow> time \<Rightarrow> nat \<Rightarrow> duration \<Rightarrow> duration \<Rightarrow> pystr list session" where
  "claim_for_upload locked now limit retry_after stale_after =
     se_bind (se_gets (\<lambda>db. select_for_upload db locked now limit retry_after stale_after)) (\<lambda>claimed.
     se_bind (se_foreach claimed (claim_row now)) (\<lambda>_.
     se_return (map ev_event_id claimed)))"

definition record_retry_attempt :: "pystr \<Rightarrow> pystr \<Rightarrow> time \<Rightarrow> unit session" where
  "record_retry_attempt eid reason now =
     se_bind (transition eid FAILED_RETRYABLE (Some reason) now) (\<lambda>_.
     se_bind (transition eid UPLOADING None now) (\<lambda>_.
     set_event eid
       (\<lambda>e. e\<lparr>ev_attempt_count := ev_attempt_count e + 1, ev_last_attempt_at := Some now\<rparr>)))"

definition list_transitions :: "store \<Rightarrow> pystr \<Rightarrow> event_transition list" where
  "list_transitions db eid = filter (\<lambda>t. tr_event_id t = eid) (transitions db)"

section \<open>Reading and writing rows\<close>

lemma find_event_simps [simp]:
  "find_event (db\<lparr>transitions := ts\<rparr>) x = find_event db x"
  "find_event (db\<lparr>dead_letters := ds\<rparr>) x = find_event db x"
  "find_event (db\<lparr>transitions := ts, dead_letters := ds\<rparr>) x = find_event db x"
  by (simp_all add: find_event_def)

lemma find_event_id: "find_event db x = Some e \<Longrightarrow> ev_event_id e = x"
  by (auto simp: find_event_def dest: find_SomeD)

lemma find_event_in: "find_event db x = Some e \<Longrightarrow> e \<in> set (events db)"
  by (auto simp: find_event_def dest: find_SomeD)

lemma find_event_None: "find_event db x = None \<longleftrightarrow> x \<notin> ev_event_id ` set (events db)"
  by (auto simp: find_event_def find_None_iff)

lemma find_event_distinct:
  "distinct (map ev_event_id (events db)) \<Longrightarrow> e \<in> set (events db) \<Longrightarrow> find_event db (ev_event_id e) = Some e"
  unfolding find_event_def by (rule find_distinct_key)

lemma find_event_update:
  assumes "\<And>e. ev_event_id (f e) = ev_event_id e"
  shows "find_event (update_event eid f db) x =
    (if x = eid then map_option f (find_event db x) else find_event db x)"
proof -
  have "find (\<lambda>e. ev_event_id e = x) (map (\<lambda>e. if ev_event_id e = eid then f e else e) es) =
    (if x = eid then map_option f (find (\<lambda>e. ev_event_id e = x) es)
     else find (\<lambda>e. ev_event_id e = x) es)" for es
    by (induction es) (auto simp: assms)
  then show ?thesis by (simp add: find_event_def update_event_def)
qed

lemma event_ids_update:
  assumes "\<And>e. ev_event_id (f e) = ev_event_id e"
  shows "map ev_event_id (events (update_event eid f db)) = map ev_event_id (events db)"
  using assms by (auto simp: update_event_def)

lemma update_event_tables [simp]:
  "transitions (update_event eid f db) = transitions db"
  "dead_letters (update_event eid f db) = dead_letters db"
  by (simp_all add: update_event_def)

lemma find_event_append:
  "find_event (db\<lparr>events := events db @ [row]\<rparr>) x =
     (case find_event db x of Some e \<Rightarrow> Some e
      | None \<Rightarrow> if ev_event_id row = x then Some row else None)"
proof -
  have "find P (es @ [row]) = (case find P es of Some e \<Rightarrow> Some e | None \<Rightarrow> if P row then Some row else None)"
    for P es by (induction es) simp_all
  then show ?thesis by (simp add: find_event_def)
qed

lemma the_event_run:
  "the_event eid db = (case find_event db eid of None \<Rightarrow> (Inl AssertionError, db) | Some e \<Rightarrow> (Inr e, db))"
  by (simp add: the_event_def get_event_def se_bind_def split: option.splits)

section \<open>Transitions as state changes\<close>

text \<open>The state after the row \<open>e\<close> has moved to \<open>to\<close>, with its audit line.\<close>

definition moved :: "event \<Rightarrow> EventStatus \<Rightarrow> pystr option \<Rightarrow> time \<Rightarrow> store \<Rightarrow> store" where
  "moved e to reason now db =
     (update_event (ev_event_id e) (\<lambda>e. e\<lparr>ev_status := to, ev_status_reason := reason\<rparr>) db)
       \<lparr>transitions := transitions db @
          [\<lparr>tr_event_id = ev_event_id e, tr_from_status = Some (ev_status e), tr_to_status = to,
            tr_reason = reason, tr_occurred_at = now\<rparr>]\<rparr>"

lemma transition_run:
  "transition eid to reason now db =
     (case find_event db eid of
        None \<Rightarrow> (Inl AssertionError, db)
      | Some e \<Rightarrow>
          if to \<notin> ALLOWED_TRANSITIONS (ev_status e)
          then (Inl (IllegalTransition eid (ev_status e) to), db)
          else (Inr (), moved e to reason now db))"
proof (cases "find_event db eid")
  case None
  then show ?thesis by (simp add: transition_def se_bind_def the_event_run)
next
  case (Some e)
  then have "ev_event_id e = eid" by (rule find_event_id)
  with Some show ?thesis
    by (simp add: transition_def se_bind_def the_event_run Let_def set_event_def
        add_transition_def moved_def)
qed

lemma find_event_moved:
  "find_event (moved e to reason now db) x =
     (if x = ev_event_id e
      then map_option (\<lambda>e. e\<lparr>ev_status := to, ev_status_reason := reason\<rparr>) (find_event db x)
      else find_event db x)"
  by (simp add: moved_def find_event_update)

lemma moved_simps [simp]:
  "dead_letters (moved e to reason now db) = dead_letters db"
  "map ev_event_id (events (moved e to reason now db)) = map ev_event_id (events db)"
  by (simp_all add: moved_def event_ids_update)

text \<open>A row that has just been inserted, with the audit line of its creation.\<close>

definition created :: "event \<Rightarrow> time \<Rightarrow> store \<Rightarrow> store" where
  "created row now db =
     db\<lparr>events := events db @ [row],
        transitions := transitions db @
          [\<lparr>tr_event_id = ev_event_id row, tr_from_status = None, tr_to_status = RECEIVED,
            tr_reason = None, tr_occurred_at = now\<rparr>]\<rparr>"

definition stored_row :: "event \<Rightarrow> event" where
  "stored_row row = row\<lparr>ev_conversion_value := map_option numeric_18_6 (ev_conversion_value row)\<rparr>"

lemma stored_row_simps [simp]:
  "ev_event_id (stored_row row) = ev_event_id row"
  "ev_status (stored_row row) = ev_status row"
  "ev_status_reason (stored_row row) = ev_status_reason row"
  "ev_hashed_identifiers (stored_row row) = ev_hashed_identifiers row"
  "ev_conversion_action (stored_row row) = ev_conversion_action row"
  "ev_conversion_time (stored_row row) = ev_conversion_time row"
  "ev_click_id (stored_row row) = ev_click_id row"
  "ev_match_key_type (stored_row row) = ev_match_key_type row"
  "ev_consent_ad_user_data (stored_row row) = ev_consent_ad_user_data row"
  "ev_consent_ad_personalization (stored_row row) = ev_consent_ad_personalization row"
  by (simp_all add: stored_row_def)

lemma create_run:
  assumes "ev_event_id row = eid"
  shows "se_bind (insert_if_absent row) (\<lambda>inserted.
      if \<not> inserted then se_return None
      else se_bind (add_transition eid None RECEIVED None now) (\<lambda>_. f)) db =
    (if \<not> event_fits row then (Inl DataError, db)
     else if find_event db eid \<noteq> None then (Inr None, db)
     else f (created (stored_row row) now db))"
  using assms
  by (auto simp: insert_if_absent_def get_event_def add_transition_def created_def stored_row_def
      se_bind_def se_require_def)

lemma find_event_created:
  "find_event db (ev_event_id row) = None \<Longrightarrow>
   find_event (created row now db) x = (if x = ev_event_id row then Some row else find_event db x)"
proof -
  assume none: "find_event db (ev_event_id row) = None"
  have "find_event (created row now db) x = find_event (db\<lparr>events := events db @ [row]\<rparr>) x"
    by (simp add: created_def find_event_def)
  with none show ?thesis by (auto simp: find_event_append split: option.splits)
qed

lemma created_simps [simp]:
  "dead_letters (created row now db) = dead_letters db"
  "map ev_event_id (events (created row now db)) = map ev_event_id (events db) @ [ev_event_id row]"
  by (simp_all add: created_def)

section \<open>Dead letters as rows\<close>

definition find_dead_letter :: "store \<Rightarrow> nat \<Rightarrow> dead_letter option" where
  "find_dead_letter db i = find (\<lambda>d. dl_id d = i) (dead_letters db)"

definition update_dead_letter :: "nat \<Rightarrow> (dead_letter \<Rightarrow> dead_letter) \<Rightarrow> store \<Rightarrow> store" where
  "update_dead_letter i f db =
     db\<lparr>dead_letters := map (\<lambda>d. if dl_id d = i then f d else d) (dead_letters db)\<rparr>"

text \<open>The autoincremented key: one more than any in use.\<close>

definition next_dead_letter_id :: "store \<Rightarrow> nat" where
  "next_dead_letter_id db = Suc (fold max (map dl_id (dead_letters db)) 0)"

definition add_dead_letter :: "dead_letter \<Rightarrow> store \<Rightarrow> store" where
  "add_dead_letter d db = db\<lparr>dead_letters := dead_letters db @ [d\<lparr>dl_id := next_dead_letter_id db\<rparr>]\<rparr>"

lemma fold_max_ge: "a \<le> fold max xs a \<and> (\<forall>x \<in> set xs. x \<le> fold max xs (a::nat))"
  by (induction xs arbitrary: a) (auto, metis max.bounded_iff, meson max.bounded_iff)

lemma next_dead_letter_id_fresh: "d \<in> set (dead_letters db) \<Longrightarrow> dl_id d < next_dead_letter_id db"
  using fold_max_ge [of 0 "map dl_id (dead_letters db)"]
  by (auto simp: next_dead_letter_id_def less_Suc_eq_le)

lemma dead_letter_tables [simp]:
  "events (update_dead_letter i g db) = events db"
  "transitions (update_dead_letter i g db) = transitions db"
  "events (add_dead_letter d db) = events db"
  "transitions (add_dead_letter d db) = transitions db"
  "find_event (update_dead_letter i g db) x = find_event db x"
  "find_event (add_dead_letter d db) x = find_event db x"
  by (simp_all add: update_dead_letter_def add_dead_letter_def find_event_def)

section \<open>Functional behaviour\<close>

lemma the_event_moved:
  "ev_event_id e = x \<Longrightarrow> find_event db x = Some e \<Longrightarrow>
   find_event (moved e to reason now db) x = Some (e\<lparr>ev_status := to, ev_status_reason := reason\<rparr>)"
  by (simp add: find_event_moved)

lemma transition_ok:
  "find_event db x = Some e \<Longrightarrow> to \<in> ALLOWED_TRANSITIONS (ev_status e) \<Longrightarrow>
   transition x to reason now db = (Inr (), moved e to reason now db)"
  by (simp add: transition_run)

lemma transition_Inr:
  "transition x to reason now db = (Inr u, db') \<longleftrightarrow>
     (\<exists>e. find_event db x = Some e \<and> to \<in> ALLOWED_TRANSITIONS (ev_status e) \<and>
        db' = moved e to reason now db)"
  by (auto simp: transition_run split: option.splits)

text \<open>The state after a fresh webhook has been recorded: created, validated and queued.\<close>

definition queued_row :: "event \<Rightarrow> event" where
  "queued_row row = (stored_row row)\<lparr>ev_status := QUEUED, ev_status_reason := None\<rparr>"

definition recorded :: "event \<Rightarrow> time \<Rightarrow> store \<Rightarrow> store" where
  "recorded row now db =
     (let r = stored_row row; v = r\<lparr>ev_status := VALIDATED, ev_status_reason := None\<rparr>
      in moved v QUEUED None now (moved r VALIDATED None now (created r now db)))"

lemma find_event_recorded:
  assumes "find_event db (ev_event_id row) = None"
  shows "find_event (recorded row now db) x = (if x = ev_event_id row then Some (queued_row row) else find_event db x)"
  using assms
  by (simp add: recorded_def Let_def find_event_moved find_event_created queued_row_def)

lemma record_validated_run:
  "record_validated event now db =
     (let row = validated_row event now in
      if \<not> event_fits row then (Inl DataError, db)
      else if find_event db (ce_event_id event) \<noteq> None then (Inr None, db)
      else (Inr (Some (queued_row row)), recorded row now db))"
proof -
  let ?row = "validated_row event now" and ?x = "ce_event_id event"
  have id: "ev_event_id ?row = ?x" and st: "ev_status ?row = RECEIVED"
    by (simp_all add: validated_row_def)
  let ?f = "se_bind (transition ?x VALIDATED None now) (\<lambda>_.
         se_bind (transition ?x QUEUED None now) (\<lambda>_.
         se_bind (the_event ?x) (\<lambda>row. se_return (Some row))))"
  have "?f (created (stored_row ?row) now db) = (Inr (Some (queued_row ?row)), recorded ?row now db)"
    if none: "find_event db ?x = None"
  proof -
    have c: "find_event (created (stored_row ?row) now db) ?x = Some (stored_row ?row)"
      using none by (simp add: find_event_created id)
    have m: "find_event (moved (stored_row ?row) VALIDATED None now (created (stored_row ?row) now db)) ?x =
        Some ((stored_row ?row)\<lparr>ev_status := VALIDATED, ev_status_reason := None\<rparr>)"
      using c by (simp add: the_event_moved id)
    have q: "find_event (recorded ?row now db) ?x = Some (queued_row ?row)"
      using none by (simp add: find_event_recorded id)
    show ?thesis
      using q by (simp add: se_bind_def transition_ok [OF c] transition_ok [OF m] st recorded_def
          Let_def the_event_run)
  qed
  then show ?thesis
    unfolding record_validated_def create_run [OF id] by (simp add: Let_def)
qed

definition refused :: "event \<Rightarrow> pystr \<Rightarrow> time \<Rightarrow> store \<Rightarrow> store" where
  "refused row reason now db =
     moved (stored_row row) REJECTED (Some reason) now (created (stored_row row) now db)"

lemma find_event_refused:
  assumes "find_event db (ev_event_id row) = None"
  shows "find_event (refused row reason now db) x =
    (if x = ev_event_id row then Some ((stored_row row)\<lparr>ev_status := REJECTED, ev_status_reason := Some reason\<rparr>)
     else find_event db x)"
  using assms by (simp add: refused_def find_event_moved find_event_created)

lemma record_rejected_run:
  "record_rejected eid source sid reason now db =
     (let row = rejected_row eid source sid now in
      if \<not> event_fits row then (Inl DataError, db)
      else if find_event db eid \<noteq> None then (Inr None, db)
      else (Inr (Some ((stored_row row)\<lparr>ev_status := REJECTED, ev_status_reason := Some reason\<rparr>)),
            refused row reason now db))"
proof -
  let ?row = "rejected_row eid source sid now"
  have id: "ev_event_id ?row = eid" and st: "ev_status ?row = RECEIVED"
    by (simp_all add: rejected_row_def)
  let ?f = "se_bind (transition eid REJECTED (Some reason) now) (\<lambda>_.
         se_bind (the_event eid) (\<lambda>row. se_return (Some row)))"
  have "?f (created (stored_row ?row) now db) =
      (Inr (Some ((stored_row ?row)\<lparr>ev_status := REJECTED, ev_status_reason := Some reason\<rparr>)),
       refused ?row reason now db)"
    if none: "find_event db eid = None"
  proof -
    have c: "find_event (created (stored_row ?row) now db) eid = Some (stored_row ?row)"
      using none by (simp add: find_event_created id)
    show ?thesis
      using find_event_refused [of db ?row reason now eid] none
      by (simp add: se_bind_def transition_ok [OF c] st the_event_run id refused_def)
  qed
  then show ?thesis
    unfolding record_rejected_def create_run [OF id] by (simp add: Let_def)
qed

lemma record_processed_run:
  assumes "find_event db x = Some e" and "ev_status e = QUEUED"
  shows "record_processed x h now db =
    (Inr (), moved e PROCESSED None now (update_event x (\<lambda>e. e\<lparr>ev_hashed_identifiers := Some h\<rparr>) db))"
proof -
  have "find_event (update_event x (\<lambda>e. e\<lparr>ev_hashed_identifiers := Some h\<rparr>) db) x =
      Some (e\<lparr>ev_hashed_identifiers := Some h\<rparr>)"
    using assms(1) by (simp add: find_event_update)
  moreover have "moved (e\<lparr>ev_hashed_identifiers := Some h\<rparr>) PROCESSED None now s = moved e PROCESSED None now s"
    for s by (simp add: moved_def)
  ultimately show ?thesis
    using assms(2) by (simp add: record_processed_def set_event_def transition_ok)
qed

text \<open>
  On a row that exists, transition to an allowed status succeeds, sets that row's status and
  reason, appends one audit line with the old and the new status and leaves every other row alone;
  to any other status it raises IllegalTransition and changes nothing.
\<close>

lemma transition_moves_one_row:
  assumes "find_event db x = Some e"
  shows "to \<in> ALLOWED_TRANSITIONS (ev_status e) \<Longrightarrow> \<exists>db'. transition x to reason now db = (Inr (), db') \<and>
      find_event db' x = Some (e\<lparr>ev_status := to, ev_status_reason := reason\<rparr>) \<and>
      (\<forall>y. y \<noteq> x \<longrightarrow> find_event db' y = find_event db y) \<and>
      transitions db' = transitions db @
        [\<lparr>tr_event_id = x, tr_from_status = Some (ev_status e), tr_to_status = to, tr_reason = reason,
          tr_occurred_at = now\<rparr>]"
    and "to \<notin> ALLOWED_TRANSITIONS (ev_status e) \<Longrightarrow>
      transition x to reason now db = (Inl (IllegalTransition x (ev_status e) to), db)"
  using assms find_event_id [OF assms]
  by (simp_all add: transition_run find_event_moved) (simp add: moved_def)

text \<open>
  Recording a validated event writes the same rows and returns the same result whatever
  identifiers the event carries: no raw personal data of the webhook reaches the ledger, and the
  new row has no digests.
\<close>

lemma stored_row_has_no_identifiers:
  shows "record_validated (event\<lparr>ce_identifiers := raw\<rparr>) now = record_validated event now"
    and "record_validated event now db = (Inr (Some row), db') \<Longrightarrow>
      ev_hashed_identifiers row = None \<and> find_event db' (ce_event_id event) = Some row"
proof -
  have row: "validated_row (event\<lparr>ce_identifiers := raw\<rparr>) now = validated_row event now"
    by (simp add: validated_row_def match_key_type_def)
  show "record_validated (event\<lparr>ce_identifiers := raw\<rparr>) now = record_validated event now"
    by (rule ext) (simp add: record_validated_run row Let_def)
  have id: "ev_event_id (validated_row event now) = ce_event_id event"
    "ev_hashed_identifiers (validated_row event now) = None" by (simp_all add: validated_row_def)
  show "record_validated event now db = (Inr (Some row), db') \<Longrightarrow>
      ev_hashed_identifiers row = None \<and> find_event db' (ce_event_id event) = Some row"
    using id by (auto simp: record_validated_run Let_def find_event_recorded queued_row_def split: if_splits)
qed

section \<open>What the operations keep\<close>

text \<open>
  An invariant of the ledger survives the elementary changes of the operations. The laws are
  what an invariant must provide, one for each kind of change; in return every operation of the
  program keeps it. \<open>accepts e h\<close> is what the invariant needs to know of the digests \<open>h\<close> that
  are stored when the row \<open>e\<close> becomes PROCESSED.
\<close>

locale ledger_changes =
  fixes I :: "store \<Rightarrow> bool" and accepts :: "event \<Rightarrow> HashedIdentifiers \<Rightarrow> bool"
  assumes inv_distinct: "I db \<Longrightarrow> distinct (map ev_event_id (events db))"
    and inv_move: "I db \<Longrightarrow> find_event db (ev_event_id e) = Some e \<Longrightarrow>
      to \<in> ALLOWED_TRANSITIONS (ev_status e) \<Longrightarrow> to \<noteq> PROCESSED \<Longrightarrow> to \<noteq> DEAD_LETTERED \<Longrightarrow>
      ev_status e \<noteq> DEAD_LETTERED \<Longrightarrow> I (moved e to reason now db)"
    and inv_attempt: "I db0 \<Longrightarrow> I db \<Longrightarrow> transitions db = transitions db0 @ [t] \<Longrightarrow> tr_event_id t = eid \<Longrightarrow>
      I (update_event eid (\<lambda>e. e\<lparr>ev_attempt_count := n e, ev_last_attempt_at := a\<rparr>) db)"
    and inv_correlation: "I db \<Longrightarrow> I (update_event eid (\<lambda>e. e\<lparr>ev_correlation_id := c\<rparr>) db)"
    and inv_reclaim: "I db \<Longrightarrow> find_event db eid = Some e \<Longrightarrow> ev_status e = UPLOADING \<Longrightarrow>
      I (db\<lparr>transitions := transitions db @
        [\<lparr>tr_event_id = eid, tr_from_status = Some UPLOADING, tr_to_status = UPLOADING,
          tr_reason = Some (lit ''reclaimed_stale''), tr_occurred_at = now\<rparr>]\<rparr>)"
    and inv_processed: "I db \<Longrightarrow> find_event db (ev_event_id e) = Some e \<Longrightarrow> ev_status e = QUEUED \<Longrightarrow>
      accepts e h \<Longrightarrow>
      I (moved e PROCESSED None now
          (update_event (ev_event_id e) (\<lambda>e. e\<lparr>ev_hashed_identifiers := Some h\<rparr>) db))"
    and inv_dead_letter: "I db \<Longrightarrow> find_event db (ev_event_id e) = Some e \<Longrightarrow>
      DEAD_LETTERED \<in> ALLOWED_TRANSITIONS (ev_status e) \<Longrightarrow> dl_event_id d = ev_event_id e \<Longrightarrow>
      dl_source d = ev_source e \<Longrightarrow> dl_replayed_at d = None \<Longrightarrow>
      I (add_dead_letter d (moved e DEAD_LETTERED reason now db))"
    and inv_replay: "I db \<Longrightarrow> find_event db (ev_event_id e) = Some e \<Longrightarrow> ev_status e = DEAD_LETTERED \<Longrightarrow>
      find_dead_letter db i = Some d \<Longrightarrow> dl_event_id d = ev_event_id e \<Longrightarrow> dl_replayed_at d = None \<Longrightarrow>
      I (update_dead_letter i (\<lambda>d. d\<lparr>dl_replayed_at := Some now, dl_replay_count := dl_replay_count d + 1\<rparr>)
          (moved e QUEUED reason now db))"

locale ledger_invariant = ledger_changes +
  assumes inv_recorded: "I db \<Longrightarrow> find_event db (ce_event_id event) = None \<Longrightarrow>
      I (recorded (validated_row event now) now db)"
    and inv_refused: "I db \<Longrightarrow> find_event db eid = None \<Longrightarrow>
      I (refused (rejected_row eid source sid now) why now db)"
begin

lemma keeps_transition:
  assumes "to \<notin> {PROCESSED, DEAD_LETTERED, QUEUED}"
  shows "keeps I (transition eid to reason now)"
proof (rule keepsI)
  fix db u db' assume I: "I db" and "transition eid to reason now db = (Inr u, db')"
  then obtain e where e: "find_event db eid = Some e" "to \<in> ALLOWED_TRANSITIONS (ev_status e)"
      "db' = moved e to reason now db"
    by (auto simp: transition_Inr)
  then have "ev_status e \<noteq> DEAD_LETTERED" using assms by auto
  with I e assms show "I db'" using find_event_id [OF e(1)] by (auto intro!: inv_move)
qed

text \<open>The columns of the attempt change only together with a line of the log.\<close>

lemma keeps_transition_attempt:
  assumes "to \<notin> {PROCESSED, DEAD_LETTERED, QUEUED}"
  shows "keeps I (se_bind (transition eid to reason now) (\<lambda>_.
    set_event eid (\<lambda>e. e\<lparr>ev_attempt_count := n e, ev_last_attempt_at := a\<rparr>)))"
proof (rule keepsI)
  fix db u db'
  assume I: "I db" and "se_bind (transition eid to reason now) (\<lambda>_.
    set_event eid (\<lambda>e. e\<lparr>ev_attempt_count := n e, ev_last_attempt_at := a\<rparr>)) db = (Inr u, db')"
  then obtain v db1 where tr: "transition eid to reason now db = (Inr v, db1)"
      and db': "db' = update_event eid (\<lambda>e. e\<lparr>ev_attempt_count := n e, ev_last_attempt_at := a\<rparr>) db1"
    by (auto simp: se_bind_eq_Inr set_event_def)
  from tr obtain e where e: "find_event db eid = Some e" "db1 = moved e to reason now db"
    by (auto simp: transition_Inr)
  have "I db1" using keeps_transition [OF assms] I tr by (rule keepsD)
  with I e find_event_id [OF e(1)] show "I db'"
    unfolding db' by (intro inv_attempt [of db db1]) (auto simp: moved_def)
qed

lemma keeps_get_event: "keeps I (get_event eid)"
  by (simp add: get_event_def keeps_intro)

lemma keeps_record_validated: "keeps I (record_validated event now)"
proof (rule keepsI)
  fix db r db' assume I: "I db" and run: "record_validated event now db = (Inr r, db')"
  have "I (recorded (validated_row event now) now db)" if "find_event db (ce_event_id event) = None"
    using I that by (rule inv_recorded)
  with run I show "I db'" by (simp add: record_validated_run Let_def split: if_split_asm)
qed

lemma keeps_record_rejected: "keeps I (record_rejected eid source sid reason now)"
proof (rule keepsI)
  fix db r db' assume I: "I db" and run: "record_rejected eid source sid reason now db = (Inr r, db')"
  have "I (refused (rejected_row eid source sid now) reason now db)" if "find_event db eid = None"
    using I that by (rule inv_refused)
  with run I show "I db'" by (simp add: record_rejected_run Let_def split: if_split_asm)
qed

lemma inv_record_processed:
  assumes "I db" and "find_event db x = Some e" and "ev_status e = QUEUED" and "accepts e h"
    and "record_processed x h now db = (r, db')"
  shows "I db'"
  using assms inv_processed [OF assms(1), of e h now] find_event_id [OF assms(2)]
  by (simp add: record_processed_run)

lemma keeps_set_correlation: "keeps I (set_event eid (\<lambda>e. e\<lparr>ev_correlation_id := c\<rparr>))"
  unfolding set_event_def by (rule keeps_modify) (rule inv_correlation)

lemma keeps_record_retry_attempt: "keeps I (record_retry_attempt eid reason now)"
  unfolding record_retry_attempt_def
  by (intro keeps_bind keeps_transition keeps_transition_attempt) simp_all

lemma keeps_claim_row:
  assumes "I db" and "find_event db (ev_event_id e) = Some e" and "claim_row now e db = (Inr u, db')"
  shows "I db'"
proof (cases "ev_status e = UPLOADING")
  case True
  then show ?thesis
    using assms(3) inv_attempt [OF assms(1) inv_reclaim [OF assms(1,2)]]
    by (auto simp: claim_row_def add_transition_def set_event_def se_bind_def)
next
  case False
  have "keeps I (claim_row now e)"
    unfolding claim_row_def using False by (simp add: keeps_transition_attempt)
  then show ?thesis using assms(1,3) by (rule keepsD)
qed

end

text \<open>
  Most invariants look only at single moves and at the creation of a row: they provide the law
  for a bare RECEIVED row, from which the two laws for creation with a first verdict follow.
\<close>

locale ledger_steps = ledger_changes +
  assumes inv_create: "I db \<Longrightarrow> find_event db (ev_event_id row) = None \<Longrightarrow> ev_status row = RECEIVED \<Longrightarrow>
      ev_status_reason row = None \<Longrightarrow> ev_hashed_identifiers row = None \<Longrightarrow> I (created row now db)"
begin

lemma inv_recorded_row:
  assumes "I db" and "find_event db (ev_event_id row) = None" and "ev_status row = RECEIVED"
    and "ev_status_reason row = None" "ev_hashed_identifiers row = None"
  shows "I (recorded row now db)"
  unfolding recorded_def Let_def using assms
  by (intro inv_move inv_create) (simp_all add: find_event_moved find_event_created)

lemma inv_refused_row:
  assumes "I db" and "find_event db (ev_event_id row) = None" and "ev_status row = RECEIVED"
    and "ev_status_reason row = None" "ev_hashed_identifiers row = None"
  shows "I (refused row reason now db)"
  unfolding refused_def using assms
  by (intro inv_move inv_create) (simp_all add: find_event_created)

lemma inv_recorded_unit: "I db \<Longrightarrow> find_event db (ce_event_id event) = None \<Longrightarrow>
    I (recorded (validated_row event now) now db)"
  by (intro inv_recorded_row) (simp_all add: validated_row_def)

lemma inv_refused_unit: "I db \<Longrightarrow> find_event db eid = None \<Longrightarrow>
    I (refused (rejected_row eid source sid now) why now db)"
  by (intro inv_refused_row) (simp_all add: rejected_row_def)

end

sublocale ledger_steps \<subseteq> ledger_invariant
  by unfold_locales ((rule inv_recorded_unit; assumption) | (rule inv_refused_unit; assumption))+

text \<open>Operations on one row leave the others alone.\<close>

lemma other_transition: "x \<noteq> eid \<Longrightarrow> preserves (\<lambda>db. find_event db x = v) (transition eid to reason now)"
proof (rule preservesI)
  fix db r db'
  assume "x \<noteq> eid" "find_event db x = v" "transition eid to reason now db = (r, db')"
  then show "find_event db' x = v"
    using find_event_id by (auto simp: transition_run find_event_moved split: option.splits if_splits)
qed

lemma other_set_event:
  "x \<noteq> eid \<Longrightarrow> (\<And>e. ev_event_id (f e) = ev_event_id e) \<Longrightarrow>
   preserves (\<lambda>db. find_event db x = v) (set_event eid f)"
  unfolding set_event_def by (rule preserves_modify) (simp add: find_event_update)

lemma other_add_transition: "preserves (\<lambda>db. find_event db x = v) (add_transition eid from to reason now)"
  unfolding add_transition_def by (intro preserves_intro preserves_modify) simp

lemma other_claim_row:
  "x \<noteq> ev_event_id e \<Longrightarrow> preserves (\<lambda>db. find_event db x = v) (claim_row now e)"
  unfolding claim_row_def
  by (intro preserves_intro other_transition other_add_transition other_set_event) simp_all

section \<open>Claiming a batch\<close>

lemma select_for_upload_rows:
  assumes "distinct (map ev_event_id (events db))"
  shows "e \<in> set (select_for_upload db locked now limit ra sa) \<Longrightarrow> find_event db (ev_event_id e) = Some e"
    and "distinct (map ev_event_id (select_for_upload db locked now limit ra sa))"
proof -
  let ?f = "filter (\<lambda>e. claimable now ra sa e \<and> ev_event_id e \<notin> locked) (events db)"
  show "e \<in> set (select_for_upload db locked now limit ra sa) \<Longrightarrow> find_event db (ev_event_id e) = Some e"
    using assms by (auto simp: select_for_upload_def dest!: in_set_takeD intro: find_event_distinct)
  have "distinct (map ev_event_id (sort_key ev_received_at ?f))"
    using distinct_map_filter_key [OF assms] by (simp add: distinct_map)
  then show "distinct (map ev_event_id (select_for_upload db locked now limit ra sa))"
    unfolding select_for_upload_def by (simp add: take_map [symmetric] distinct_take)
qed

lemma select_for_upload_claimable:
  "e \<in> set (select_for_upload db locked now limit ra sa) \<Longrightarrow>
     e \<in> set (events db) \<and> claimable now ra sa e \<and> ev_event_id e \<notin> locked"
  by (auto simp: select_for_upload_def dest!: in_set_takeD)

lemma select_for_upload_eligible:
  assumes "distinct (map ev_event_id (events db))"
  shows "length (select_for_upload db locked now limit ra sa) \<le> limit \<and>
    sorted (map ev_received_at (select_for_upload db locked now limit ra sa)) \<and>
    (\<forall>e \<in> set (select_for_upload db locked now limit ra sa).
       find_event db (ev_event_id e) = Some e \<and> ev_event_id e \<notin> locked \<and> claimable now ra sa e)"
proof -
  have "sorted (map ev_received_at (select_for_upload db locked now limit ra sa))"
    unfolding select_for_upload_def by (simp add: take_map [symmetric] sorted_wrt_take)
  moreover have "length (select_for_upload db locked now limit ra sa) \<le> limit"
    by (simp add: select_for_upload_def)
  ultimately show ?thesis
    using select_for_upload_rows(1) [OF assms] select_for_upload_claimable by fast
qed

lemma select_for_upload_all:
  assumes "find_event db x = Some e" and "x \<notin> locked" and "claimable now ra sa e"
    and "length (select_for_upload db locked now limit ra sa) < limit"
  shows "e \<in> set (select_for_upload db locked now limit ra sa)"
proof -
  have "ev_event_id e = x" using assms(1) by (rule find_event_id)
  with assms show ?thesis using find_event_in [OF assms(1)] by (auto simp: select_for_upload_def)
qed

text \<open>What claiming does to a row.\<close>

definition claimed_row :: "time \<Rightarrow> event \<Rightarrow> event" where
  "claimed_row now e =
     (if ev_status e = UPLOADING then e else e\<lparr>ev_status := UPLOADING, ev_status_reason := None\<rparr>)
       \<lparr>ev_attempt_count := ev_attempt_count e + 1, ev_last_attempt_at := Some now\<rparr>"

lemma claim_row_ok:
  assumes "find_event db (ev_event_id e) = Some e" and "claimable now ra sa e"
  shows "\<exists>db'. claim_row now e db = (Inr (), db') \<and> find_event db' (ev_event_id e) = Some (claimed_row now e)"
proof (cases "ev_status e = UPLOADING")
  case True
  with assms(1) show ?thesis
    by (simp add: claim_row_def add_transition_def set_event_def se_bind_def find_event_update
        claimed_row_def)
next
  case False
  with assms(2) have "UPLOADING \<in> ALLOWED_TRANSITIONS (ev_status e)"
    by (auto simp: claimable_def)
  with assms(1) False show ?thesis
    by (simp add: claim_row_def transition_ok set_event_def se_bind_def find_event_update
        find_event_moved claimed_row_def)
qed

lemma claim_rows:
  assumes "\<forall>e \<in> set es. find_event db (ev_event_id e) = Some e \<and> claimable now ra sa e"
    and "distinct (map ev_event_id es)"
  shows "\<exists>db'. se_foreach es (claim_row now) db = (Inr (), db') \<and>
    (\<forall>x. find_event db' x =
       (if x \<in> ev_event_id ` set es then map_option (claimed_row now) (find_event db x)
        else find_event db x))"
  using assms
proof (induction es arbitrary: db)
  case Nil
  then show ?case by simp
next
  case (Cons e es)
  obtain db1 where run: "claim_row now e db = (Inr (), db1)"
      and e1: "find_event db1 (ev_event_id e) = Some (claimed_row now e)"
    using claim_row_ok Cons.prems(1) by (metis list.set_intros(1))
  have other: "find_event db1 x = find_event db x" if "x \<noteq> ev_event_id e" for x
    using preservesD [OF other_claim_row [OF that] _ run] by blast
  have new: "ev_event_id e \<notin> ev_event_id ` set es" using Cons.prems(2) by simp
  have rest: "\<forall>a \<in> set es. find_event db1 (ev_event_id a) = Some a \<and> claimable now ra sa a"
  proof
    fix a assume a: "a \<in> set es"
    with new have "ev_event_id a \<noteq> ev_event_id e" by (metis imageI)
    with a Cons.prems(1) show "find_event db1 (ev_event_id a) = Some a \<and> claimable now ra sa a"
      by (simp add: other)
  qed
  have dis: "distinct (map ev_event_id es)" using Cons.prems(2) by simp
  obtain db' where run': "se_foreach es (claim_row now) db1 = (Inr (), db')"
    and db': "\<forall>x. find_event db' x =
       (if x \<in> ev_event_id ` set es then map_option (claimed_row now) (find_event db1 x)
        else find_event db1 x)"
    using Cons.IH [OF rest dis] by blast
  have "find_event db' x =
      (if x \<in> ev_event_id ` set (e # es) then map_option (claimed_row now) (find_event db x)
       else find_event db x)" for x
    using db' e1 other [of x] new Cons.prems(1) by (cases "x = ev_event_id e") auto
  with run run' show ?case by (intro exI [of _ db']) simp
qed

lemma claim_for_upload_run:
  assumes "distinct (map ev_event_id (events db))"
  shows "\<exists>db'. claim_for_upload locked now limit ra sa db =
      (Inr (map ev_event_id (select_for_upload db locked now limit ra sa)), db') \<and>
    (\<forall>x. find_event db' x =
       (if x \<in> ev_event_id ` set (select_for_upload db locked now limit ra sa)
        then map_option (claimed_row now) (find_event db x) else find_event db x))"
proof -
  let ?es = "select_for_upload db locked now limit ra sa"
  have "\<forall>e \<in> set ?es. find_event db (ev_event_id e) = Some e \<and> claimable now ra sa e"
    using select_for_upload_rows(1) [OF assms] select_for_upload_claimable by blast
  then obtain db' where "se_foreach ?es (claim_row now) db = (Inr (), db')"
      "\<forall>x. find_event db' x = (if x \<in> ev_event_id ` set ?es
         then map_option (claimed_row now) (find_event db x) else find_event db x)"
    using claim_rows select_for_upload_rows(2) [OF assms] by blast
  then show ?thesis by (intro exI [of _ db']) (simp add: claim_for_upload_def)
qed

context ledger_invariant
begin

lemma keeps_claim_rows:
  assumes "I db" and "\<forall>e \<in> set es. find_event db (ev_event_id e) = Some e"
    and "distinct (map ev_event_id es)" and "se_foreach es (claim_row now) db = (Inr u, db')"
  shows "I db'"
  using assms
proof (induction es arbitrary: db)
  case Nil
  then show ?case by simp
next
  case (Cons e es)
  obtain v db1 where run: "claim_row now e db = (Inr v, db1)"
      and rest: "se_foreach es (claim_row now) db1 = (Inr u, db')"
    using Cons.prems(4) by (auto simp: se_bind_eq_Inr)
  have "I db1" using keeps_claim_row [OF Cons.prems(1) _ run] Cons.prems(2) by simp
  moreover have "\<forall>x \<in> set es. find_event db1 (ev_event_id x) = Some x"
  proof
    fix x assume x: "x \<in> set es"
    moreover have "ev_event_id e \<notin> ev_event_id ` set es" using Cons.prems(3) by simp
    ultimately have "ev_event_id x \<noteq> ev_event_id e" by (metis imageI)
    then show "find_event db1 (ev_event_id x) = Some x"
      using preservesD [OF other_claim_row _ run] Cons.prems(2) x by auto
  qed
  ultimately show ?case using Cons.IH rest Cons.prems(3) by simp
qed

lemma keeps_claim_for_upload: "keeps I (claim_for_upload locked now limit ra sa)"
proof (rule keepsI)
  fix db r db'
  let ?es = "select_for_upload db locked now limit ra sa"
  assume I: "I db" and run: "claim_for_upload locked now limit ra sa db = (Inr r, db')"
  then obtain v where "se_foreach ?es (claim_row now) db = (Inr v, db')"
    by (auto simp: claim_for_upload_def se_bind_eq_Inr)
  then show "I db'"
    using keeps_claim_rows [OF I] select_for_upload_rows inv_distinct [OF I] by blast
qed

lemmas keeps_ledger [keeps_intro] =
  keeps_record_validated keeps_record_rejected keeps_record_retry_attempt
  keeps_set_correlation keeps_claim_for_upload keeps_get_event

end

end
