(* ===== verification/History.thy ===== *)
theory History
  imports Ledger
begin

text \<open>
  What the ledger promises: the audit log of an event explains its current status
  (\<open>ledger_ok\<close>), history is append-only and the facts of a row never change (\<open>evolves\<close>), no
  event gets past the worker without consent and a usable match key (\<open>gated\<close>), and the open
  dead letters are exactly the DEAD_LETTERED events (\<open>letters_ok\<close>). Each is an interpretation of
  \<open>ledger_steps\<close>.
\<close>

section \<open>The audit log explains the status\<close>

datatype log_state = Absent | At EventStatus "pystr option" | Broken

text \<open>Reading one line of \<open>event_transitions\<close>.\<close>

fun log_step :: "log_state \<Rightarrow> event_transition \<Rightarrow> log_state" where
  "log_step Absent t =
     (if tr_from_status t = None \<and> tr_to_status t = RECEIVED \<and> tr_reason t = None
      then At RECEIVED None else Broken)"
| "log_step (At s r) t =
     (if tr_from_status t \<noteq> Some s then Broken
      else if tr_to_status t \<in> ALLOWED_TRANSITIONS s then At (tr_to_status t) (tr_reason t)
      else if s = UPLOADING \<and> tr_to_status t = UPLOADING \<and> tr_reason t = Some (lit ''reclaimed_stale'')
      then At s r else Broken)"
| "log_step Broken t = Broken"

definition read_log :: "event_transition list \<Rightarrow> log_state" where
  "read_log ts = foldl log_step Absent ts"

fun row_state :: "event option \<Rightarrow> log_state" where
  "row_state None = Absent"
| "row_state (Some e) = At (ev_status e) (ev_status_reason e)"

definition distinct_ids :: "store \<Rightarrow> bool" where
  "distinct_ids db \<longleftrightarrow> distinct (map ev_event_id (events db))"

definition ledger_ok :: "store \<Rightarrow> bool" where
  "ledger_ok db \<longleftrightarrow>
     distinct_ids db \<and> (\<forall>x. read_log (list_transitions db x) = row_state (find_event db x))"

lemma read_log_append [simp]: "read_log (ts @ [t]) = log_step (read_log ts) t"
  by (simp add: read_log_def)

lemma list_transitions_append:
  "list_transitions (db\<lparr>transitions := transitions db @ [t]\<rparr>) x =
     list_transitions db x @ (if tr_event_id t = x then [t] else [])"
  by (simp add: list_transitions_def)

lemma list_transitions_same [simp]:
  "list_transitions (update_event eid f db) x = list_transitions db x"
  "list_transitions (add_dead_letter d db) x = list_transitions db x"
  "list_transitions (update_dead_letter i g db) x = list_transitions db x"
  by (simp_all add: list_transitions_def)

lemma list_transitions_moved:
  "list_transitions (moved e to reason now db) x = list_transitions db x @
     (if ev_event_id e = x
      then [\<lparr>tr_event_id = ev_event_id e, tr_from_status = Some (ev_status e), tr_to_status = to,
             tr_reason = reason, tr_occurred_at = now\<rparr>] else [])"
  by (simp add: moved_def list_transitions_def)

lemma list_transitions_created:
  "list_transitions (created row now db) x = list_transitions db x @
     (if ev_event_id row = x
      then [\<lparr>tr_event_id = ev_event_id row, tr_from_status = None, tr_to_status = RECEIVED,
             tr_reason = None, tr_occurred_at = now\<rparr>] else [])"
  by (simp add: created_def list_transitions_def)

lemma distinct_ids_update [simp]:
  "distinct_ids (moved e to reason now db) \<longleftrightarrow> distinct_ids db"
  "distinct_ids (add_dead_letter d db) \<longleftrightarrow> distinct_ids db"
  "distinct_ids (update_dead_letter i g db) \<longleftrightarrow> distinct_ids db"
  "distinct_ids (db\<lparr>transitions := ts\<rparr>) \<longleftrightarrow> distinct_ids db"
  by (simp_all add: distinct_ids_def)

lemma distinct_ids_update_event:
  "(\<And>e. ev_event_id (f e) = ev_event_id e) \<Longrightarrow> distinct_ids (update_event eid f db) \<longleftrightarrow> distinct_ids db"
  unfolding distinct_ids_def by (simp only: event_ids_update)

lemma distinct_ids_created:
  "distinct_ids db \<Longrightarrow> find_event db (ev_event_id row) = None \<Longrightarrow> distinct_ids (created row now db)"
  by (simp add: distinct_ids_def find_event_None)

text \<open>A change of a row that leaves its status alone.\<close>

lemma ledger_ok_update:
  assumes "ledger_ok db"
    and "\<And>e. ev_event_id (f e) = ev_event_id e \<and> ev_status (f e) = ev_status e \<and>
           ev_status_reason (f e) = ev_status_reason e"
  shows "ledger_ok (update_event eid f db)"
proof -
  have "row_state (map_option f v) = row_state v" for v by (cases v) (simp_all add: assms(2))
  with assms show ?thesis
    by (simp add: ledger_ok_def distinct_ids_update_event find_event_update)
qed

lemma ledger_ok_moved:
  assumes "ledger_ok db" and "find_event db (ev_event_id e) = Some e"
    and "to \<in> ALLOWED_TRANSITIONS (ev_status e)"
  shows "ledger_ok (moved e to reason now db)"
  using assms by (simp add: ledger_ok_def list_transitions_moved find_event_moved)

lemma ledger_ok_created:
  assumes "ledger_ok db" and "find_event db (ev_event_id row) = None"
    and "ev_status row = RECEIVED" and "ev_status_reason row = None"
  shows "ledger_ok (created row now db)"
  using assms
  by (simp add: ledger_ok_def list_transitions_created find_event_created distinct_ids_created)

lemma ledger_ok_reclaimed:
  assumes "ledger_ok db" and "find_event db eid = Some e" and "ev_status e = UPLOADING"
  shows "ledger_ok (db\<lparr>transitions := transitions db @
    [\<lparr>tr_event_id = eid, tr_from_status = Some UPLOADING, tr_to_status = UPLOADING,
      tr_reason = Some (lit ''reclaimed_stale''), tr_occurred_at = now\<rparr>]\<rparr>)"
  using assms by (simp add: ledger_ok_def list_transitions_append)

lemma ledger_ok_letters [simp]:
  "ledger_ok (add_dead_letter d db) \<longleftrightarrow> ledger_ok db"
  "ledger_ok (update_dead_letter i g db) \<longleftrightarrow> ledger_ok db"
  by (simp_all add: ledger_ok_def)

interpretation audit: ledger_steps ledger_ok "\<lambda>_ _. True"
proof (unfold_locales, goal_cases)
  case (1 db)
  then show ?case by (simp add: ledger_ok_def distinct_ids_def)
next
  case (6 db e h now)
  then show ?case
    using ledger_ok_update [of db "\<lambda>e. e\<lparr>ev_hashed_identifiers := Some h\<rparr>" "ev_event_id e"]
      ledger_ok_moved [of "update_event (ev_event_id e) (\<lambda>e. e\<lparr>ev_hashed_identifiers := Some h\<rparr>) db"
        "e\<lparr>ev_hashed_identifiers := Some h\<rparr>" PROCESSED None now]
    by (simp add: find_event_update moved_def)
qed (auto intro: ledger_ok_moved ledger_ok_created ledger_ok_update ledger_ok_reclaimed)

section \<open>History is append-only\<close>

text \<open>The columns that ingest writes and nothing changes afterwards.\<close>

definition facts :: "event \<Rightarrow> event" where
  "facts e = e\<lparr>ev_correlation_id := None, ev_hashed_identifiers := None, ev_status := RECEIVED,
     ev_status_reason := None, ev_attempt_count := 0, ev_last_attempt_at := None\<rparr>"

text \<open>\<open>e\<close> is a later version of the row \<open>e0\<close>: a terminal status stays.\<close>

definition later_row :: "event \<Rightarrow> event \<Rightarrow> bool" where
  "later_row e0 e \<longleftrightarrow> facts e = facts e0 \<and>
     (terminal (ev_status e0) \<longrightarrow>
        ev_status e = ev_status e0 \<and> ev_status_reason e = ev_status_reason e0)"

definition evolves :: "store \<Rightarrow> store \<Rightarrow> bool" where
  "evolves db0 db \<longleftrightarrow>
     prefix (transitions db0) (transitions db) \<and>
     (\<forall>x e0. find_event db0 x = Some e0 \<longrightarrow> (\<exists>e. find_event db x = Some e \<and> later_row e0 e))"

lemma evolves_refl: "evolves db db"
  by (auto simp: evolves_def later_row_def)

lemma later_row_trans: "later_row a b \<Longrightarrow> later_row b c \<Longrightarrow> later_row a c"
  by (auto simp: later_row_def)

lemma evolves_trans: "evolves a b \<Longrightarrow> evolves b c \<Longrightarrow> evolves a c"
  unfolding evolves_def by (meson later_row_trans prefix_order.trans)

lemma evolves_step:
  assumes "prefix (transitions db) (transitions db')"
    and "\<forall>x e. find_event db x = Some e \<longrightarrow> (\<exists>e'. find_event db' x = Some e' \<and> later_row e e')"
    and "evolves db0 db"
  shows "evolves db0 db'"
  using evolves_trans [OF assms(3)] assms(1,2) by (simp add: evolves_def)

lemma evolves_update:
  assumes "\<And>e. ev_event_id (f e) = ev_event_id e" and "\<And>e. later_row e (f e)" and "evolves db0 db"
  shows "evolves db0 (update_event eid f db)"
  using assms by (intro evolves_step [OF _ _ assms(3)]) (auto simp: find_event_update later_row_def)

lemma evolves_moved:
  assumes "to \<in> ALLOWED_TRANSITIONS (ev_status e)" and "find_event db (ev_event_id e) = Some e"
    and "evolves db0 db"
  shows "evolves db0 (moved e to reason now db)"
proof (rule evolves_step [OF _ _ assms(3)])
  show "prefix (transitions db) (transitions (moved e to reason now db))"
    by (simp add: moved_def)
  have "\<not> terminal (ev_status e)" using assms(1) by (auto simp: terminal_def)
  then show "\<forall>x v. find_event db x = Some v \<longrightarrow>
      (\<exists>v'. find_event (moved e to reason now db) x = Some v' \<and> later_row v v')"
    using assms(2) by (simp add: find_event_moved later_row_def facts_def)
qed

lemma evolves_created:
  assumes "find_event db (ev_event_id row) = None" and "evolves db0 db"
  shows "evolves db0 (created row now db)"
proof (rule evolves_step [OF _ _ assms(2)])
  show "prefix (transitions db) (transitions (created row now db))"
    by (simp add: created_def)
  show "\<forall>x v. find_event db x = Some v \<longrightarrow>
      (\<exists>v'. find_event (created row now db) x = Some v' \<and> later_row v v')"
    using assms(1) by (auto simp: find_event_created later_row_def)
qed

lemma evolves_appended: "evolves db0 db \<Longrightarrow> evolves db0 (db\<lparr>transitions := transitions db @ ts\<rparr>)"
  by (rule evolves_step) (auto simp: later_row_def)

lemma evolves_letters [simp]:
  "evolves db0 (add_dead_letter d db) \<longleftrightarrow> evolves db0 db"
  "evolves db0 (update_dead_letter i g db) \<longleftrightarrow> evolves db0 db"
  by (simp_all add: evolves_def)

lemma later_row_columns:
  "later_row e (e\<lparr>ev_attempt_count := n, ev_last_attempt_at := a\<rparr>)"
  "later_row e (e\<lparr>ev_correlation_id := c\<rparr>)"
  "later_row e (e\<lparr>ev_hashed_identifiers := h\<rparr>)"
  by (simp_all add: later_row_def facts_def)

interpretation history: ledger_steps "\<lambda>db. distinct_ids db \<and> evolves db0 db" "\<lambda>_ _. True" for db0
proof (unfold_locales, goal_cases)
  case (6 db e h now)
  let ?db = "update_event (ev_event_id e) (\<lambda>e. e\<lparr>ev_hashed_identifiers := Some h\<rparr>) db"
  have "evolves db0 (moved (e\<lparr>ev_hashed_identifiers := Some h\<rparr>) PROCESSED None now ?db)"
    using 6 by (intro evolves_moved evolves_update later_row_columns) (simp_all add: find_event_update)
  then have "evolves db0 (moved e PROCESSED None now ?db)"
    by (simp add: moved_def)
  with 6 show ?case by (simp add: distinct_ids_update_event)
qed (simp_all add: distinct_ids_created distinct_ids_update_event evolves_moved evolves_created
    evolves_appended evolves_update later_row_columns, simp add: distinct_ids_def)

section \<open>Nothing passes the worker without consent and a match key\<close>

definition consented :: "event \<Rightarrow> bool" where
  "consented e \<longleftrightarrow> ev_consent_ad_user_data e = Some (consent_value GRANTED) \<and>
     ev_consent_ad_personalization e = Some (consent_value GRANTED)"

definition usable :: "event \<Rightarrow> HashedIdentifiers \<Rightarrow> bool" where
  "usable e h \<longleftrightarrow> hashed_ok h \<and> (truthy (ev_click_id e) \<or> has_match_key h)"

definition gate_accepts :: "event \<Rightarrow> HashedIdentifiers \<Rightarrow> bool" where
  "gate_accepts e h \<longleftrightarrow> consented e \<and> usable e h"

definition row_gated :: "event \<Rightarrow> bool" where
  "row_gated e \<longleftrightarrow>
     (\<forall>h. ev_hashed_identifiers e = Some h \<longrightarrow> usable e h) \<and>
     (past_worker (ev_status e) \<longrightarrow> consented e \<and> ev_hashed_identifiers e \<noteq> None)"

definition gated :: "store \<Rightarrow> bool" where
  "gated db \<longleftrightarrow> distinct_ids db \<and> (\<forall>x e. find_event db x = Some e \<longrightarrow> row_gated e)"

lemma row_gated_columns [simp]:
  "row_gated (e\<lparr>ev_attempt_count := n, ev_last_attempt_at := a\<rparr>) = row_gated e"
  "row_gated (e\<lparr>ev_correlation_id := c\<rparr>) = row_gated e"
  by (simp_all add: row_gated_def consented_def usable_def)

lemma gated_update:
  "gated db \<Longrightarrow> (\<And>e. ev_event_id (f e) = ev_event_id e) \<Longrightarrow> (\<And>e. row_gated e \<Longrightarrow> row_gated (f e)) \<Longrightarrow>
   gated (update_event eid f db)"
  by (auto simp: gated_def distinct_ids_update_event find_event_update)

lemma gated_moved:
  assumes "gated db" and "find_event db (ev_event_id e) = Some e"
    and "row_gated (e\<lparr>ev_status := to, ev_status_reason := reason\<rparr>)"
  shows "gated (moved e to reason now db)"
  using assms by (auto simp: gated_def find_event_moved)

lemma row_gated_move:
  assumes "row_gated e" and "to \<in> ALLOWED_TRANSITIONS (ev_status e)" and "to \<noteq> PROCESSED"
  shows "row_gated (e\<lparr>ev_status := to, ev_status_reason := reason\<rparr>)"
proof -
  have "past_worker (ev_status e)" if "past_worker to"
    using past_worker_entry [OF assms(2) that] assms(3) by blast
  with assms(1) show ?thesis by (auto simp: row_gated_def consented_def usable_def)
qed

lemma gated_created:
  assumes "gated db" and "find_event db (ev_event_id row) = None" and "ev_status row = RECEIVED"
    and "ev_hashed_identifiers row = None"
  shows "gated (created row now db)"
  using assms
  by (auto simp: gated_def distinct_ids_created find_event_created row_gated_def past_worker_def)

lemma gated_tables [simp]:
  "gated (add_dead_letter d db) \<longleftrightarrow> gated db"
  "gated (update_dead_letter i g db) \<longleftrightarrow> gated db"
  "gated (db\<lparr>transitions := ts\<rparr>) \<longleftrightarrow> gated db"
  by (simp_all add: gated_def)

lemma gated_move_allowed:
  assumes "gated db" and "find_event db (ev_event_id e) = Some e"
    and "to \<in> ALLOWED_TRANSITIONS (ev_status e)" and "to \<noteq> PROCESSED"
  shows "gated (moved e to reason now db)"
  using assms by (intro gated_moved row_gated_move) (auto simp: gated_def)

interpretation gate: ledger_steps gated gate_accepts
proof (unfold_locales, goal_cases)
  case (1 db)
  then show ?case by (simp add: gated_def distinct_ids_def)
next
  case (6 db e h now)
  let ?f = "\<lambda>e. e\<lparr>ev_hashed_identifiers := Some h\<rparr>"
  let ?db = "update_event (ev_event_id e) ?f db"
  have found: "find_event ?db (ev_event_id e) = Some (?f e)"
    using 6 by (simp add: find_event_update)
  have other: "find_event ?db x = find_event db x" if "x \<noteq> ev_event_id e" for x
    using that by (simp add: find_event_update)
  have "row_gated ((?f e)\<lparr>ev_status := PROCESSED, ev_status_reason := None\<rparr>)"
    using 6 by (simp add: gate_accepts_def row_gated_def consented_def usable_def)
  moreover have "distinct_ids ?db" using 6 by (simp add: gated_def distinct_ids_update_event)
  ultimately show ?case
    using 6(1) found other by (auto simp: gated_def find_event_moved)
qed (auto intro: gated_move_allowed gated_created gated_update)

section \<open>Open dead letters are the DEAD_LETTERED events\<close>

definition open_letters :: "store \<Rightarrow> pystr \<Rightarrow> dead_letter list" where
  "open_letters db x =
     filter (\<lambda>d. dl_event_id d = x \<and> dl_replayed_at d = None) (dead_letters db)"

definition is_dead :: "store \<Rightarrow> pystr \<Rightarrow> bool" where
  "is_dead db x \<longleftrightarrow> map_option ev_status (find_event db x) = Some DEAD_LETTERED"

definition letters_ok :: "store \<Rightarrow> bool" where
  "letters_ok db \<longleftrightarrow>
     distinct_ids db \<and> distinct (map dl_id (dead_letters db)) \<and>
     (\<forall>d \<in> set (dead_letters db).
        map_option ev_source (find_event db (dl_event_id d)) = Some (dl_source d)) \<and>
     (\<forall>x. length (open_letters db x) = (if is_dead db x then 1 else 0))"

lemma filter_closed:
  "(\<And>d. \<not> P (f d)) \<Longrightarrow>
   filter P (map (\<lambda>d. if k d = i then f d else d) ds) = filter (\<lambda>d. P d \<and> k d \<noteq> i) ds"
  by (induction ds) auto

lemma length_filter_without:
  "distinct (map k ds) \<Longrightarrow> d \<in> set ds \<Longrightarrow> P d \<Longrightarrow>
   length (filter P ds) = Suc (length (filter (\<lambda>c. P c \<and> k c \<noteq> k d) ds))"
proof (induction ds)
  case (Cons c ds)
  show ?case
  proof (cases "c = d")
    case True
    with Cons.prems have "filter (\<lambda>a. P a \<and> k a \<noteq> k d) ds = filter P ds"
      by (intro filter_cong) (auto simp: rev_image_eqI)
    with True Cons.prems show ?thesis by simp
  next
    case False
    with Cons.prems have "k c \<noteq> k d" by (auto simp: rev_image_eqI)
    with False Cons show ?thesis by simp
  qed
qed simp

text \<open>A change that leaves the dead letters, the sources and the set of dead rows alone.\<close>

lemma letters_ok_rows:
  assumes "letters_ok db" and "dead_letters db' = dead_letters db" and "distinct_ids db'"
    and "\<And>x. is_dead db' x = is_dead db x"
    and "\<And>x e. find_event db x = Some e \<Longrightarrow> map_option ev_source (find_event db' x) = Some (ev_source e)"
  shows "letters_ok db'"
proof -
  have "map_option ev_source (find_event db' (dl_event_id d)) = Some (dl_source d)"
    if d: "d \<in> set (dead_letters db)" for d
  proof -
    from d assms(1) obtain e where "find_event db (dl_event_id d) = Some e" "ev_source e = dl_source d"
      by (auto simp: letters_ok_def)
    then show ?thesis using assms(5) by metis
  qed
  with assms show ?thesis by (simp add: letters_ok_def open_letters_def)
qed

lemma letters_ok_update:
  assumes "letters_ok db"
    and "\<And>e. ev_event_id (f e) = ev_event_id e" "\<And>e. ev_status (f e) = ev_status e"
      "\<And>e. ev_source (f e) = ev_source e"
  shows "letters_ok (update_event eid f db)"
  using assms(1)
proof (rule letters_ok_rows)
  show "dead_letters (update_event eid f db) = dead_letters db" by simp
  show "distinct_ids (update_event eid f db)"
    using assms by (simp add: letters_ok_def distinct_ids_update_event)
  show "is_dead (update_event eid f db) x = is_dead db x" for x
    using assms(2,3)
    by (cases "find_event db x"; cases "x = eid") (simp_all add: is_dead_def find_event_update)
  show "map_option ev_source (find_event (update_event eid f db) x) = Some (ev_source e)"
    if "find_event db x = Some e" for x e
    using that assms(2,4) by (cases "x = eid") (simp_all add: find_event_update)
qed

lemma letters_ok_moved:
  assumes "letters_ok db" and "find_event db (ev_event_id e) = Some e"
    and "to \<noteq> DEAD_LETTERED" "ev_status e \<noteq> DEAD_LETTERED"
  shows "letters_ok (moved e to reason now db)"
  using assms(1)
proof (rule letters_ok_rows)
  show "distinct_ids (moved e to reason now db)"
    using assms(1) by (simp add: letters_ok_def)
  show "is_dead (moved e to reason now db) x = is_dead db x" for x
    using assms(2-4) by (simp add: is_dead_def find_event_moved)
  show "map_option ev_source (find_event (moved e to reason now db) x) = Some (ev_source v)"
    if "find_event db x = Some v" for x v
    using that by (cases "x = ev_event_id e") (simp_all add: find_event_moved)
qed simp

lemma letters_ok_created:
  assumes "letters_ok db" and "find_event db (ev_event_id row) = None" and "ev_status row = RECEIVED"
  shows "letters_ok (created row now db)"
  using assms(1)
proof (rule letters_ok_rows)
  show "distinct_ids (created row now db)"
    using assms by (simp add: letters_ok_def distinct_ids_created)
  show "is_dead (created row now db) x = is_dead db x" for x
    using assms(2,3) by (simp add: is_dead_def find_event_created)
  show "map_option ev_source (find_event (created row now db) x) = Some (ev_source e)"
    if "find_event db x = Some e" for x e
    using that assms(2) by (auto simp: find_event_created)
qed simp

lemma letters_ok_transitions [simp]: "letters_ok (db\<lparr>transitions := ts\<rparr>) \<longleftrightarrow> letters_ok db"
  by (simp add: letters_ok_def is_dead_def open_letters_def)

lemma dead_letters_add:
  "dead_letters (add_dead_letter d db) = dead_letters db @ [d\<lparr>dl_id := next_dead_letter_id db\<rparr>]"
  by (simp add: add_dead_letter_def)

lemma letters_ok_dead_letter:
  assumes "letters_ok db" and "find_event db (ev_event_id e) = Some e"
    and "ev_status e \<noteq> DEAD_LETTERED" and "dl_event_id d = ev_event_id e"
    and "dl_source d = ev_source e" and "dl_replayed_at d = None"
  shows "letters_ok (add_dead_letter d (moved e DEAD_LETTERED reason now db))"
proof -
  let ?m = "moved e DEAD_LETTERED reason now db"
  have new: "next_dead_letter_id ?m \<notin> dl_id ` set (dead_letters db)"
    using next_dead_letter_id_fresh [of _ ?m] by fastforce
  have src: "map_option ev_source (find_event ?m x) = map_option ev_source (find_event db x)" for x
    by (cases "find_event db x"; cases "x = ev_event_id e") (simp_all add: find_event_moved)
  have "length (open_letters (add_dead_letter d ?m) x) = (if is_dead (add_dead_letter d ?m) x then 1 else 0)" for x
  proof (cases "x = ev_event_id e")
    case True
    have "\<not> is_dead db x" using True assms(2,3) by (simp add: is_dead_def)
    moreover have "length (open_letters db x) = (if is_dead db x then 1 else 0)"
      using assms(1) by (simp only: letters_ok_def)
    ultimately have "open_letters db x = []" by simp
    then show ?thesis
      using True assms(2,4,6) by (simp add: open_letters_def dead_letters_add is_dead_def find_event_moved)
  next
    case False
    then have "open_letters (add_dead_letter d ?m) x = open_letters db x"
      using assms(4) by (simp add: open_letters_def dead_letters_add)
    moreover have "is_dead (add_dead_letter d ?m) x = is_dead db x"
      using False by (simp add: is_dead_def find_event_moved)
    ultimately show ?thesis using assms(1) by (simp add: letters_ok_def)
  qed
  then show ?thesis
    using assms new src by (simp add: letters_ok_def dead_letters_add)
qed

lemma letters_ok_replayed:
  assumes "letters_ok db" and "find_event db (ev_event_id e) = Some e" and "ev_status e = DEAD_LETTERED"
    and "find_dead_letter db i = Some d" and "dl_event_id d = ev_event_id e" and "dl_replayed_at d = None"
    and "\<And>c. dl_id (f c) = dl_id c" "\<And>c. dl_event_id (f c) = dl_event_id c"
      "\<And>c. dl_source (f c) = dl_source c" "\<And>c. dl_replayed_at (f c) \<noteq> None"
  shows "letters_ok (update_dead_letter i f (moved e QUEUED reason now db))"
proof -
  let ?m = "moved e QUEUED reason now db" and ?u = "update_dead_letter i f (moved e QUEUED reason now db)"
  let ?ds = "dead_letters db"
  from assms(4) have d: "d \<in> set ?ds" "dl_id d = i"
    by (auto simp: find_dead_letter_def dest: find_SomeD)
  have dis: "distinct (map dl_id ?ds)" using assms(1) by (simp add: letters_ok_def)
  have letters: "dead_letters ?u = map (\<lambda>c. if dl_id c = i then f c else c) ?ds"
    by (simp add: update_dead_letter_def)
  have src: "map_option ev_source (find_event ?u x) = map_option ev_source (find_event db x)" for x
    by (cases "find_event db x"; cases "x = ev_event_id e") (simp_all add: find_event_moved)
  have "length (open_letters ?u x) = (if is_dead ?u x then 1 else 0)" for x
  proof -
    let ?P = "\<lambda>c. dl_event_id c = x \<and> dl_replayed_at c = None"
    have o: "open_letters ?u x = filter (\<lambda>c. ?P c \<and> dl_id c \<noteq> i) ?ds"
      unfolding open_letters_def letters by (rule filter_closed) (simp add: assms(10))
    have dead: "length (filter ?P ?ds) = (if is_dead db x then 1 else 0)"
      using assms(1) by (simp add: letters_ok_def open_letters_def)
    show ?thesis
    proof (cases "x = ev_event_id e")
      case True
      then have "Suc (length (open_letters ?u x)) = 1"
        using length_filter_without [OF dis d(1), of ?P] o dead assms(2,3,5,6) d(2)
        by (simp add: is_dead_def)
      moreover have "\<not> is_dead ?u x"
        using True assms(2) by (simp add: is_dead_def find_event_moved)
      ultimately show ?thesis by simp
    next
      case False
      have "open_letters ?u x = filter ?P ?ds"
        unfolding o
      proof (rule filter_cong [OF refl])
        fix c assume "c \<in> set ?ds"
        then have "dl_id c = i \<Longrightarrow> c = d" using d dis by (auto simp: distinct_map dest: inj_onD)
        then show "(?P c \<and> dl_id c \<noteq> i) = ?P c" using False assms(5) by auto
      qed
      moreover have "is_dead ?u x = is_dead db x"
        using False by (simp add: is_dead_def find_event_moved)
      ultimately show ?thesis using dead by simp
    qed
  qed
  moreover have "distinct (map dl_id (dead_letters ?u))"
    unfolding letters using dis by (simp only: map_key_update [of dl_id f, OF assms(7)])
  ultimately show ?thesis
    using assms src by (auto simp: letters_ok_def letters)
qed

interpretation letters: ledger_steps letters_ok "\<lambda>_ _. True"
proof (unfold_locales, goal_cases)
  case (1 db)
  then show ?case by (simp add: letters_ok_def distinct_ids_def)
next
  case (6 db e h now)
  let ?f = "\<lambda>e. e\<lparr>ev_hashed_identifiers := Some h\<rparr>"
  let ?db = "update_event (ev_event_id e) ?f db"
  have "letters_ok (moved (?f e) PROCESSED None now ?db)"
    using 6 by (intro letters_ok_moved letters_ok_update) (simp_all add: find_event_update)
  then show ?case by (simp add: moved_def)
next
  case (7 db e d reason now)
  then have "ev_status e \<noteq> DEAD_LETTERED" by auto
  with 7 show ?case by (intro letters_ok_dead_letter) simp_all
next
  case (8 db e i d now reason)
  then show ?case by (intro letters_ok_replayed [where d = d]) simp_all
qed (auto intro: letters_ok_moved letters_ok_created letters_ok_update)

end
