(* ===== verification/Metrics.thy ===== *)
theory Metrics
  imports Prelude Complex_Main
begin

text \<open>
  \<open>gateway/observability/metrics.py\<close>: the metrics as labelled series, what their histograms
  expose, and the readers for tests and debugging. prometheus_client's registry maps each series
  to its value, or to the observations made so far.
\<close>

section \<open>Series\<close>

text \<open>One labelled series of one metric.\<close>

datatype series =
    events_received_total (s_source: pystr) (s_conversion_action: pystr)
  | events_rejected_total (s_source: pystr) (s_conversion_action: pystr) (s_reason: pystr)
  | events_suppressed_total (s_source: pystr) (s_conversion_action: pystr) (s_reason: pystr)
  | conversions_uploaded_total (s_source: pystr) (s_conversion_action: pystr)
  | conversions_dead_lettered_total (s_source: pystr) (s_conversion_action: pystr) (s_failure_class: pystr)
  | upload_latency_seconds (s_outcome: pystr)
  | dlq_depth (s_source: pystr)
  | ingest_to_upload_seconds (s_source: pystr) (s_conversion_action: pystr)

text \<open>The values of counters and gauges, and the observations of histograms in order.\<close>

type_synonym registry = "series \<Rightarrow> nat"
type_synonym observations = "series \<Rightarrow> rat list"

definition empty_registry :: registry where
  "empty_registry = (\<lambda>_. 0)"

definition no_observations :: observations where
  "no_observations = (\<lambda>_. [])"

definition unknown :: "pystr option \<Rightarrow> pystr" where
  "unknown v = (case v of None \<Rightarrow> lit ''unknown'' | Some s \<Rightarrow> if s = [] then lit ''unknown'' else s)"

section \<open>What a histogram exposes\<close>

text \<open>The \<open>buckets\<close> of the two histograms; the library adds the bucket without bound.\<close>

definition upload_latency_buckets :: "rat list" where
  "upload_latency_buckets = [5 / 100, 1 / 10, 25 / 100, 1 / 2, 1, 25 / 10, 5, 10, 30]"

definition ingest_to_upload_buckets :: "rat list" where
  "ingest_to_upload_buckets = [1, 5, 15, 30, 60, 120, 300, 600, 1800, 3600]"

text \<open>A sample of a metric: name, labels, value; \<open>le\<close> is the bound of a bucket as the library prints it.\<close>

record sample =
  sm_name :: pystr
  sm_labels :: "(pystr \<times> pystr) list"
  sm_value :: rat

definition bucket_value :: "rat option \<Rightarrow> rat list \<Rightarrow> nat" where
  "bucket_value bound vs = length (filter (\<lambda>v. case bound of None \<Rightarrow> True | Some b \<Rightarrow> v \<le> b) vs)"

definition histogram_samples ::
  "(rat option \<Rightarrow> pystr) \<Rightarrow> pystr \<Rightarrow> rat list \<Rightarrow> (pystr \<times> pystr) list \<Rightarrow> rat list \<Rightarrow> sample list" where
  "histogram_samples le name buckets labels vs =
     map (\<lambda>b. \<lparr>sm_name = name @ lit ''_bucket'', sm_labels = labels @ [(lit ''le'', le b)],
                sm_value = of_nat (bucket_value b vs)\<rparr>) (map Some buckets @ [None]) @
     [\<lparr>sm_name = name @ lit ''_count'', sm_labels = labels, sm_value = of_nat (length vs)\<rparr>,
      \<lparr>sm_name = name @ lit ''_sum'', sm_labels = labels, sm_value = sum_list vs\<rparr>]"

section \<open>Readers\<close>

text \<open>
  \<open>metric.collect()\<close> is the library's: the argument \<open>collected\<close>, one list of samples for each metric.
  Labels are a dict, so their order does not matter.
\<close>

definition ends_with :: "pystr \<Rightarrow> string \<Rightarrow> bool" where
  "ends_with s t \<longleftrightarrow> length t \<le> length s \<and> drop (length s - length t) s = lit t"

definition read_sample :: "(sample \<Rightarrow> bool) \<Rightarrow> sample list list \<Rightarrow> (pystr \<times> pystr) list \<Rightarrow> rat" where
  "read_sample named collected labels =
     (case find (\<lambda>s. named s \<and> map_of (sm_labels s) = map_of labels) (concat collected) of
        None \<Rightarrow> 0 | Some s \<Rightarrow> sm_value s)"

definition read_counter :: "sample list list \<Rightarrow> (pystr \<times> pystr) list \<Rightarrow> rat" where
  "read_counter = read_sample (\<lambda>s. ends_with (sm_name s) ''_total'')"

definition read_gauge :: "sample list list \<Rightarrow> (pystr \<times> pystr) list \<Rightarrow> rat" where
  "read_gauge = read_sample (\<lambda>s. True)"

definition histogram_count :: "sample list list \<Rightarrow> (pystr \<times> pystr) list \<Rightarrow> rat" where
  "histogram_count = read_sample (\<lambda>s. ends_with (sm_name s) ''_count'')"

lemma ends_with_append [simp]: "ends_with (s @ lit t) u \<longleftrightarrow> lit u = lit t"
  if "length t = length u"
  using that by (auto simp: ends_with_def)

lemma bucket_not_count: "\<not> ends_with (s @ lit ''_bucket'') ''_count''"
  by (simp add: ends_with_def) (simp add: lit_def)

text \<open>The number of observations is what \<open>histogram_count\<close> reads from what the histogram exposes.\<close>

lemma histogram_count_observed:
  "histogram_count [histogram_samples le name buckets labels vs] labels = of_nat (length vs)"
proof -
  let ?P = "\<lambda>s. ends_with (sm_name s) ''_count'' \<and> map_of (sm_labels s) = map_of labels"
  have skip: "find P (map f xs @ c # cs) = Some c" if "\<And>x. \<not> P (f x)" "P c"
    for P and f :: "rat option \<Rightarrow> sample" and xs c cs
    using that by (induction xs) simp_all
  let ?c = "\<lparr>sm_name = name @ lit ''_count'', sm_labels = labels, sm_value = rat_of_nat (length vs)\<rparr>"
  have "find ?P (histogram_samples le name buckets labels vs) = Some ?c"
    unfolding histogram_samples_def by (rule skip) (simp_all add: bucket_not_count)
  then show ?thesis by (simp add: histogram_count_def read_sample_def)
qed

text \<open>Buckets are cumulative, and the last one counts everything.\<close>

lemma bucket_value_mono: "a \<le> b \<Longrightarrow> bucket_value (Some a) vs \<le> bucket_value (Some b) vs"
  by (induction vs) (auto simp: bucket_value_def)

lemma bucket_value_all: "bucket_value None vs = length vs"
  by (simp add: bucket_value_def)

end
