(* ===== verification/World.thy ===== *)
theory World
  imports History Metrics
begin

text \<open>
  What the operations act on: the database, the Prometheus registry of the process, standard
  output and the queue transport, with the
  transaction boundary of \<open>gateway/db.py\<close>'s session factory. A rolled-back transaction restores
  the database only: metrics, output and messages stay. A process with more state extends the record.
\<close>

section \<open>The world\<close>

record 'q world =
  w_db :: store
  w_metrics :: registry
  w_observed :: observations
  w_out :: pystr
  w_queue :: 'q

type_synonym ('q, 'm, 'a) wse = "(('q, 'm) world_scheme, exn, 'a) se"

definition on_db :: "'a session \<Rightarrow> ('q, 'm, 'a) wse" where
  "on_db m w = (case m (w_db w) of (r, db) \<Rightarrow> (r, w\<lparr>w_db := db\<rparr>))"

definition on_queue :: "('q, exn, 'a) se \<Rightarrow> ('q, 'm, 'a) wse" where
  "on_queue m w = (case m (w_queue w) of (r, q) \<Rightarrow> (r, w\<lparr>w_queue := q\<rparr>))"

definition inc :: "series \<Rightarrow> ('q, 'm, unit) wse" where
  "inc s = se_modify (\<lambda>w. w\<lparr>w_metrics := (w_metrics w)(s := w_metrics w s + 1)\<rparr>)"

definition set_gauge :: "series \<Rightarrow> nat \<Rightarrow> ('q, 'm, unit) wse" where
  "set_gauge s n = se_modify (\<lambda>w. w\<lparr>w_metrics := (w_metrics w)(s := n)\<rparr>)"

definition observe :: "series \<Rightarrow> rat \<Rightarrow> ('q, 'm, unit) wse" where
  "observe s v = se_modify (\<lambda>w. w\<lparr>w_observed := (w_observed w)(s := w_observed w s @ [v])\<rparr>)"

text \<open>\<open>out.write(s)\<close>: standard output, where the operator commands print.\<close>

definition out_write :: "pystr \<Rightarrow> ('q, 'm, unit) wse" where
  "out_write s = se_modify (\<lambda>w. w\<lparr>w_out := w_out w @ s\<rparr>)"

text \<open>
  \<open>with session_factory.begin() as session: ...\<close>: commits when the body succeeds and its rows fit
  their columns, otherwise rolls back and re-raises.
\<close>

definition transaction :: "('q, 'm, 'a) wse \<Rightarrow> ('q, 'm, 'a) wse" where
  "transaction m w =
     (case m w of
        (Inl e, w') \<Rightarrow> (Inl e, w'\<lparr>w_db := w_db w\<rparr>)
      | (Inr x, w') \<Rightarrow>
          if store_fits (w_db w') then (Inr x, w') else (Inl DataError, w'\<lparr>w_db := w_db w\<rparr>))"

section \<open>Running\<close>

lemma on_db_run: "m (w_db w) = (r, db) \<Longrightarrow> on_db m w = (r, w\<lparr>w_db := db\<rparr>)"
  by (simp add: on_db_def)

lemma on_queue_run: "m (w_queue w) = (r, q) \<Longrightarrow> on_queue m w = (r, w\<lparr>w_queue := q\<rparr>)"
  by (simp add: on_queue_def)

lemma inc_run [simp]: "inc s w = (Inr (), w\<lparr>w_metrics := (w_metrics w)(s := w_metrics w s + 1)\<rparr>)"
  by (simp add: inc_def)

lemma set_gauge_run [simp]: "set_gauge s n w = (Inr (), w\<lparr>w_metrics := (w_metrics w)(s := n)\<rparr>)"
  by (simp add: set_gauge_def)

lemma observe_run [simp]: "observe s v w = (Inr (), w\<lparr>w_observed := (w_observed w)(s := w_observed w s @ [v])\<rparr>)"
  by (simp add: observe_def)

lemma out_write_run [simp]: "out_write s w = (Inr (), w\<lparr>w_out := w_out w @ s\<rparr>)"
  by (simp add: out_write_def)

lemma on_db_get_event: "on_db (get_event x) w = (Inr (find_event (w_db w) x), w)"
  by (simp add: on_db_def get_event_def)

lemma on_db_gets: "on_db (se_gets f) w = (Inr (f (w_db w)), w)"
  by (simp add: on_db_def)

lemma transaction_commit:
  "m w = (Inr x, w') \<Longrightarrow> store_fits (w_db w') \<Longrightarrow> transaction m w = (Inr x, w')"
  by (simp add: transaction_def)

lemma transaction_rollback:
  "m w = (Inl e, w') \<Longrightarrow> transaction m w = (Inl e, w'\<lparr>w_db := w_db w\<rparr>)"
  by (simp add: transaction_def)

lemma transaction_Inr:
  "transaction m w = (Inr x, w') \<longleftrightarrow> m w = (Inr x, w') \<and> store_fits (w_db w')"
  by (auto simp: transaction_def split: prod.splits sum.splits if_splits)

lemma transaction_Inl: "transaction m w = (Inl e, w') \<Longrightarrow> w_db w' = w_db w"
  by (auto simp: transaction_def split: prod.splits sum.splits if_splits)

section \<open>Rows that fit\<close>

lemma store_fits_empty: "store_fits empty_store"
  by (simp add: store_fits_def empty_store_def)

lemma store_fits_find: "store_fits db \<Longrightarrow> find_event db x = Some e \<Longrightarrow> event_fits e"
  by (auto simp: store_fits_def list_all_iff dest: find_event_in)

lemma event_fits_status:
  "event_fits e \<Longrightarrow> fits 512 reason \<Longrightarrow> event_fits (e\<lparr>ev_status := to, ev_status_reason := reason\<rparr>)"
  by (simp add: event_fits_def)

lemma store_fits_update:
  assumes "store_fits db" and "\<And>e. event_fits e \<Longrightarrow> event_fits (f e)"
  shows "store_fits (update_event x f db)"
  using assms by (auto simp: store_fits_def list_all_iff update_event_def)

lemma event_fits_attempt [simp]:
  "event_fits (e\<lparr>ev_attempt_count := n, ev_last_attempt_at := a\<rparr>) = event_fits e"
  "event_fits (e\<lparr>ev_hashed_identifiers := h\<rparr>) = event_fits e"
  by (simp_all add: event_fits_def)

lemma store_fits_moved:
  assumes "store_fits db" and "fits 512 reason" and "find_event db (ev_event_id e) = Some e'"
  shows "store_fits (moved e to reason now db)"
proof -
  let ?u = "update_event (ev_event_id e) (\<lambda>e. e\<lparr>ev_status := to, ev_status_reason := reason\<rparr>) db"
  have "store_fits ?u"
    using assms(1,2) by (intro store_fits_update) (simp_all add: event_fits_status)
  moreover have "length (ev_event_id e) \<le> 255"
    using store_fits_find [OF assms(1,3)] find_event_id [OF assms(3)] by (simp add: event_fits_def)
  moreover have "events (moved e to reason now db) = events ?u"
    "dead_letters (moved e to reason now db) = dead_letters ?u"
    "transitions (moved e to reason now db) = transitions ?u @
        [\<lparr>tr_event_id = ev_event_id e, tr_from_status = Some (ev_status e), tr_to_status = to,
          tr_reason = reason, tr_occurred_at = now\<rparr>]"
    by (simp_all add: moved_def)
  ultimately show ?thesis
    using assms(2) unfolding store_fits_def by (simp add: transition_fits_def)
qed

lemma numeric_18_6_scaled: "\<exists>k::int. numeric_18_6 v = of_int k / 1000000"
  unfolding numeric_18_6_def Let_def by blast

lemma numeric_18_6_idem [simp]: "numeric_18_6 (numeric_18_6 v) = numeric_18_6 v"
proof -
  obtain k where k: "numeric_18_6 v = of_int k / 1000000" using numeric_18_6_scaled by blast
  have f: "\<lfloor>(of_int k :: rat) + 1 / 2\<rfloor> = k" by (simp add: floor_eq_iff)
  have c: "\<lceil>(of_int k :: rat) - 1 / 2\<rceil> = k" by (simp add: ceiling_eq_iff)
  show ?thesis unfolding k by (simp add: numeric_18_6_def Let_def f c)
qed

lemma event_fits_stored [simp]: "event_fits (stored_row row) = event_fits row"
  by (auto simp: event_fits_def stored_row_def split: option.splits)

lemma store_fits_created:
  assumes "store_fits db" and "event_fits row"
  shows "store_fits (created row now db)"
  using assms by (simp add: store_fits_def created_def transition_fits_def event_fits_def)

section \<open>Invariants of the database, seen from the world\<close>

lemma keeps_on_db [keeps_intro]: "keeps I m \<Longrightarrow> keeps (\<lambda>w. I (w_db w)) (on_db m)"
  by (auto simp: keeps_def on_db_def split: prod.splits)

lemma keeps_on_queue [keeps_intro]: "keeps (\<lambda>w. I (w_db w)) (on_queue m)"
  by (auto simp: keeps_def on_queue_def split: prod.splits)

lemma keeps_inc [keeps_intro]: "keeps (\<lambda>w. I (w_db w)) (inc s)"
  by (simp add: keeps_def)

lemma keeps_observe [keeps_intro]: "keeps (\<lambda>w. I (w_db w)) (observe s v)"
  by (simp add: keeps_def)

lemma keeps_out_write [keeps_intro]: "keeps (\<lambda>w. I (w_db w)) (out_write s)"
  by (simp add: keeps_def)

lemma preserves_dbD: "preserves (\<lambda>w. I (w_db w)) m \<Longrightarrow> m w = (r, w') \<Longrightarrow> I (w_db w) \<Longrightarrow> I (w_db w')"
  by (auto simp: preserves_def dest: spec [of _ w])

lemma preserves_on_queue [preserves_intro]: "preserves (\<lambda>w. I (w_db w)) (on_queue m)"
  by (auto simp: preserves_def on_queue_def split: prod.splits)

lemma preserves_inc [preserves_intro]: "preserves (\<lambda>w. I (w_db w)) (inc s)"
  by (simp add: preserves_def)

lemma preserves_observe [preserves_intro]: "preserves (\<lambda>w. I (w_db w)) (observe s v)"
  by (simp add: preserves_def)

lemma preserves_out_write [preserves_intro]: "preserves (\<lambda>w. I (w_db w)) (out_write s)"
  by (simp add: preserves_def)

lemma preserves_set_gauge [preserves_intro]: "preserves (\<lambda>w. I (w_db w)) (set_gauge s n)"
  by (simp add: preserves_def)

lemma preserves_on_db_gets [preserves_intro]: "preserves (\<lambda>w. I (w_db w)) (on_db (se_gets f))"
  by (simp add: preserves_def on_db_gets)

lemma preserves_transaction:
  "keeps (\<lambda>w. I (w_db w)) m \<Longrightarrow> preserves (\<lambda>w. I (w_db w)) (transaction m)"
  by (auto simp: keeps_def preserves_def transaction_def split: prod.splits sum.splits)

text \<open>What each statement of a session preserves, the session and the transaction around it preserve.\<close>

lemma preserves_on_db: "preserves I m \<Longrightarrow> preserves (\<lambda>w. I (w_db w)) (on_db m)"
  by (auto simp: preserves_def on_db_def split: prod.splits)

lemma preserves_in_transaction:
  "preserves (\<lambda>w. I (w_db w)) m \<Longrightarrow> preserves (\<lambda>w. I (w_db w)) (transaction m)"
  by (auto simp: preserves_def transaction_def split: prod.splits sum.splits)

lemmas preserves_session = preserves_on_db preserves_in_transaction

text \<open>Whatever a transaction does, the committed rows fit their columns.\<close>

lemma transaction_fits: "preserves (\<lambda>w. store_fits (w_db w)) (transaction m)"
  by (auto simp: preserves_def transaction_def split: prod.splits sum.splits)

end
