(* ===== verification/Queue.thy ===== *)
theory Queue
  imports World "HOL-Library.Multiset" "HOL-Library.AList"
begin

text \<open>
  \<open>gateway/queue/base.py\<close> and \<open>gateway/queue/memory.py\<close>: the message, the transport contract as a
  locale, and the in-process transport that implements it. Messages travel as bytes; pydantic's
  JSON codec is a parameter (\<open>codec\<close>), and \<open>uuid4().hex\<close> is the sequence \<open>uuid\<close>.
\<close>

section \<open>Messages\<close>

record QueueMessage =
  qm_event_id :: pystr
  qm_identifiers :: RawIdentifiers
  qm_enqueued_at :: time
  qm_correlation_id :: "pystr option"

record Delivery =
  d_ack_id :: pystr
  d_message :: QueueMessage
  d_attempt :: nat

text \<open>\<open>to_bytes\<close> and \<open>from_bytes\<close> (\<open>None\<close> where \<open>model_validate_json\<close> raises).\<close>

record 'b codec =
  to_bytes :: "QueueMessage \<Rightarrow> 'b"
  from_bytes :: "'b \<Rightarrow> QueueMessage option"

definition codec_ok :: "'b codec \<Rightarrow> bool" where
  "codec_ok C \<longleftrightarrow> (\<forall>m. from_bytes C (to_bytes C m) = Some m)"

section \<open>The contract\<close>

text \<open>
  What the API, the worker and the operator commands rely on. \<open>unacked\<close> is every message that
  the transport has accepted and that nobody has acknowledged; \<open>holds q d\<close> says that the receiver
  holds the delivery. A publish that raises may or may not have enqueued the message; a delivery
  stays with the transport until it is acked.
\<close>

locale queue_transport =
  fixes publish :: "QueueMessage \<Rightarrow> ('q, exn, unit) se"
    and receive :: "nat \<Rightarrow> ('q, exn, Delivery list) se"
    and ack :: "Delivery \<Rightarrow> ('q, exn, unit) se"
    and nack :: "Delivery \<Rightarrow> ('q, exn, unit) se"
    and ok :: "'q \<Rightarrow> bool"
    and unacked :: "'q \<Rightarrow> QueueMessage multiset"
    and holds :: "'q \<Rightarrow> Delivery \<Rightarrow> bool"
  assumes publish_ok: "ok q \<Longrightarrow> publish m q = (r, q') \<Longrightarrow> ok q'"
    and publish_accepted: "ok q \<Longrightarrow> publish m q = (Inr u, q') \<Longrightarrow> unacked q' = add_mset m (unacked q)"
    and publish_refused: "ok q \<Longrightarrow> publish m q = (Inl e, q') \<Longrightarrow>
      unacked q' = unacked q \<or> unacked q' = add_mset m (unacked q)"
    and receive_ok: "ok q \<Longrightarrow> receive n q = (rs, q') \<Longrightarrow> ok q' \<and> unacked q' = unacked q"
    and receive_holds: "ok q \<Longrightarrow> receive n q = (Inr ds, q') \<Longrightarrow>
      length ds \<le> n \<and> distinct (map d_ack_id ds) \<and> (\<forall>d \<in> set ds. holds q' d)"
    and ack_done: "ok q \<Longrightarrow> holds q d \<Longrightarrow> ack d q = (r, q') \<Longrightarrow>
      r = Inr () \<and> ok q' \<and> add_mset (d_message d) (unacked q') = unacked q"
    and nack_done: "ok q \<Longrightarrow> holds q d \<Longrightarrow> nack d q = (r, q') \<Longrightarrow>
      r = Inr () \<and> ok q' \<and> unacked q' = unacked q"
    and other_held: "ok q \<Longrightarrow> holds q d \<Longrightarrow> holds q c \<Longrightarrow> d_ack_id c \<noteq> d_ack_id d \<Longrightarrow>
      ack d q = (r, q') \<or> nack d q = (r, q') \<Longrightarrow> holds q' c"
begin

text \<open>The holder of a batch of deliveries may ack or nack them in turn.\<close>

lemma settle_rest:
  assumes "ok q" and "\<forall>c \<in> set (d # ds). holds q c" and "distinct (map d_ack_id (d # ds))"
    and "ack d q = (r, q') \<or> nack d q = (r, q')"
  shows "\<forall>c \<in> set ds. holds q' c"
proof
  fix c assume c: "c \<in> set ds"
  then have "d_ack_id c \<in> d_ack_id ` set ds" by (rule imageI)
  with assms(3) have "d_ack_id c \<noteq> d_ack_id d" by auto
  with c assms show "holds q' c" using other_held by (meson list.set_intros)
qed

end

section \<open>memory.py\<close>

record 'b memory_queue =
  mq_ready :: "('b \<times> nat) list"
  mq_inflight :: "(pystr \<times> ('b \<times> nat)) list"
  mq_uuids :: nat

definition new_memory_queue :: "'b memory_queue" where
  "new_memory_queue = \<lparr>mq_ready = [], mq_inflight = [], mq_uuids = 0\<rparr>"

definition mq_publish :: "'b codec \<Rightarrow> QueueMessage \<Rightarrow> ('b memory_queue, exn, unit) se" where
  "mq_publish C message =
     se_modify (\<lambda>q. q\<lparr>mq_ready := mq_ready q @ [(to_bytes C message, 1)]\<rparr>)"

text \<open>
  The loop of \<open>receive\<close>; the wait for a first message has happened. \<open>fuel\<close> is the number of
  deliveries still wanted.
\<close>

fun mq_receive :: "'b codec \<Rightarrow> (nat \<Rightarrow> pystr) \<Rightarrow> nat \<Rightarrow> ('b memory_queue, exn, Delivery list) se" where
  "mq_receive C uuid 0 q = (Inr [], q)"
| "mq_receive C uuid (Suc n) q =
     (case mq_ready q of
        [] \<Rightarrow> (Inr [], q)
      | (data, attempt) # rest \<Rightarrow>
          let ack_id = uuid (mq_uuids q);
              q' = q\<lparr>mq_ready := rest, mq_inflight := AList.update ack_id (data, attempt) (mq_inflight q),
                     mq_uuids := mq_uuids q + 1\<rparr>
          in case from_bytes C data of
               None \<Rightarrow> (Inl ValueError, q')
             | Some message \<Rightarrow>
                 (case mq_receive C uuid n q' of
                    (Inl e, q'') \<Rightarrow> (Inl e, q'')
                  | (Inr ds, q'') \<Rightarrow>
                      (Inr (\<lparr>d_ack_id = ack_id, d_message = message, d_attempt = attempt\<rparr> # ds), q'')))"

definition mq_ack :: "Delivery \<Rightarrow> ('b memory_queue, exn, unit) se" where
  "mq_ack delivery = se_modify (\<lambda>q. q\<lparr>mq_inflight := AList.delete (d_ack_id delivery) (mq_inflight q)\<rparr>)"

definition mq_nack :: "Delivery \<Rightarrow> ('b memory_queue, exn, unit) se" where
  "mq_nack delivery = se_modify (\<lambda>q.
     let q' = q\<lparr>mq_inflight := AList.delete (d_ack_id delivery) (mq_inflight q)\<rparr>
     in case map_of (mq_inflight q) (d_ack_id delivery) of
          None \<Rightarrow> q'
        | Some (data, attempt) \<Rightarrow> q'\<lparr>mq_ready := mq_ready q' @ [(data, attempt + 1)]\<rparr>)"

definition ready_count :: "'b memory_queue \<Rightarrow> nat" where
  "ready_count q = length (mq_ready q)"

definition inflight_count :: "'b memory_queue \<Rightarrow> nat" where
  "inflight_count q = length (mq_inflight q)"

section \<open>MemoryQueue implements the contract\<close>

definition mq_message :: "'b codec \<Rightarrow> 'b \<times> nat \<Rightarrow> QueueMessage" where
  "mq_message C entry = the (from_bytes C (fst entry))"

definition mq_unacked :: "'b codec \<Rightarrow> 'b memory_queue \<Rightarrow> QueueMessage multiset" where
  "mq_unacked C q =
     mset (map (mq_message C) (mq_ready q)) + mset (map (mq_message C \<circ> snd) (mq_inflight q))"

definition mq_ok :: "'b codec \<Rightarrow> (nat \<Rightarrow> pystr) \<Rightarrow> 'b memory_queue \<Rightarrow> bool" where
  "mq_ok C uuid q \<longleftrightarrow>
     codec_ok C \<and> inj uuid \<and> distinct (map fst (mq_inflight q)) \<and>
     (\<forall>k data n. (k, data, n) \<in> set (mq_inflight q) \<longrightarrow>
        (\<exists>i < mq_uuids q. k = uuid i) \<and> (\<exists>m. data = to_bytes C m)) \<and>
     (\<forall>data n. (data, n) \<in> set (mq_ready q) \<longrightarrow> (\<exists>m. data = to_bytes C m))"

definition mq_holds :: "'b codec \<Rightarrow> 'b memory_queue \<Rightarrow> Delivery \<Rightarrow> bool" where
  "mq_holds C q d \<longleftrightarrow>
     (\<exists>data. map_of (mq_inflight q) (d_ack_id d) = Some (data, d_attempt d) \<and>
        from_bytes C data = Some (d_message d))"

lemma mq_message_to_bytes: "codec_ok C \<Longrightarrow> mq_message C (to_bytes C m, n) = m"
  by (simp add: mq_message_def codec_ok_def)

lemma update_fresh: "k \<notin> fst ` set al \<Longrightarrow> AList.update k v al = al @ [(k, v)]"
  by (induction al) auto

text \<open>Taking one message from the front.\<close>

lemma mq_take_ok:
  assumes "mq_ok C uuid q" and "mq_ready q = (data, attempt) # rest"
  defines "q' \<equiv> q\<lparr>mq_ready := rest,
      mq_inflight := AList.update (uuid (mq_uuids q)) (data, attempt) (mq_inflight q),
      mq_uuids := mq_uuids q + 1\<rparr>"
  shows "mq_ok C uuid q'" and "mq_unacked C q' = mq_unacked C q"
    and "mq_inflight q' = mq_inflight q @ [(uuid (mq_uuids q), (data, attempt))]"
    and "uuid (mq_uuids q) \<notin> fst ` set (mq_inflight q)"
    and "\<exists>m. from_bytes C data = Some m"
proof -
  show fresh: "uuid (mq_uuids q) \<notin> fst ` set (mq_inflight q)"
    using assms(1) by (force simp: mq_ok_def dest: injD)
  then show infl: "mq_inflight q' = mq_inflight q @ [(uuid (mq_uuids q), (data, attempt))]"
    by (simp add: q'_def update_fresh)
  show "mq_unacked C q' = mq_unacked C q"
    using assms(2) by (simp add: mq_unacked_def infl) (simp add: q'_def)
  have "mq_ready q' = rest" "mq_uuids q' = mq_uuids q + 1" by (simp_all add: q'_def)
  with assms(1,2) fresh infl show "mq_ok C uuid q'"
    unfolding mq_ok_def by (auto intro: less_SucI) (meson less_SucI)+
  show "\<exists>m. from_bytes C data = Some m"
    using assms(1,2) by (simp add: mq_ok_def codec_ok_def) metis
qed

lemma mq_receive_ok:
  "mq_ok C uuid q \<Longrightarrow> mq_receive C uuid n q = (r, q') \<Longrightarrow>
   mq_ok C uuid q' \<and> mq_unacked C q' = mq_unacked C q \<and> (\<exists>new. mq_inflight q' = mq_inflight q @ new) \<and>
   (\<exists>ds. r = Inr ds \<and> length ds \<le> n \<and> distinct (map d_ack_id ds) \<and>
      (\<forall>d \<in> set ds. mq_holds C q' d \<and> d_ack_id d \<notin> fst ` set (mq_inflight q)))"
proof (induction n arbitrary: q r q')
  case (Suc n)
  show ?case
  proof (cases "mq_ready q")
    case Nil
    with Suc.prems show ?thesis by auto
  next
    case (Cons entry rest)
    obtain data attempt where entry: "entry = (data, attempt)" by fastforce
    define q1 where "q1 = q\<lparr>mq_ready := rest,
      mq_inflight := AList.update (uuid (mq_uuids q)) (data, attempt) (mq_inflight q),
      mq_uuids := mq_uuids q + 1\<rparr>"
    note take = mq_take_ok [OF Suc.prems(1), of data attempt rest, folded q1_def]
    have hd: "mq_ready q = (data, attempt) # rest" using Cons entry by simp
    obtain m where m: "from_bytes C data = Some m" using take(5) [OF hd] by blast
    obtain r1 q2 where rec: "mq_receive C uuid n q1 = (r1, q2)" by fastforce
    obtain ds new where IH: "mq_ok C uuid q2" "mq_unacked C q2 = mq_unacked C q1" "r1 = Inr ds"
        "mq_inflight q2 = mq_inflight q1 @ new" "length ds \<le> n" "distinct (map d_ack_id ds)"
        "\<forall>d \<in> set ds. mq_holds C q2 d \<and> d_ack_id d \<notin> fst ` set (mq_inflight q1)"
      using Suc.IH [OF take(1) [OF hd] rec] by blast
    let ?d = "\<lparr>d_ack_id = uuid (mq_uuids q), d_message = m, d_attempt = attempt\<rparr>"
    have res: "r = Inr (?d # ds)" "q' = q2"
      using Suc.prems(2) hd m rec IH(3) by (simp_all add: Let_def q1_def)
    have infl: "mq_inflight q2 = mq_inflight q @ [(uuid (mq_uuids q), (data, attempt))] @ new"
      using IH(4) take(3) [OF hd] by simp
    have "map_of (mq_inflight q) (uuid (mq_uuids q)) = None"
      using take(4) [OF hd] by (simp add: map_of_eq_None_iff)
    then have "mq_holds C q2 ?d" using m by (simp add: mq_holds_def infl map_add_def)
    moreover have "uuid (mq_uuids q) \<notin> d_ack_id ` set ds"
      using IH(7) take(3) [OF hd] by auto
    moreover have "\<forall>d \<in> set ds. d_ack_id d \<notin> fst ` set (mq_inflight q)"
      using IH(7) take(3) [OF hd] by auto
    ultimately show ?thesis
      using res IH take(2) [OF hd] take(4) [OF hd] infl by auto
  qed
qed auto

lemma mset_delete_key:
  assumes "distinct (map fst al)" and "map_of al k = Some v"
  shows "add_mset (f v) (mset (map (f \<circ> snd) (AList.delete k al))) = mset (map (f \<circ> snd) al)"
  using assms
proof (induction al)
  case (Cons p al)
  show ?case
  proof (cases "fst p = k")
    case True
    with Cons.prems have "k \<notin> fst ` set al" by auto
    then have "AList.delete k al = al"
      by (simp add: AList.delete_id)
    with True Cons.prems show ?thesis by (cases p) simp
  next
    case False
    with Cons show ?thesis by (cases p) (auto simp: add_mset_commute)
  qed
qed simp

lemma set_delete_subset: "set (AList.delete k al) \<subseteq> set al"
  by (auto simp: AList.delete_eq)

lemma mq_delete_ok:
  assumes "mq_ok C uuid q"
  shows "mq_ok C uuid (q\<lparr>mq_inflight := AList.delete k (mq_inflight q)\<rparr>)"
  using assms set_delete_subset [of k "mq_inflight q"] AList.distinct_delete [of "mq_inflight q" k]
  unfolding mq_ok_def by (simp add: subset_iff) blast

interpretation memory: queue_transport "mq_publish C" "mq_receive C uuid" mq_ack mq_nack
    "mq_ok C uuid" "mq_unacked C" "mq_holds C" for C uuid
proof (unfold_locales, goal_cases)
  case (1 q m r q')
  then show ?case by (auto simp: mq_publish_def mq_ok_def) (blast | meson)+
next
  case (2 q m u q')
  then show ?case by (auto simp: mq_publish_def mq_unacked_def mq_ok_def mq_message_to_bytes)
next
  case (3 q m e q')
  then show ?case by (simp add: mq_publish_def)
next
  case (4 q n r q')
  then show ?case using mq_receive_ok by blast
next
  case (5 q n ds q')
  then show ?case using mq_receive_ok by blast
next
  case (6 q d r q')
  then obtain data where d: "map_of (mq_inflight q) (d_ack_id d) = Some (data, d_attempt d)"
      "from_bytes C data = Some (d_message d)"
    by (auto simp: mq_holds_def)
  then have "mq_message C (data, d_attempt d) = d_message d" by (simp add: mq_message_def)
  with 6 d mset_delete_key [of "mq_inflight q" "d_ack_id d" "(data, d_attempt d)" "mq_message C"]
  show ?case by (auto simp: mq_ack_def mq_delete_ok mq_unacked_def mq_ok_def [of C uuid q])
next
  case (7 q d r q')
  then obtain data where d: "map_of (mq_inflight q) (d_ack_id d) = Some (data, d_attempt d)"
      "from_bytes C data = Some (d_message d)"
    by (auto simp: mq_holds_def)
  let ?q = "q\<lparr>mq_inflight := AList.delete (d_ack_id d) (mq_inflight q)\<rparr>"
  have q': "r = Inr ()" "q' = ?q\<lparr>mq_ready := mq_ready q @ [(data, d_attempt d + 1)]\<rparr>"
    using 7 d by (auto simp: mq_nack_def)
  have "(d_ack_id d, data, d_attempt d) \<in> set (mq_inflight q)" using d(1) by (rule map_of_SomeD)
  then have "\<exists>m. data = to_bytes C m" using 7(1) by (force simp: mq_ok_def)
  then have "mq_ok C uuid q'"
    using mq_delete_ok [OF 7(1), of "d_ack_id d"] q' by (auto simp: mq_ok_def)
  moreover have "mq_message C (data, d_attempt d) = d_message d"
      "mq_message C (data, d_attempt d + 1) = d_message d"
    using d by (simp_all add: mq_message_def)
  then have "mq_unacked C q' = mq_unacked C q"
    using q' mset_delete_key [of "mq_inflight q" "d_ack_id d" "(data, d_attempt d)" "mq_message C"] 7(1) d
    by (simp add: mq_unacked_def mq_ok_def [of C uuid q])
  ultimately show ?case using q' by simp
next
  case (8 q d c r q')
  then have "mq_inflight q' = AList.delete (d_ack_id d) (mq_inflight q)"
    by (auto simp: mq_ack_def mq_nack_def Let_def split: option.splits)
  with 8(3,4) show ?case by (simp add: mq_holds_def delete_conv)
qed

end
