(* ===== verification/Processor.thy ===== *)
theory Processor
  imports Queue
begin

text \<open>
  \<open>gateway/processor.py\<close> and \<open>gateway/worker.py\<close>: what happens to one queued event, and the loop
  that receives, processes and acknowledges. \<open>verdict\<close> is the abstract decision on a queued
  row; \<open>process_message\<close> is shown to carry it out.
\<close>

section \<open>processor.py\<close>

datatype ProcessOutcome =
    OUT_PROCESSED
  | OUT_SUPPRESSED
  | OUT_REJECTED
  | SKIPPED_NOT_QUEUED
  | SKIPPED_UNKNOWN_EVENT

text \<open>\<open>ConsentStatus(column) if column else None\<close>; an unknown value raises \<open>ValueError\<close>.\<close>

definition consent_of_column :: "pystr option \<Rightarrow> exn + ConsentStatus option" where
  "consent_of_column column =
     (case column of
        None \<Rightarrow> Inr None
      | Some v \<Rightarrow> if v = [] then Inr None
                else (case consent_of_value v of None \<Rightarrow> Inl ValueError | Some c \<Rightarrow> Inr (Some c)))"

definition consent_from_row :: "event \<Rightarrow> exn + ConsentSignals" where
  "consent_from_row event =
     (case consent_of_column (ev_consent_ad_user_data event) of
        Inl e \<Rightarrow> Inl e
      | Inr data \<Rightarrow>
          (case consent_of_column (ev_consent_ad_personalization event) of
             Inl e \<Rightarrow> Inl e
           | Inr personalization \<Rightarrow>
               Inr \<lparr>ad_user_data = data, ad_personalization = personalization\<rparr>))"

text \<open>A click id is a complete match key, so its absence of identifiers is not a fault.\<close>

definition relevant_rejections :: "event \<Rightarrow> FieldRejection list \<Rightarrow> FieldRejection list" where
  "relevant_rejections event rejs =
     filter (\<lambda>r. \<not> (truthy (ev_click_id event) \<and> rej_reason r = NO_MATCH_KEY)) rejs"

text \<open>\<open>";".join(f"{r.reason.value}:{r.field}" for r in rejections)[:512]\<close>\<close>

definition rejection_text :: "FieldRejection list \<Rightarrow> pystr" where
  "rejection_text rejs =
     take 512 (str_join (lit '';'')
       (map (\<lambda>r. rejection_value (rej_reason r) @ lit '':'' @ rej_field r) rejs))"

definition process_message ::
  "ucd \<Rightarrow> 'n phonelib \<Rightarrow> QueueMessage \<Rightarrow> time \<Rightarrow> ('q, 'm, ProcessOutcome) wse" where
  "process_message U P message now =
     se_bind (on_db (get_event (qm_event_id message))) (\<lambda>r.
       case r of
         None \<Rightarrow> se_return SKIPPED_UNKNOWN_EVENT
       | Some event \<Rightarrow>
           if ev_status event \<noteq> QUEUED then se_return SKIPPED_NOT_QUEUED
           else
             let source = ev_source event; action = unknown (ev_conversion_action event);
                 eid = ev_event_id event
             in case consent_from_row event of
                  Inl e \<Rightarrow> se_raise e
                | Inr signals \<Rightarrow>
                    let decision = evaluate_consent signals
                    in if \<not> permitted decision then
                         (case decision_reason decision of
                            None \<Rightarrow> se_raise AssertionError
                          | Some reason \<Rightarrow>
                              se_bind (on_db (transition eid SUPPRESSED (Some (suppression_value reason)) now)) (\<lambda>_.
                              se_bind (inc (events_suppressed_total source action (suppression_value reason))) (\<lambda>_.
                              se_return OUT_SUPPRESSED)))
                       else if qm_identifiers message = no_identifiers \<and> ev_hashed_identifiers event \<noteq> None then
                         se_bind (on_db (record_processed eid (the (ev_hashed_identifiers event)) now)) (\<lambda>_.
                         se_return OUT_PROCESSED)
                       else
                         let result = build_user_identifiers U P (qm_identifiers message);
                             rejs = relevant_rejections event (rejections result)
                         in if rejs \<noteq> [] then
                              se_bind (on_db (transition eid REJECTED (Some (rejection_text rejs)) now)) (\<lambda>_.
                              se_bind (se_foreach rejs (\<lambda>r.
                                inc (events_rejected_total source action (rejection_value (rej_reason r))))) (\<lambda>_.
                              se_return OUT_REJECTED))
                            else
                              se_bind (on_db (record_processed eid (identifiers result) now)) (\<lambda>_.
                              se_return OUT_PROCESSED))"

section \<open>The decision\<close>

datatype verdict =
    Suppress SuppressionReason
  | Reject "FieldRejection list"
  | Accept HashedIdentifiers

text \<open>
  Consent first; digests of a replayed event are reused; otherwise every rejection counts, except
  the absence of a match key for a click.
\<close>

definition decide :: "ucd \<Rightarrow> 'n phonelib \<Rightarrow> event \<Rightarrow> ConsentSignals \<Rightarrow> RawIdentifiers \<Rightarrow> verdict" where
  "decide U P event signals raw =
     (case decision_reason (evaluate_consent signals) of
        Some reason \<Rightarrow> Suppress reason
      | None \<Rightarrow>
          (case (raw = no_identifiers, ev_hashed_identifiers event) of
             (True, Some h) \<Rightarrow> Accept h
           | _ \<Rightarrow>
               let result = build_user_identifiers U P raw;
                   rejs = relevant_rejections event (rejections result)
               in if rejs = [] then Accept (identifiers result) else Reject rejs))"

fun apply_verdict :: "event \<Rightarrow> time \<Rightarrow> verdict \<Rightarrow> store \<Rightarrow> store" where
  "apply_verdict e now (Suppress r) db = moved e SUPPRESSED (Some (suppression_value r)) now db"
| "apply_verdict e now (Reject rejs) db = moved e REJECTED (Some (rejection_text rejs)) now db"
| "apply_verdict e now (Accept h) db =
     moved e PROCESSED None now (update_event (ev_event_id e) (\<lambda>e. e\<lparr>ev_hashed_identifiers := Some h\<rparr>) db)"

fun verdict_outcome :: "verdict \<Rightarrow> ProcessOutcome" where
  "verdict_outcome (Suppress r) = OUT_SUPPRESSED"
| "verdict_outcome (Reject rejs) = OUT_REJECTED"
| "verdict_outcome (Accept h) = OUT_PROCESSED"

fun verdict_series :: "event \<Rightarrow> verdict \<Rightarrow> series list" where
  "verdict_series e (Suppress r) =
     [events_suppressed_total (ev_source e) (unknown (ev_conversion_action e)) (suppression_value r)]"
| "verdict_series e (Reject rejs) =
     map (\<lambda>r. events_rejected_total (ev_source e) (unknown (ev_conversion_action e))
                (rejection_value (rej_reason r))) rejs"
| "verdict_series e (Accept h) = []"

definition count_series :: "series list \<Rightarrow> registry \<Rightarrow> registry" where
  "count_series ss m = fold (\<lambda>s m. m(s := m s + 1)) ss m"

lemma count_series_simps [simp]:
  "count_series [] m = m"
  "count_series (s # ss) m = count_series ss (m(s := m s + 1))"
  by (simp_all add: count_series_def)

lemma count_series_apply: "count_series ss m x = m x + count_list ss x"
  by (induction ss arbitrary: m) auto

lemma foreach_inc:
  "se_foreach xs (\<lambda>x. inc (f x)) w = (Inr (), w\<lparr>w_metrics := count_series (map f xs) (w_metrics w)\<rparr>)"
  by (induction xs arbitrary: w) simp_all

text \<open>The processor carries out the decision on a row that is QUEUED ...\<close>

lemma process_queued:
  assumes "find_event (w_db w) (qm_event_id message) = Some e" and "ev_status e = QUEUED"
    and "consent_from_row e = Inr signals"
  shows "process_message U P message now w =
    (let v = decide U P e signals (qm_identifiers message)
     in (Inr (verdict_outcome v),
         w\<lparr>w_db := apply_verdict e now v (w_db w),
           w_metrics := count_series (verdict_series e v) (w_metrics w)\<rparr>))"
proof -
  have id: "qm_event_id message = ev_event_id e" using assms(1) by (simp add: find_event_id)
  then have found: "find_event (w_db w) (ev_event_id e) = Some e" using assms(1) by simp
  have tr: "on_db (transition (ev_event_id e) to reason now) w =
      (Inr (), w\<lparr>w_db := moved e to reason now (w_db w)\<rparr>)" if "to \<in> {SUPPRESSED, REJECTED}" for to reason
    using that assms(2) by (intro on_db_run transition_ok found) auto
  have rp: "on_db (record_processed (ev_event_id e) h now) w =
      (Inr (), w\<lparr>w_db := apply_verdict e now (Accept h) (w_db w)\<rparr>)" for h
    by (intro on_db_run) (simp add: record_processed_run [OF found assms(2)])
  have perm: "permitted (evaluate_consent signals) \<longleftrightarrow> decision_reason (evaluate_consent signals) = None"
    by (simp add: decision_reason_None_iff)
  show ?thesis
  proof (cases "decision_reason (evaluate_consent signals)")
    case (Some r)
    then show ?thesis
      using assms(2,3) found
      by (simp add: process_message_def se_bind_def on_db_get_event id Let_def perm tr decide_def)
  next
    case None
    show ?thesis
    proof (cases "qm_identifiers message = no_identifiers \<and> ev_hashed_identifiers e \<noteq> None")
      case True
      then obtain h where "ev_hashed_identifiers e = Some h" by auto
      with True None assms(2,3) found show ?thesis
        by (simp add: process_message_def se_bind_def on_db_get_event id Let_def perm rp decide_def)
    next
      case False
      then have "decide U P e signals (qm_identifiers message) =
        (let result = build_user_identifiers U P (qm_identifiers message);
             rejs = relevant_rejections e (rejections result)
         in if rejs = [] then Accept (identifiers result) else Reject rejs)"
        using None by (auto simp: decide_def split: option.split bool.split)
      moreover have "ev_hashed_identifiers e = None" if "qm_identifiers message = no_identifiers"
        using that False by simp
      ultimately show ?thesis
        using None assms(2,3) found id
        by (cases "qm_identifiers message = no_identifiers")
          (simp_all add: process_message_def se_bind_def on_db_get_event Let_def perm rp tr foreach_inc)
    qed
  qed
qed

text \<open>... and does nothing otherwise.\<close>

lemma process_unknown:
  "find_event (w_db w) (qm_event_id message) = None \<Longrightarrow>
   process_message U P message now w = (Inr SKIPPED_UNKNOWN_EVENT, w)"
  by (simp add: process_message_def se_bind_def on_db_get_event)

lemma process_not_queued:
  "find_event (w_db w) (qm_event_id message) = Some e \<Longrightarrow> ev_status e \<noteq> QUEUED \<Longrightarrow>
   process_message U P message now w = (Inr SKIPPED_NOT_QUEUED, w)"
  by (simp add: process_message_def se_bind_def on_db_get_event)

lemma process_bad_consent:
  "find_event (w_db w) (qm_event_id message) = Some e \<Longrightarrow> ev_status e = QUEUED \<Longrightarrow>
   consent_from_row e = Inl x \<Longrightarrow> process_message U P message now w = (Inl x, w)"
  by (simp add: process_message_def se_bind_def on_db_get_event Let_def)

lemma apply_verdict_leaves_queued:
  assumes "find_event db (ev_event_id e) = Some e"
  shows "\<exists>e'. find_event (apply_verdict e now v db) (ev_event_id e) = Some e' \<and> ev_status e' \<noteq> QUEUED"
  using assms by (cases v) (simp_all add: find_event_moved find_event_update)

lemma consent_from_row_granted:
  assumes "consent_from_row e = Inr signals" and "permitted (evaluate_consent signals)"
  shows "consented e"
proof -
  have granted: "column = Some (consent_value GRANTED)"
    if "consent_of_column column = Inr (Some GRANTED)" for column
    using that by (auto simp: consent_of_column_def dest!: consent_value_of_value
        split: option.splits if_splits)
  from assms have "consent_of_column (ev_consent_ad_user_data e) = Inr (Some GRANTED)"
    "consent_of_column (ev_consent_ad_personalization e) = Inr (Some GRANTED)"
    by (auto simp: consent_from_row_def permitted_iff split: sum.splits)
  then show ?thesis unfolding consented_def by (blast intro: granted)
qed

text \<open>The columns that ingest writes always read back.\<close>

lemma consent_of_column_written [simp]: "consent_of_column (consent_column c) = Inr c"
  by (cases c) (simp_all add: consent_of_column_def consent_column_def)

text \<open>What is accepted is usable: digests, and a match key or a click.\<close>

lemma decide_usable:
  assumes "decide U P e signals raw = Accept h"
    and "\<And>h. ev_hashed_identifiers e = Some h \<Longrightarrow> usable e h"
  shows "usable e h" and "permitted (evaluate_consent signals)"
proof -
  have none: "decision_reason (evaluate_consent signals) = None"
    using assms(1) by (auto simp: decide_def split: option.splits)
  then show "permitted (evaluate_consent signals)" by (simp add: decision_reason_None_iff)
  show "usable e h"
  proof (cases "raw = no_identifiers \<and> ev_hashed_identifiers e \<noteq> None")
    case True
    with none assms show ?thesis by (auto simp: decide_def)
  next
    case False
    let ?r = "build_user_identifiers U P raw"
    have acc: "relevant_rejections e (rejections ?r) = []" "h = identifiers ?r"
      using False none assms(1)
      by (auto simp: decide_def Let_def split: option.splits bool.splits if_splits)
    have "truthy (ev_click_id e) \<or> has_match_key h"
    proof (rule ccontr)
      assume no: "\<not> ?thesis"
      then have "\<lparr>rej_field = lit ''identifiers'', rej_reason = NO_MATCH_KEY\<rparr> \<in> set (rejections ?r)"
        using acc(2) by (simp add: build_user_identifiers_def Let_def)
      moreover have "\<not> truthy (ev_click_id e)" using no by simp
      ultimately show False using acc(1) by (auto simp: relevant_rejections_def filter_empty_conv)
    qed
    with acc(2) show ?thesis by (simp add: usable_def build_hashed_ok)
  qed
qed

section \<open>Invariants through the processor\<close>

text \<open>An invariant that accepts the digests that the gate lets through.\<close>

locale worker_invariant = ledger_invariant +
  assumes accepts_gated: "gate_accepts e h \<Longrightarrow> accepts e h"
    and accepts_stored: "I db \<Longrightarrow> find_event db x = Some e \<Longrightarrow> ev_hashed_identifiers e = Some h \<Longrightarrow>
      consented e \<Longrightarrow> accepts e h"
begin

lemma accepted:
  assumes "I db" and "find_event db x = Some e" and "consent_from_row e = Inr signals"
    and "decide U P e signals raw = Accept h"
  shows "accepts e h"
proof (cases "ev_hashed_identifiers e = Some h")
  case True
  have "permitted (evaluate_consent signals)"
    using assms(4) by (auto simp: decide_def decision_reason_None_iff [symmetric] split: option.splits)
  with assms True show ?thesis by (blast intro: accepts_stored consent_from_row_granted)
next
  case False
  let ?e = "e\<lparr>ev_hashed_identifiers := None\<rparr>"
  have "decide U P ?e signals raw = Accept h"
    using assms(4) False
    by (auto simp: decide_def relevant_rejections_def Let_def split: option.splits bool.splits if_splits)
  then have "usable ?e h" "permitted (evaluate_consent signals)"
    by (rule decide_usable; simp)+
  moreover have "consented e" using assms(3) \<open>permitted _\<close> by (rule consent_from_row_granted)
  ultimately show ?thesis by (intro accepts_gated) (simp add: gate_accepts_def usable_def)
qed

lemma inv_apply_verdict:
  assumes "I db" and "find_event db x = Some e" and "ev_status e = QUEUED"
    and "consent_from_row e = Inr signals" and "v = decide U P e signals raw"
  shows "I (apply_verdict e now v db)"
proof -
  have found: "find_event db (ev_event_id e) = Some e"
    using assms(2) find_event_id by metis
  show ?thesis
  proof (cases v)
    case (Accept h)
    then have "accepts e h" using accepted assms by metis
    with Accept assms(1,3) found show ?thesis by (simp add: inv_processed)
  qed (use assms(1,3) found in \<open>simp_all add: inv_move\<close>)
qed

lemma keeps_process_message: "keeps (\<lambda>w. I (w_db w)) (process_message U P message now)"
proof (rule keepsI)
  fix w r w' assume I: "I (w_db w)" and run: "process_message U P message now w = (Inr r, w')"
  show "I (w_db w')"
  proof (cases "find_event (w_db w) (qm_event_id message)")
    case None
    with run I show ?thesis by (simp add: process_unknown)
  next
    case (Some e)
    show ?thesis
    proof (cases "ev_status e = QUEUED")
      case True
      show ?thesis
      proof (cases "consent_from_row e")
        case (Inl x)
        with Some True run show ?thesis by (simp add: process_bad_consent)
      next
        case (Inr signals)
        then show ?thesis
          using process_queued [OF Some True Inr, of U P now] run
            inv_apply_verdict [OF I Some True Inr refl]
          by (auto simp: Let_def)
      qed
    next
      case False
      with Some run I show ?thesis by (simp add: process_not_queued)
    qed
  qed
qed

end

interpretation audit: worker_invariant ledger_ok "\<lambda>_ _. True"
  by unfold_locales simp_all

interpretation history: worker_invariant "\<lambda>db. distinct_ids db \<and> evolves db0 db" "\<lambda>_ _. True" for db0
  by unfold_locales simp_all

interpretation letters: worker_invariant letters_ok "\<lambda>_ _. True"
  by unfold_locales simp_all

interpretation gate: worker_invariant gated gate_accepts
  by unfold_locales (auto simp: gate_accepts_def gated_def row_gated_def)

section \<open>worker.py\<close>

text \<open>
  One delivery: the transaction commits before the ack; any exception nacks. \<open>ack\<close> and \<open>nack\<close>
  are the consumer's.
\<close>

definition handle_delivery ::
  "ucd \<Rightarrow> 'n phonelib \<Rightarrow> (Delivery \<Rightarrow> ('q, exn, unit) se) \<Rightarrow> (Delivery \<Rightarrow> ('q, exn, unit) se) \<Rightarrow>
   Delivery \<Rightarrow> time \<Rightarrow> ('q, 'm, ProcessOutcome option) wse" where
  "handle_delivery U P ack nack delivery now =
     se_bind
       (se_try (se_bind (transaction (process_message U P (d_message delivery) now)) (\<lambda>x. se_return (Some x)))
          (\<lambda>_. se_bind (on_queue (nack delivery)) (\<lambda>_. se_return None)))
       (\<lambda>outcome. case outcome of
          None \<Rightarrow> se_return None
        | Some x \<Rightarrow> se_bind (on_queue (ack delivery)) (\<lambda>_. se_return (Some x)))"

text \<open>
  One iteration of the loop of \<open>run\<close>; \<open>clock d\<close> is \<open>datetime.now(UTC)\<close> when the delivery \<open>d\<close> is
  handled. \<open>worker_run\<close> is the loop until \<open>stop\<close> is set, which the model sees as the number of
  iterations.
\<close>

definition worker_iteration ::
  "ucd \<Rightarrow> 'n phonelib \<Rightarrow> (nat \<Rightarrow> ('q, exn, Delivery list) se) \<Rightarrow> (Delivery \<Rightarrow> ('q, exn, unit) se) \<Rightarrow>
   (Delivery \<Rightarrow> ('q, exn, unit) se) \<Rightarrow> nat \<Rightarrow> (Delivery \<Rightarrow> time) \<Rightarrow> ('q, 'm, unit) wse" where
  "worker_iteration U P receive ack nack batch_size clock =
     se_bind (on_queue (receive batch_size)) (\<lambda>deliveries.
     se_foreach deliveries (\<lambda>d.
       se_bind (handle_delivery U P ack nack d (clock d)) (\<lambda>_. se_return ())))"

primrec worker_run ::
  "ucd \<Rightarrow> 'n phonelib \<Rightarrow> (nat \<Rightarrow> ('q, exn, Delivery list) se) \<Rightarrow> (Delivery \<Rightarrow> ('q, exn, unit) se) \<Rightarrow>
   (Delivery \<Rightarrow> ('q, exn, unit) se) \<Rightarrow> nat \<Rightarrow> (Delivery \<Rightarrow> time) \<Rightarrow> nat \<Rightarrow> ('q, 'm, unit) wse" where
  "worker_run U P receive ack nack batch_size clock 0 = se_return ()"
| "worker_run U P receive ack nack batch_size clock (Suc n) =
     se_bind (worker_iteration U P receive ack nack batch_size clock) (\<lambda>_.
     worker_run U P receive ack nack batch_size clock n)"

context worker_invariant
begin

lemma preserves_handle_delivery:
  "preserves (\<lambda>w. I (w_db w)) (handle_delivery U P ack nack delivery now)"
  unfolding handle_delivery_def
  by (intro preserves_intro preserves_transaction keeps_process_message)

lemma preserves_worker_run:
  "preserves (\<lambda>w. I (w_db w)) (worker_run U P receive ack nack batch_size clock n)"
  by (induction n)
    (auto simp: worker_iteration_def intro!: preserves_intro preserves_handle_delivery)

end

text \<open>How one delivery ends.\<close>

lemma handle_delivery_committed:
  assumes "transaction (process_message U P (d_message d) now) w = (Inr x, w1)"
    and "ack d (w_queue w1) = (Inr (), q)"
  shows "handle_delivery U P ack nack d now w = (Inr (Some x), w1\<lparr>w_queue := q\<rparr>)"
  using assms(1) on_queue_run [where m = "ack d", OF assms(2)] by (simp add: handle_delivery_def se_try_def se_bind_def)

lemma handle_delivery_raised:
  assumes "transaction (process_message U P (d_message d) now) w = (Inl x, w1)"
    and "nack d (w_queue w1) = (Inr (), q)"
  shows "handle_delivery U P ack nack d now w = (Inr None, w1\<lparr>w_queue := q\<rparr>)"
  using assms(1) on_queue_run [where m = "nack d", OF assms(2)] by (simp add: handle_delivery_def se_try_def se_bind_def)

lemma queue_unchanged_on_db: "preserves (\<lambda>w. w_queue w = q) (on_db m)"
  by (auto simp: preserves_def on_db_def split: prod.splits)

lemma queue_unchanged_inc: "preserves (\<lambda>w. w_queue w = q) (inc s)"
  by (simp add: preserves_def)

lemma process_message_queue: "preserves (\<lambda>w. w_queue w = q) (process_message U P message now)"
  unfolding process_message_def Let_def
  by (intro preserves_intro queue_unchanged_on_db queue_unchanged_inc)

lemma transaction_queue:
  "preserves (\<lambda>w. w_queue w = q) m \<Longrightarrow> preserves (\<lambda>w. w_queue w = q) (transaction m)"
  by (auto simp: preserves_def transaction_def split: prod.splits sum.splits)

text \<open>
  At-least-once: on any transport that keeps the contract, a delivery ends in one of two ways.
  Either the transaction committed and the message is gone from the queue, or nothing was
  committed and the queue still has it.
\<close>

context queue_transport
begin

lemma delivery_settled:
  assumes "ok (w_queue w)" and "holds (w_queue w) d"
    and "handle_delivery U P ack nack d now w = (r, w')"
  shows "ok (w_queue w')"
    and "(\<exists>x. r = Inr (Some x) \<and>
            add_mset (d_message d) (unacked (w_queue w')) = unacked (w_queue w)) \<or>
         (r = Inr None \<and> w_db w' = w_db w \<and> unacked (w_queue w') = unacked (w_queue w))"
    and "holds (w_queue w) c \<Longrightarrow> d_ack_id c \<noteq> d_ack_id d \<Longrightarrow> holds (w_queue w') c"
proof -
  obtain r1 w1 where run: "transaction (process_message U P (d_message d) now) w = (r1, w1)"
    by fastforce
  have q1: "w_queue w1 = w_queue w"
    using preservesD [OF transaction_queue [OF process_message_queue] _ run] by blast
  obtain ra qa where a: "ack d (w_queue w) = (ra, qa)" by fastforce
  obtain rn qn where n: "nack d (w_queue w) = (rn, qn)" by fastforce
  note fin = ack_done [OF assms(1,2) a] nack_done [OF assms(1,2) n]
  have "ok (w_queue w') \<and> ((\<exists>x. r = Inr (Some x) \<and>
            add_mset (d_message d) (unacked (w_queue w')) = unacked (w_queue w)) \<or>
         (r = Inr None \<and> w_db w' = w_db w \<and> unacked (w_queue w') = unacked (w_queue w))) \<and>
      (w_queue w' = qa \<or> w_queue w' = qn)"
  proof (cases r1)
    case (Inl e)
    have "nack d (w_queue w1) = (Inr (), qn)" using n fin q1 by simp
    with run Inl have "handle_delivery U P ack nack d now w = (Inr None, w1\<lparr>w_queue := qn\<rparr>)"
      by (intro handle_delivery_raised) simp_all
    with assms(3) fin transaction_Inl run Inl show ?thesis by fastforce
  next
    case (Inr x)
    have "ack d (w_queue w1) = (Inr (), qa)" using a fin q1 by simp
    with run Inr have "handle_delivery U P ack nack d now w = (Inr (Some x), w1\<lparr>w_queue := qa\<rparr>)"
      by (intro handle_delivery_committed) simp_all
    with assms(3) fin show ?thesis by auto
  qed
  then show "ok (w_queue w')"
    and "(\<exists>x. r = Inr (Some x) \<and>
            add_mset (d_message d) (unacked (w_queue w')) = unacked (w_queue w)) \<or>
         (r = Inr None \<and> w_db w' = w_db w \<and> unacked (w_queue w') = unacked (w_queue w))"
    and "holds (w_queue w) c \<Longrightarrow> d_ack_id c \<noteq> d_ack_id d \<Longrightarrow> holds (w_queue w') c"
    using other_held [OF assms(1,2)] a n by blast+
qed

end

section \<open>What the gate decides\<close>

text \<open>
  evaluate_consent permits exactly when both signals are GRANTED; anything else is refused with
  the reason of the first signal that is not GRANTED, which tells denied, unspecified and missing
  apart, and the stored column values read back to the same signals.
\<close>

lemma consent_gate_fails_closed:
  shows "permitted (evaluate_consent c) \<longleftrightarrow>
      ad_user_data c = Some GRANTED \<and> ad_personalization c = Some GRANTED"
    and "decision_reason (evaluate_consent c) =
      (if ad_user_data c \<noteq> Some GRANTED
       then Some (case ad_user_data c of None \<Rightarrow> AD_USER_DATA_MISSING | Some DENIED \<Rightarrow> AD_USER_DATA_DENIED
                  | Some _ \<Rightarrow> AD_USER_DATA_UNSPECIFIED)
       else if ad_personalization c \<noteq> Some GRANTED
       then Some (case ad_personalization c of None \<Rightarrow> AD_PERSONALIZATION_MISSING
                  | Some DENIED \<Rightarrow> AD_PERSONALIZATION_DENIED | Some _ \<Rightarrow> AD_PERSONALIZATION_UNSPECIFIED)
       else None)"
    and "consent_from_row (validated_row event now) = Inr (\<lparr>ad_user_data = ad_user_data (ce_consent event),
      ad_personalization = ad_personalization (ce_consent event)\<rparr>)"
proof -
  show "permitted (evaluate_consent c) \<longleftrightarrow>
      ad_user_data c = Some GRANTED \<and> ad_personalization c = Some GRANTED" by (rule permitted_iff)
  show "decision_reason (evaluate_consent c) =
      (if ad_user_data c \<noteq> Some GRANTED
       then Some (case ad_user_data c of None \<Rightarrow> AD_USER_DATA_MISSING | Some DENIED \<Rightarrow> AD_USER_DATA_DENIED
                  | Some _ \<Rightarrow> AD_USER_DATA_UNSPECIFIED)
       else if ad_personalization c \<noteq> Some GRANTED
       then Some (case ad_personalization c of None \<Rightarrow> AD_PERSONALIZATION_MISSING
                  | Some DENIED \<Rightarrow> AD_PERSONALIZATION_DENIED | Some _ \<Rightarrow> AD_PERSONALIZATION_UNSPECIFIED)
       else None)"
    by (auto simp: evaluate_consent_def blocking_reason_def split: option.splits ConsentStatus.splits)
  show "consent_from_row (validated_row event now) = Inr (\<lparr>ad_user_data = ad_user_data (ce_consent event),
      ad_personalization = ad_personalization (ce_consent event)\<rparr>)"
    by (simp add: consent_from_row_def validated_row_def)
qed

end
