(* ===== verification/Batching.thy ===== *)
theory Batching
  imports World
begin

text \<open>
  \<open>gateway/upload/classifier.py\<close> and \<open>gateway/upload/batcher.py\<close>: which failures are worth a
  retry, and the accumulator that hands out batches by size or by age.
\<close>

section \<open>classifier.py\<close>

datatype FailureClass = TRANSIENT | PARTIAL | PERMANENT | POISON

fun failure_value :: "FailureClass \<Rightarrow> pystr" where
  "failure_value TRANSIENT = lit ''transient''"
| "failure_value PARTIAL = lit ''partial''"
| "failure_value PERMANENT = lit ''permanent''"
| "failure_value POISON = lit ''poison''"

definition TRANSIENT_STATUSES :: "nat set" where
  "TRANSIENT_STATUSES = {408, 429, 500, 502, 503, 504}"

definition classify_http_status :: "nat \<Rightarrow> FailureClass" where
  "classify_http_status status_code = (if status_code \<in> TRANSIENT_STATUSES then TRANSIENT else PERMANENT)"

definition RETRYABLE_ROW_ERRORS :: "pystr set" where
  "RETRYABLE_ROW_ERRORS = {lit ''TOO_RECENT_CONVERSION''}"

definition classify_row_error :: "pystr \<Rightarrow> FailureClass" where
  "classify_row_error error_code = (if error_code \<in> RETRYABLE_ROW_ERRORS then TRANSIENT else PERMANENT)"

section \<open>batcher.py\<close>

record 'a batcher =
  b_max_size :: nat
  b_max_wait :: duration
  b_items :: "'a list"
  b_oldest_at :: "time option"

definition new_batcher :: "int \<Rightarrow> duration \<Rightarrow> exn + 'a batcher" where
  "new_batcher max_size max_wait =
     (if max_size < 1 then Inl ValueError
      else Inr \<lparr>b_max_size = nat max_size, b_max_wait = max_wait, b_items = [], b_oldest_at = None\<rparr>)"

text \<open>The methods return their result and the object they leave.\<close>

definition batcher_flush :: "'a batcher \<Rightarrow> 'a list \<times> 'a batcher" where
  "batcher_flush b = (b_items b, b\<lparr>b_items := [], b_oldest_at := None\<rparr>)"

definition batcher_add :: "'a \<Rightarrow> time \<Rightarrow> 'a batcher \<Rightarrow> 'a list option \<times> 'a batcher" where
  "batcher_add item now b =
     (let b1 = (if b_oldest_at b = None then b\<lparr>b_oldest_at := Some now\<rparr> else b);
          b2 = b1\<lparr>b_items := b_items b1 @ [item]\<rparr>
      in if length (b_items b2) \<ge> b_max_size b2
         then (case batcher_flush b2 of (batch, b3) \<Rightarrow> (Some batch, b3))
         else (None, b2))"

definition batcher_flush_if_due :: "time \<Rightarrow> 'a batcher \<Rightarrow> 'a list option \<times> 'a batcher" where
  "batcher_flush_if_due now b =
     (case b_oldest_at b of
        None \<Rightarrow> (None, b)
      | Some oldest \<Rightarrow>
          if now - oldest \<ge> b_max_wait b
          then (case batcher_flush b of (batch, b') \<Rightarrow> (Some batch, b'))
          else (None, b))"

section \<open>The batcher never overfills and loses nothing\<close>

definition batcher_ok :: "'a batcher \<Rightarrow> bool" where
  "batcher_ok b \<longleftrightarrow>
     0 < b_max_size b \<and> length (b_items b) < b_max_size b \<and> (b_oldest_at b = None \<longleftrightarrow> b_items b = [])"

lemma new_batcher_ok: "new_batcher n d = Inr b \<Longrightarrow> batcher_ok b"
  by (auto simp: new_batcher_def batcher_ok_def split: if_splits)

lemma batcher_add_ok:
  assumes "batcher_ok b" and "batcher_add x now b = (r, b')"
  shows "batcher_ok b'" and "b_max_size b' = b_max_size b"
    and "r = None \<Longrightarrow> b_items b' = b_items b @ [x]"
    and "r = Some batch \<Longrightarrow> batch = b_items b @ [x] \<and> length batch = b_max_size b \<and> b_items b' = []"
  using assms
  by (auto simp: batcher_add_def batcher_flush_def batcher_ok_def Let_def split: if_splits)

lemma batcher_flush_if_due_ok:
  assumes "batcher_ok b" and "batcher_flush_if_due now b = (r, b')"
  shows "batcher_ok b'" and "b_max_size b' = b_max_size b"
    and "r = None \<Longrightarrow> b' = b"
    and "r = Some batch \<Longrightarrow> batch = b_items b \<and> batch \<noteq> [] \<and> b_items b' = [] \<and>
      (\<exists>oldest. b_oldest_at b = Some oldest \<and> now - oldest \<ge> b_max_wait b)"
  using assms
  by (auto simp: batcher_flush_if_due_def batcher_flush_def batcher_ok_def split: option.splits if_splits)

text \<open>Feeding a batcher a sequence of items: the batches it returns, in order.\<close>

fun feed :: "('a \<times> time) list \<Rightarrow> 'a batcher \<Rightarrow> 'a list list \<times> 'a batcher" where
  "feed [] b = ([], b)"
| "feed ((x, now) # xs) b =
     (case batcher_add x now b of
        (r, b1) \<Rightarrow> (case feed xs b1 of (bs, b2) \<Rightarrow> ((case r of None \<Rightarrow> bs | Some batch \<Rightarrow> batch # bs), b2)))"

lemma feed_ok:
  assumes "batcher_ok b" and "feed xs b = (bs, b')"
  shows "concat bs @ b_items b' = b_items b @ map fst xs \<and> batcher_ok b' \<and>
    (\<forall>batch \<in> set bs. length batch = b_max_size b)"
  using assms
proof (induction xs arbitrary: b bs b')
  case (Cons p xs)
  obtain x now where p: "p = (x, now)" by fastforce
  obtain r b1 where add: "batcher_add x now b = (r, b1)" by fastforce
  obtain bs1 b2 where rest: "feed xs b1 = (bs1, b2)" by fastforce
  note ok = batcher_add_ok [OF Cons.prems(1) add]
  have IH: "concat bs1 @ b_items b2 = b_items b1 @ map fst xs \<and> batcher_ok b2 \<and>
      (\<forall>batch \<in> set bs1. length batch = b_max_size b1)"
    using Cons.IH [OF ok(1) rest] .
  show ?case
  proof (cases r)
    case None
    with Cons.prems(2) p add rest IH ok show ?thesis by auto
  next
    case (Some batch)
    with Cons.prems(2) p add rest IH ok show ?thesis by fastforce
  qed
qed simp

end
