(* ===== verification/Dlq.thy ===== *)
theory Dlq
  imports Processor Batching
begin

text \<open>
  \<open>gateway/dlq/store.py\<close>: writing to, listing and replaying from the dead-letter store. The ORM
  objects \<open>event\<close> and \<open>row\<close> are denoted by their keys; \<open>publish\<close> is the queue publisher.
\<close>

section \<open>Dead-lettering\<close>

definition history_of :: "event_transition list \<Rightarrow> history_entry list" where
  "history_of ts =
     map (\<lambda>t. \<lparr>he_at = tr_occurred_at t, he_status = tr_to_status t, he_reason = tr_reason t\<rparr>) ts"

text \<open>\<open>(error_message or "")[:1024] or None\<close>\<close>

definition clip_message :: "pystr option \<Rightarrow> pystr option" where
  "clip_message message =
     (let s = take 1024 (case message of None \<Rightarrow> [] | Some m \<Rightarrow> m) in if s = [] then None else Some s)"

definition dead_letter_row ::
  "event \<Rightarrow> FailureClass \<Rightarrow> pystr \<Rightarrow> pystr option \<Rightarrow> pystr option \<Rightarrow> json \<Rightarrow> history_entry list \<Rightarrow> time \<Rightarrow>
   dead_letter" where
  "dead_letter_row event failure_class reason error_code error_message payload history now =
     \<lparr>dl_id = 0,
      dl_event_id = ev_event_id event,
      dl_source = ev_source event,
      dl_conversion_action = ev_conversion_action event,
      dl_dead_lettered_at = now,
      dl_failure_class = failure_value failure_class,
      dl_reason = reason,
      dl_platform_error_code = error_code,
      dl_platform_error_message = clip_message error_message,
      dl_payload = payload,
      dl_attempt_history = history,
      dl_replayed_at = None,
      dl_replay_count = 0\<rparr>"

text \<open>\<open>list_transitions\<close> is a query, so the pending transition is flushed before it runs.\<close>

definition dead_letter ::
  "pystr \<Rightarrow> FailureClass \<Rightarrow> pystr \<Rightarrow> pystr option \<Rightarrow> pystr option \<Rightarrow> json \<Rightarrow> time \<Rightarrow> ('q, 'm, unit) wse" where
  "dead_letter eid failure_class reason error_code error_message payload now =
     se_bind (on_db (transition eid DEAD_LETTERED (Some reason) now)) (\<lambda>_.
     se_bind (on_db flush) (\<lambda>_.
     se_bind (on_db (se_gets (\<lambda>db. list_transitions db eid))) (\<lambda>ts.
     se_bind (on_db (the_event eid)) (\<lambda>event.
     se_bind (on_db (se_modify (add_dead_letter
       (dead_letter_row event failure_class reason error_code error_message payload (history_of ts) now)))) (\<lambda>_.
     inc (conversions_dead_lettered_total (ev_source event) (unknown (ev_conversion_action event))
            (failure_value failure_class)))))))"

section \<open>Listing\<close>

record DlqFilter =
  f_event_id :: "pystr option"
  f_source :: "pystr option"
  f_failure_class :: "pystr option"
  f_reason_prefix :: "pystr option"
  f_since :: "time option"
  f_until :: "time option"
  f_include_replayed :: bool

text \<open>
  SQL's \<open>LIKE\<close>: \<open>%\<close> matches any string, \<open>_\<close> any character, a backslash quotes the next
  character. \<open>column.startswith(prefix)\<close> is \<open>column LIKE prefix || '%'\<close> with nothing quoted.
\<close>

definition PERCENT :: codepoint where "PERCENT = 37"
definition UNDERSCORE :: codepoint where "UNDERSCORE = 95"
definition BACKSLASH :: codepoint where "BACKSLASH = 92"

function sql_like :: "pystr \<Rightarrow> pystr \<Rightarrow> bool" where
  "sql_like [] s \<longleftrightarrow> s = []"
| "sql_like (p # ps) s \<longleftrightarrow>
     (if p = PERCENT then sql_like ps s \<or> (case s of [] \<Rightarrow> False | c # cs \<Rightarrow> sql_like (p # ps) cs)
      else case s of
             [] \<Rightarrow> False
           | c # cs \<Rightarrow>
               if p = UNDERSCORE then sql_like ps cs
               else if p = BACKSLASH \<and> ps \<noteq> [] then c = hd ps \<and> sql_like (tl ps) cs
               else c = p \<and> sql_like ps cs)"
  by pat_completeness auto
termination by (relation "measure (\<lambda>(ps, s). length ps + length s)") auto

declare sql_like.simps(2) [simp del]

definition sql_startswith :: "pystr \<Rightarrow> pystr \<Rightarrow> bool" where
  "sql_startswith pre s = sql_like (pre @ [PERCENT]) s"

definition opt_filter :: "'a list option \<Rightarrow> ('a list \<Rightarrow> bool) \<Rightarrow> bool" where
  "opt_filter v p = (case v of None \<Rightarrow> True | Some s \<Rightarrow> s = [] \<or> p s)"

definition dlq_matches :: "DlqFilter \<Rightarrow> dead_letter \<Rightarrow> bool" where
  "dlq_matches flt d \<longleftrightarrow>
     (f_include_replayed flt \<or> dl_replayed_at d = None) \<and>
     opt_filter (f_event_id flt) (\<lambda>v. dl_event_id d = v) \<and>
     opt_filter (f_source flt) (\<lambda>v. dl_source d = v) \<and>
     opt_filter (f_failure_class flt) (\<lambda>v. dl_failure_class d = v) \<and>
     opt_filter (f_reason_prefix flt) (\<lambda>v. sql_startswith v (dl_reason d)) \<and>
     (case f_since flt of None \<Rightarrow> True | Some t \<Rightarrow> dl_dead_lettered_at d \<ge> t) \<and>
     (case f_until flt of None \<Rightarrow> True | Some t \<Rightarrow> dl_dead_lettered_at d < t)"

definition list_dead_letters :: "store \<Rightarrow> DlqFilter \<Rightarrow> nat \<Rightarrow> dead_letter list" where
  "list_dead_letters db flt limit =
     take limit (sort_key (\<lambda>d. - dl_dead_lettered_at d) (filter (dlq_matches flt) (dead_letters db)))"

text \<open>\<open>SELECT source, count(*) ... WHERE replayed_at IS NULL GROUP BY source\<close>\<close>

definition open_depth_by_source :: "store \<Rightarrow> (pystr \<times> nat) list" where
  "open_depth_by_source db =
     (let open_rows = filter (\<lambda>d. dl_replayed_at d = None) (dead_letters db)
      in map (\<lambda>s. (s, length (filter (\<lambda>d. dl_source d = s) open_rows))) (remdups (map dl_source open_rows)))"

section \<open>Replaying\<close>

definition replay ::
  "(QueueMessage \<Rightarrow> ('q, exn, unit) se) \<Rightarrow> nat \<Rightarrow> time \<Rightarrow> ('q, 'm, bool) wse" where
  "replay publish dlq_id now =
     se_bind (on_db (se_gets (\<lambda>db. find_dead_letter db dlq_id))) (\<lambda>found.
       case found of
         None \<Rightarrow> se_raise AssertionError
       | Some row \<Rightarrow>
           if dl_replayed_at row \<noteq> None then se_return False
           else
             se_bind (on_db (get_event (dl_event_id row))) (\<lambda>r.
               case r of
                 None \<Rightarrow> se_return False
               | Some event \<Rightarrow>
                   if ev_status event \<noteq> DEAD_LETTERED then se_return False
                   else
                     se_bind (on_db (transition (ev_event_id event) QUEUED
                       (Some (lit ''replayed:dlq:'' @ str_of_nat (dl_id row))) now)) (\<lambda>_.
                     se_bind (on_db (set_event (ev_event_id event)
                       (\<lambda>e. e\<lparr>ev_attempt_count := 0, ev_last_attempt_at := None\<rparr>))) (\<lambda>_.
                     se_bind (on_db (se_modify (update_dead_letter dlq_id
                       (\<lambda>d. d\<lparr>dl_replayed_at := Some now, dl_replay_count := dl_replay_count d + 1\<rparr>)))) (\<lambda>_.
                     se_bind (on_queue (publish
                       \<lparr>qm_event_id = ev_event_id event, qm_identifiers = no_identifiers,
                        qm_enqueued_at = now, qm_correlation_id = ev_correlation_id event\<rparr>)) (\<lambda>_.
                     se_return True)))))) "

section \<open>What dead-lettering does\<close>

text \<open>The audit log of the row, the new line included.\<close>

definition dead_history :: "event \<Rightarrow> pystr \<Rightarrow> time \<Rightarrow> store \<Rightarrow> history_entry list" where
  "dead_history e reason now db =
     history_of (list_transitions (moved e DEAD_LETTERED (Some reason) now db) (ev_event_id e))"

definition dead_lettered ::
  "event \<Rightarrow> FailureClass \<Rightarrow> pystr \<Rightarrow> pystr option \<Rightarrow> pystr option \<Rightarrow> json \<Rightarrow> time \<Rightarrow> store \<Rightarrow> store" where
  "dead_lettered e fc reason code msg payload now db =
     add_dead_letter (dead_letter_row e fc reason code msg payload (dead_history e reason now db) now)
       (moved e DEAD_LETTERED (Some reason) now db)"

lemma dead_letter_row_status [simp]:
  "dead_letter_row (e\<lparr>ev_status := s, ev_status_reason := r\<rparr>) fc reason code msg payload hs now =
   dead_letter_row e fc reason code msg payload hs now"
  by (simp add: dead_letter_row_def)

lemma flush_run: "flush db = (if store_fits db then (Inr (), db) else (Inl DataError, db))"
  by (simp add: flush_def)

lemma on_db_flush: "on_db flush w = (if store_fits (w_db w) then (Inr (), w) else (Inl DataError, w))"
  by (simp add: on_db_def flush_run)

lemma on_db_modify: "on_db (se_modify f) w = (Inr (), w\<lparr>w_db := f (w_db w)\<rparr>)"
  by (simp add: on_db_def)

lemma on_db_the_event:
  "find_event (w_db w) x = Some e \<Longrightarrow> on_db (the_event x) w = (Inr e, w)"
  by (simp add: on_db_def the_event_run)

lemma dead_letter_run:
  assumes "find_event (w_db w) x = Some e"
  shows "dead_letter x fc reason code msg payload now w =
    (if DEAD_LETTERED \<notin> ALLOWED_TRANSITIONS (ev_status e)
     then (Inl (IllegalTransition x (ev_status e) DEAD_LETTERED), w)
     else if \<not> store_fits (moved e DEAD_LETTERED (Some reason) now (w_db w))
     then (Inl DataError, w\<lparr>w_db := moved e DEAD_LETTERED (Some reason) now (w_db w)\<rparr>)
     else (Inr (), w\<lparr>w_db := dead_lettered e fc reason code msg payload now (w_db w),
             w_metrics := count_series [conversions_dead_lettered_total (ev_source e)
               (unknown (ev_conversion_action e)) (failure_value fc)] (w_metrics w)\<rparr>))"
proof -
  have id: "x = ev_event_id e" using assms by (simp add: find_event_id)
  show ?thesis
  proof (cases "DEAD_LETTERED \<in> ALLOWED_TRANSITIONS (ev_status e)")
    case False
    with assms show ?thesis
      by (simp add: dead_letter_def se_bind_def on_db_def transition_run)
  next
    case True
    let ?w = "w\<lparr>w_db := moved e DEAD_LETTERED (Some reason) now (w_db w)\<rparr>"
    have "on_db (transition x DEAD_LETTERED (Some reason) now) w = (Inr (), ?w)"
      using assms True by (intro on_db_run transition_ok)
    moreover have "find_event (w_db ?w) x = Some (e\<lparr>ev_status := DEAD_LETTERED, ev_status_reason := Some reason\<rparr>)"
      using assms id by (simp add: find_event_moved)
    ultimately show ?thesis
      using True id
      by (simp add: dead_letter_def se_bind_def on_db_flush on_db_gets on_db_the_event on_db_modify
          dead_lettered_def dead_history_def)
  qed
qed

lemma dead_letter_missing:
  "find_event (w_db w) x = None \<Longrightarrow>
   dead_letter x fc reason code msg payload now w = (Inl AssertionError, w)"
  by (simp add: dead_letter_def se_bind_def on_db_def transition_run)

lemma find_event_dead_lettered:
  "find_event (dead_lettered e fc reason code msg payload now db) x =
     (if x = ev_event_id e
      then map_option (\<lambda>e. e\<lparr>ev_status := DEAD_LETTERED, ev_status_reason := Some reason\<rparr>) (find_event db x)
      else find_event db x)"
  by (simp add: dead_lettered_def find_event_moved)

section \<open>What replaying does\<close>

definition replay_message :: "event \<Rightarrow> time \<Rightarrow> QueueMessage" where
  "replay_message e now =
     \<lparr>qm_event_id = ev_event_id e, qm_identifiers = no_identifiers, qm_enqueued_at = now,
      qm_correlation_id = ev_correlation_id e\<rparr>"

definition replayed :: "event \<Rightarrow> nat \<Rightarrow> time \<Rightarrow> store \<Rightarrow> store" where
  "replayed e i now db =
     update_dead_letter i (\<lambda>d. d\<lparr>dl_replayed_at := Some now, dl_replay_count := dl_replay_count d + 1\<rparr>)
       (update_event (ev_event_id e) (\<lambda>e. e\<lparr>ev_attempt_count := 0, ev_last_attempt_at := None\<rparr>)
         (moved e QUEUED (Some (lit ''replayed:dlq:'' @ str_of_nat i)) now db))"

lemma find_dead_letter_id: "find_dead_letter db i = Some d \<Longrightarrow> dl_id d = i"
  by (auto simp: find_dead_letter_def dest: find_SomeD)

lemma replay_run:
  assumes "find_dead_letter (w_db w) i = Some d"
  shows "replay publish i now w =
    (if dl_replayed_at d \<noteq> None then (Inr False, w)
     else case find_event (w_db w) (dl_event_id d) of
       None \<Rightarrow> (Inr False, w)
     | Some e \<Rightarrow>
         if ev_status e \<noteq> DEAD_LETTERED then (Inr False, w)
         else (case publish (replay_message e now) (w_queue w) of
             (Inl x, q) \<Rightarrow> (Inl x, w\<lparr>w_db := replayed e i now (w_db w), w_queue := q\<rparr>)
           | (Inr u, q) \<Rightarrow> (Inr True, w\<lparr>w_db := replayed e i now (w_db w), w_queue := q\<rparr>)))"
proof (cases "dl_replayed_at d = None")
  case False
  with assms show ?thesis by (simp add: replay_def se_bind_def on_db_gets)
next
  case True
  show ?thesis
  proof (cases "find_event (w_db w) (dl_event_id d)")
    case None
    with True assms show ?thesis by (simp add: replay_def se_bind_def on_db_gets on_db_get_event)
  next
    case (Some e)
    then have id: "dl_event_id d = ev_event_id e" by (simp add: find_event_id)
    show ?thesis
    proof (cases "ev_status e = DEAD_LETTERED")
      case False
      with True Some assms show ?thesis
        by (simp add: replay_def se_bind_def on_db_gets on_db_get_event)
    next
      case dead: True
      let ?reason = "Some (lit ''replayed:dlq:'' @ str_of_nat i)"
      have "on_db (transition (ev_event_id e) QUEUED ?reason now) w =
          (Inr (), w\<lparr>w_db := moved e QUEUED ?reason now (w_db w)\<rparr>)"
        using Some dead id by (intro on_db_run transition_ok) simp_all
      moreover have "on_db (set_event x f) v = (Inr (), v\<lparr>w_db := update_event x f (w_db v)\<rparr>)"
        for x f and v :: "('a, 'b) world_scheme"
        by (simp add: set_event_def on_db_modify)
      ultimately show ?thesis
        using True Some dead id assms find_dead_letter_id [OF assms]
        by (simp add: replay_def se_bind_def on_db_gets on_db_get_event on_db_modify on_queue_def
            replayed_def replay_message_def split: prod.splits sum.splits)
    qed
  qed
qed

section \<open>Invariants through the dead-letter store\<close>

context ledger_invariant
begin

lemma inv_dead_lettered:
  assumes "I db" and "find_event db x = Some e" and "DEAD_LETTERED \<in> ALLOWED_TRANSITIONS (ev_status e)"
  shows "I (dead_lettered e fc reason code msg payload now db)"
  unfolding dead_lettered_def using assms find_event_id [OF assms(2)]
  by (intro inv_dead_letter) (simp_all add: dead_letter_row_def)

lemma keeps_dead_letter: "keeps (\<lambda>w. I (w_db w)) (dead_letter x fc reason code msg payload now)"
proof (rule keepsI)
  fix w :: "('a, 'b) world_scheme" and u w'
  assume I: "I (w_db w)" and run: "dead_letter x fc reason code msg payload now w = (Inr u, w')"
  then obtain e where e: "find_event (w_db w) x = Some e"
    by (cases "find_event (w_db w) x") (simp_all add: dead_letter_missing)
  with run inv_dead_lettered [OF I e] show "I (w_db w')"
    by (auto simp: dead_letter_run [OF e] split: if_splits)
qed

lemma inv_replayed:
  assumes "I db" and "find_event db (dl_event_id d) = Some e" and "ev_status e = DEAD_LETTERED"
    and "find_dead_letter db i = Some d" and "dl_replayed_at d = None"
  shows "I (replayed e i now db)"
proof -
  have id: "dl_event_id d = ev_event_id e" using assms(2) by (simp add: find_event_id)
  have eq: "replayed e i now db =
      update_event (ev_event_id e) (\<lambda>e. e\<lparr>ev_attempt_count := 0, ev_last_attempt_at := None\<rparr>)
        (update_dead_letter i (\<lambda>d. d\<lparr>dl_replayed_at := Some now, dl_replay_count := dl_replay_count d + 1\<rparr>)
          (moved e QUEUED (Some (lit ''replayed:dlq:'' @ str_of_nat i)) now db))"
    by (simp add: replayed_def update_event_def update_dead_letter_def)
  show ?thesis
    unfolding eq using assms id
    by (intro inv_attempt [OF assms(1)] inv_replay [where d = d]) (auto simp: moved_def)
qed

lemma keeps_replay: "keeps (\<lambda>w. I (w_db w)) (replay publish i now)"
proof (rule keepsI)
  fix w :: "('a, 'b) world_scheme" and u w'
  assume I: "I (w_db w)" and run: "replay publish i now w = (Inr u, w')"
  show "I (w_db w')"
  proof (cases "find_dead_letter (w_db w) i")
    case None
    with run show ?thesis by (simp add: replay_def se_bind_def on_db_gets)
  next
    case (Some d)
    show ?thesis
    proof (cases "find_event (w_db w) (dl_event_id d)")
      case None
      with run I show ?thesis by (simp add: replay_run [OF Some] split: if_splits)
    next
      case (Some e)
      with run I inv_replayed [OF I Some _ \<open>find_dead_letter (w_db w) i = Some d\<close>] show ?thesis
        by (auto simp: replay_run [OF \<open>find_dead_letter (w_db w) i = Some d\<close>]
            split: if_splits prod.splits sum.splits)
    qed
  qed
qed

end

end
