(* ===== verification/Conversion.thy ===== *)
theory Conversion
  imports History
begin

text \<open>
  \<open>gateway/upload/conversion.py\<close>: the platform's conversion row, as JSON, from a ledger row.
\<close>

section \<open>Formatting\<close>

text \<open>Decimal digits, padded with zeros on the left.\<close>

definition pad_digits :: "nat \<Rightarrow> nat \<Rightarrow> pystr" where
  "pad_digits w n = (let d = digits_of_nat n in replicate (w - length d) 48 @ d)"

text \<open>\<open>+hh:mm\<close>; a naive time has no offset. Offsets are whole minutes in the model.\<close>

definition format_offset :: "int option \<Rightarrow> pystr" where
  "format_offset offset =
     (case offset of
        None \<Rightarrow> []
      | Some m \<Rightarrow>
          (if m < 0 then lit ''-'' else lit ''+'') @ pad_digits 2 (nat (\<bar>m\<bar> div 60)) @ lit '':'' @
          pad_digits 2 (nat (\<bar>m\<bar> mod 60)))"

text \<open>\<open>when.replace(microsecond=0).isoformat(sep=" ")\<close>\<close>

definition format_conversion_time :: "datetime \<Rightarrow> pystr" where
  "format_conversion_time t =
     pad_digits 4 (dt_year t) @ lit ''-'' @ pad_digits 2 (dt_month t) @ lit ''-'' @ pad_digits 2 (dt_day t) @
     lit '' '' @ pad_digits 2 (dt_hour t) @ lit '':'' @ pad_digits 2 (dt_minute t) @ lit '':'' @
     pad_digits 2 (dt_second t) @ format_offset (dt_utcoffset t)"

definition conversion_action_resource :: "pystr \<Rightarrow> pystr \<Rightarrow> pystr" where
  "conversion_action_resource customer_id conversion_action =
     lit ''customers/'' @ customer_id @ lit ''/conversionActions/'' @ conversion_action"

text \<open>
  \<open>float(Decimal)\<close>: the nearest number with 53 significant bits, ties to even. The value has at
  most six decimals and is below \<open>10^12\<close>, so \<open>2 ^ k\<close> with \<open>k\<close> between 53 and 200 brackets the value
  scaled by \<open>2 ^ 80\<close>.
\<close>

definition round_half_even :: "rat \<Rightarrow> int" where
  "round_half_even x =
     (let f = \<lfloor>x\<rfloor>; d = x - of_int f
      in if d < 1 / 2 then f else if d > 1 / 2 then f + 1 else if even f then f else f + 1)"

definition py_float :: "rat \<Rightarrow> rat" where
  "py_float v =
     (case find (\<lambda>k. \<bar>v\<bar> * 2 ^ 80 < 2 ^ k) [53..<200] of
        None \<Rightarrow> v
      | Some k \<Rightarrow> of_int (round_half_even (v * 2 ^ 80 / 2 ^ (k - 53))) * 2 ^ (k - 53) / 2 ^ 80)"

section \<open>The conversion row\<close>

text \<open>\<open>if hashed.get(k): d[theirs] = hashed[k]\<close>\<close>

definition json_entry :: "string \<Rightarrow> pystr option \<Rightarrow> (pystr \<times> json) list" where
  "json_entry key v = (case v of None \<Rightarrow> [] | Some s \<Rightarrow> if s = [] then [] else [(lit key, JStr s)])"

definition address_entries :: "HashedIdentifiers \<Rightarrow> (pystr \<times> json) list" where
  "address_entries h =
     json_entry ''hashedFirstName'' (hashed_given_name h) @
     json_entry ''hashedLastName'' (hashed_family_name h) @
     json_entry ''hashedStreetAddress'' (hashed_street_address h) @
     json_entry ''city'' (id_city h) @
     json_entry ''state'' (id_region h) @
     json_entry ''postalCode'' (id_postal_code h) @
     json_entry ''countryCode'' (id_country h)"

definition user_identifiers :: "HashedIdentifiers option \<Rightarrow> json list" where
  "user_identifiers hashed =
     (case hashed of
        None \<Rightarrow> []
      | Some h \<Rightarrow>
          let email = json_entry ''hashedEmail'' (hashed_email h);
              phone = json_entry ''hashedPhoneNumber'' (hashed_phone h);
              address = address_entries h;
              keys = map fst address
          in (if email \<noteq> [] then [JObj email] else []) @
             (if phone \<noteq> [] then [JObj phone] else []) @
             (if list_all (\<lambda>k. lit k \<in> set keys)
                   [''hashedFirstName'', ''hashedLastName'', ''postalCode'', ''countryCode'']
              then [JObj [(lit ''addressInfo'', JObj address)]] else []))"

definition json_of_option :: "pystr option \<Rightarrow> json" where
  "json_of_option v = (case v of None \<Rightarrow> JNull | Some s \<Rightarrow> JStr s)"

definition build_conversion :: "event \<Rightarrow> pystr \<Rightarrow> exn + json" where
  "build_conversion event customer_id =
     (case (ev_conversion_action event, ev_conversion_time event) of
        (Some action, Some time) \<Rightarrow>
          let ids = user_identifiers (ev_hashed_identifiers event) in
          Inr (JObj (
            [(lit ''conversionAction'', JStr (conversion_action_resource customer_id action)),
             (lit ''conversionDateTime'', JStr (format_conversion_time time)),
             (lit ''orderId'', JStr (ev_event_id event))] @
            (case ev_conversion_value event of
               None \<Rightarrow> [] | Some v \<Rightarrow> [(lit ''conversionValue'', JNum (py_float v))]) @
            json_entry ''currencyCode'' (ev_currency event) @
            json_entry ''gclid'' (ev_click_id event) @
            (if ids = [] then []
             else [(lit ''userIdentifiers'', JArr ids),
                   (lit ''consent'', JObj
                     [(lit ''adUserData'', json_of_option (ev_consent_ad_user_data event)),
                      (lit ''adPersonalization'', json_of_option (ev_consent_ad_personalization event))])])))
      | _ \<Rightarrow> Inl AssertionError)"

text \<open>Reading a field of a JSON object.\<close>

fun json_field :: "string \<Rightarrow> json \<Rightarrow> json option" where
  "json_field key (JObj kvs) = map_of kvs (lit key)"
| "json_field key _ = None"

section \<open>Lemmas\<close>

lemma json_entry_eq_Nil [simp]: "json_entry key v = [] \<longleftrightarrow> \<not> truthy v"
  by (simp add: json_entry_def truthy_def split: option.split)

lemma json_entry_keys: "lit k \<in> fst ` set (json_entry key v) \<longleftrightarrow> k = key \<and> truthy v"
  by (cases v) (simp_all add: json_entry_def)

lemma map_of_json_entry [simp]:
  "map_of (json_entry key v) (lit k) = (if k = key \<and> truthy v then map_option JStr v else None)"
  by (cases v) (simp_all add: json_entry_def)

lemma user_identifiers_None [simp]: "user_identifiers None = []"
  by (simp add: user_identifiers_def)

text \<open>Identifiers are sent exactly when the digests are a match key.\<close>

lemma user_identifiers_match_key:
  assumes "hashed_ok h"
  shows "user_identifiers (Some h) \<noteq> [] \<longleftrightarrow> has_match_key h"
  using hashed_ok_truthy [OF assms]
  by (simp add: user_identifiers_def has_match_key_def address_entries_def json_entry_keys
      image_Un Let_def)

lemma build_conversion_ok:
  assumes "ev_conversion_action e = Some a" and "ev_conversion_time e = Some t"
  shows "\<exists>kvs. build_conversion e cid = Inr (JObj kvs)"
  using assms by (simp add: build_conversion_def Let_def)

lemma build_conversion_fields:
  assumes "build_conversion e cid = Inr c"
  shows "json_field ''conversionAction'' c =
      map_option (\<lambda>a. JStr (conversion_action_resource cid a)) (ev_conversion_action e)"
    and "json_field ''conversionDateTime'' c =
      map_option (\<lambda>t. JStr (format_conversion_time t)) (ev_conversion_time e)"
    and "json_field ''orderId'' c = Some (JStr (ev_event_id e))"
    and "json_field ''gclid'' c = (if truthy (ev_click_id e) then map_option JStr (ev_click_id e) else None)"
    and "json_field ''userIdentifiers'' c =
      (let ids = user_identifiers (ev_hashed_identifiers e) in if ids = [] then None else Some (JArr ids))"
    and "json_field ''conversionValue'' c = map_option (\<lambda>v. JNum (py_float v)) (ev_conversion_value e)"
  using assms
  by (auto simp: build_conversion_def Let_def map_add_def split: option.splits)

lemma round_half_even_near: "\<bar>of_int (round_half_even x) - x\<bar> \<le> 1 / 2"
proof -
  define d where "d = x - of_int \<lfloor>x\<rfloor>"
  have "0 \<le> d" "d < 1" unfolding d_def by linarith+
  then show ?thesis
    unfolding round_half_even_def Let_def d_def [symmetric]
    by (auto simp: d_def abs_le_iff)
qed

lemma round_half_even_int [simp]: "round_half_even (of_int n) = n"
  by (simp add: round_half_even_def)

text \<open>\<open>float\<close> of a whole number of at most 53 bits is exact.\<close>

lemma length_pad_digits: "length (digits_of_nat n) \<le> w \<Longrightarrow> length (pad_digits w n) = w"
  by (simp add: pad_digits_def Let_def)

end
