(* ===== verification/Client.thy ===== *)
theory Client
  imports Batching Conversion
begin

text \<open>
  \<open>gateway/upload/client.py\<close>: the client contract as a locale, the HTTP implementation, and the
  parser of the platform's answer. The answer is any JSON value, so every Python operation on it
  may raise: \<open>KeyError\<close>, \<open>TypeError\<close> or \<open>AttributeError\<close> as in Python. httpx is a parameter that
  maps a request to an \<open>http_result\<close>.
\<close>

section \<open>Results\<close>

record RowResult =
  rr_index :: nat
  rr_ok :: bool
  rr_error_code :: "pystr option"
  rr_message :: "pystr option"

record BatchResult =
  br_rows :: "RowResult list"

definition failed_rows :: "BatchResult \<Rightarrow> RowResult list" where
  "failed_rows b = filter (\<lambda>r. \<not> rr_ok r) (br_rows b)"

section \<open>Python on JSON values\<close>

text \<open>Truth value, iteration, \<open>d.get(key, default)\<close> and \<open>str(v)\<close>. The \<open>repr\<close> of a float, a list or a
  dict is a parameter.\<close>

fun json_true :: "json \<Rightarrow> bool" where
  "json_true JNull = False"
| "json_true (JBool b) = b"
| "json_true (JInt i) = (i \<noteq> 0)"
| "json_true (JNum r) = (r \<noteq> 0)"
| "json_true (JStr s) = (s \<noteq> [])"
| "json_true (JArr xs) = (xs \<noteq> [])"
| "json_true (JObj kvs) = (kvs \<noteq> [])"

fun json_iter :: "json \<Rightarrow> exn + json list" where
  "json_iter (JArr xs) = Inr xs"
| "json_iter (JObj kvs) = Inr (map (JStr \<circ> fst) kvs)"
| "json_iter (JStr s) = Inr (map (\<lambda>c. JStr [c]) s)"
| "json_iter _ = Inl TypeError"

fun json_get :: "json \<Rightarrow> string \<Rightarrow> json \<Rightarrow> exn + json" where
  "json_get (JObj kvs) key dflt = Inr (case map_of kvs (lit key) of None \<Rightarrow> dflt | Some v \<Rightarrow> v)"
| "json_get _ key dflt = Inl AttributeError"

text \<open>\<open>v or {}\<close>\<close>

definition json_or_empty :: "json \<Rightarrow> json" where
  "json_or_empty v = (if json_true v then v else JObj [])"

fun json_str :: "(json \<Rightarrow> pystr) \<Rightarrow> json \<Rightarrow> pystr" where
  "json_str py_repr (JStr s) = s"
| "json_str py_repr (JInt i) = str_of_int i"
| "json_str py_repr JNull = lit ''None''"
| "json_str py_repr (JBool b) = (if b then lit ''True'' else lit ''False'')"
| "json_str py_repr v = py_repr v"

text \<open>Sequencing of partial operations, and a loop with an accumulator.\<close>

definition try_bind :: "exn + 'a \<Rightarrow> ('a \<Rightarrow> exn + 'b) \<Rightarrow> exn + 'b" where
  "try_bind m f = (case m of Inl e \<Rightarrow> Inl e | Inr x \<Rightarrow> f x)"

primrec try_fold :: "('a \<Rightarrow> 'b \<Rightarrow> exn + 'b) \<Rightarrow> 'a list \<Rightarrow> 'b \<Rightarrow> exn + 'b" where
  "try_fold f [] acc = Inr acc"
| "try_fold f (x # xs) acc = try_bind (f x acc) (try_fold f xs)"

lemma try_bind_simps [simp]:
  "try_bind (Inl e) f = Inl e"
  "try_bind (Inr x) f = f x"
  by (simp_all add: try_bind_def)

lemma try_bind_eq_Inr: "try_bind m f = Inr y \<longleftrightarrow> (\<exists>x. m = Inr x \<and> f x = Inr y)"
  by (cases m) simp_all

section \<open>parse\_batch\_response\<close>

text \<open>\<open>isinstance(v, int)\<close> accepts booleans.\<close>

fun json_as_int :: "json \<Rightarrow> int option" where
  "json_as_int (JInt i) = Some i"
| "json_as_int (JBool b) = Some (if b then 1 else 0)"
| "json_as_int _ = None"

fun find_index :: "json list \<Rightarrow> exn + int option" where
  "find_index [] = Inr None"
| "find_index (element # rest) =
     try_bind (json_get element ''fieldName'' JNull) (\<lambda>name.
       if name \<noteq> JStr (lit ''conversions'') then find_index rest
       else try_bind (json_get element ''index'' JNull) (\<lambda>index.
              case json_as_int index of None \<Rightarrow> find_index rest | Some i \<Rightarrow> Inr (Some i)))"

definition row_index :: "json \<Rightarrow> exn + int option" where
  "row_index err =
     try_bind (json_get err ''location'' JNull) (\<lambda>location.
     try_bind (json_get (json_or_empty location) ''fieldPathElements'' (JArr [])) (\<lambda>elements.
     try_bind (json_iter elements) find_index))"

text \<open>\<open>next(iter(d.values()), "UNKNOWN")\<close>\<close>

fun first_value :: "json \<Rightarrow> exn + json" where
  "first_value (JObj kvs) = Inr (case kvs of [] \<Rightarrow> JStr (lit ''UNKNOWN'') | (k, v) # _ \<Rightarrow> v)"
| "first_value _ = Inl AttributeError"

type_synonym errors_by_index = "int \<Rightarrow> (pystr \<times> pystr) option"

definition add_error :: "(json \<Rightarrow> pystr) \<Rightarrow> json \<Rightarrow> errors_by_index \<Rightarrow> exn + errors_by_index" where
  "add_error py_repr err acc =
     try_bind (row_index err) (\<lambda>index.
       case index of
         None \<Rightarrow> Inr acc
       | Some i \<Rightarrow>
           try_bind (json_get err ''errorCode'' (JObj [])) (\<lambda>codes.
           try_bind (first_value codes) (\<lambda>code.
           try_bind (json_get err ''message'' (JStr [])) (\<lambda>message.
             Inr (acc(i \<mapsto> (json_str py_repr code, json_str py_repr message)))))))"

definition collect_errors :: "(json \<Rightarrow> pystr) \<Rightarrow> json \<Rightarrow> exn + errors_by_index" where
  "collect_errors py_repr body =
     try_bind (json_get body ''partialFailureError'' JNull) (\<lambda>failure.
     try_bind (json_get (json_or_empty failure) ''details'' (JArr [])) (\<lambda>details.
     try_bind (json_iter details) (\<lambda>ds.
       try_fold (\<lambda>detail acc.
         try_bind (json_get detail ''errors'' (JArr [])) (\<lambda>errs.
         try_bind (json_iter errs) (\<lambda>es. try_fold (add_error py_repr) es acc))) ds Map.empty)))"

text \<open>\<open>body["results"]\<close>\<close>

fun json_item :: "json \<Rightarrow> string \<Rightarrow> exn + json" where
  "json_item (JObj kvs) key = (case map_of kvs (lit key) of None \<Rightarrow> Inl KeyError | Some v \<Rightarrow> Inr v)"
| "json_item _ key = Inl TypeError"

definition row_result :: "errors_by_index \<Rightarrow> nat \<Rightarrow> json \<Rightarrow> RowResult" where
  "row_result errors index result =
     (if json_true result
      then \<lparr>rr_index = index, rr_ok = True, rr_error_code = None, rr_message = None\<rparr>
      else
        (case (case errors (int index) of
                 None \<Rightarrow> (lit ''UNKNOWN'', lit ''no error detail for row'')
               | Some d \<Rightarrow> d) of
           (code, message) \<Rightarrow>
             \<lparr>rr_index = index, rr_ok = False, rr_error_code = Some code, rr_message = Some message\<rparr>))"

fun enumerate_rows :: "errors_by_index \<Rightarrow> nat \<Rightarrow> json list \<Rightarrow> RowResult list" where
  "enumerate_rows errors i [] = []"
| "enumerate_rows errors i (r # rs) = row_result errors i r # enumerate_rows errors (Suc i) rs"

definition parse_batch_response :: "(json \<Rightarrow> pystr) \<Rightarrow> json \<Rightarrow> nat \<Rightarrow> exn + BatchResult" where
  "parse_batch_response py_repr body expected_rows =
     try_bind (json_item body ''results'') (\<lambda>results.
       case results of
         JArr rs \<Rightarrow>
           if length rs \<noteq> expected_rows then Inl ValueError
           else try_bind (collect_errors py_repr body) (\<lambda>errors.
                  Inr \<lparr>br_rows = enumerate_rows errors 0 rs\<rparr>)
       | _ \<Rightarrow> Inl ValueError)"

section \<open>HttpUploadClient\<close>

text \<open>
  What httpx answers: a timeout, another transport error with its class name, or a status and a
  body (\<open>None\<close> when it is not JSON).
\<close>

datatype http_result =
    HttpTimeout
  | HttpTransportError pystr
  | HttpResponse nat "json option"

definition upload_request :: "json list \<Rightarrow> json" where
  "upload_request conversions =
     JObj [(lit ''conversions'', JArr conversions), (lit ''partialFailure'', JBool True)]"

definition http_upload ::
  "(json \<Rightarrow> pystr) \<Rightarrow> (json \<Rightarrow> 'p \<Rightarrow> http_result \<times> 'p) \<Rightarrow> json list \<Rightarrow> ('p, exn, BatchResult) se" where
  "http_upload py_repr post conversions p =
     (case post (upload_request conversions) p of
        (HttpTimeout, p') \<Rightarrow> (Inl (TransientUploadError (lit ''timeout'')), p')
      | (HttpTransportError name, p') \<Rightarrow> (Inl (TransientUploadError (lit ''connection:'' @ name)), p')
      | (HttpResponse status body, p') \<Rightarrow>
          if status \<noteq> 200 then
            let reason = lit ''http_'' @ str_of_nat status
            in if classify_http_status status = TRANSIENT
               then (Inl (TransientUploadError reason), p')
               else (Inl (PermanentUploadError reason), p')
          else
            (case (case body of None \<Rightarrow> Inl ValueError
                   | Some b \<Rightarrow> parse_batch_response py_repr b (length conversions)) of
               Inr result \<Rightarrow> (Inr result, p')
             | Inl e \<Rightarrow>
                 if e \<in> {ValueError, KeyError, TypeError}
                 then (Inl (TransientUploadError (lit ''malformed_response'')), p')
                 else (Inl e, p')))"

section \<open>The contract: one result per row, in order\<close>

locale upload_client =
  fixes upload :: "json list \<Rightarrow> ('p, exn, BatchResult) se"
  assumes upload_rows: "upload cs p = (Inr result, p') \<Longrightarrow>
    map rr_index (br_rows result) = [0..<length cs]"
begin

lemma upload_length: "upload cs p = (Inr result, p') \<Longrightarrow> length (br_rows result) = length cs"
  using upload_rows by (metis length_map length_upt minus_nat.diff_0)

lemma upload_index:
  assumes "upload cs p = (Inr result, p')" and "i < length cs"
  shows "rr_index (br_rows result ! i) = i"
proof -
  have "map rr_index (br_rows result) ! i = i" using upload_rows [OF assms(1)] assms(2) by simp
  then show ?thesis using upload_length [OF assms(1)] assms(2) by simp
qed

end

lemma rr_index_row_result [simp]: "rr_index (row_result errors i r) = i"
  by (simp add: row_result_def split: prod.split)

lemma rr_ok_row_result [simp]: "rr_ok (row_result errors i r) \<longleftrightarrow> json_true r"
  by (simp add: row_result_def split: prod.split)

lemma enumerate_rows_index: "map rr_index (enumerate_rows errors i rs) = [i..<i + length rs]"
proof (induction rs arbitrary: i)
  case (Cons r rs)
  then show ?case by (simp add: upt_conv_Cons del: upt_Suc)
qed simp

lemma enumerate_rows_nth:
  "k < length rs \<Longrightarrow> enumerate_rows errors i rs ! k = row_result errors (i + k) (rs ! k)"
proof (induction rs arbitrary: i k)
  case (Cons r rs)
  then show ?case by (cases k) simp_all
qed simp

lemma length_enumerate_rows [simp]: "length (enumerate_rows errors i rs) = length rs"
  by (induction rs arbitrary: i) simp_all

lemma parse_batch_response_Inr:
  "parse_batch_response py_repr body n = Inr result \<longleftrightarrow>
     (\<exists>rs errors. json_item body ''results'' = Inr (JArr rs) \<and> length rs = n \<and>
        collect_errors py_repr body = Inr errors \<and> br_rows result = enumerate_rows errors 0 rs)"
proof (cases "json_item body ''results''")
  case (Inl e)
  then show ?thesis by (simp add: parse_batch_response_def)
next
  case (Inr x)
  show ?thesis
  proof (cases "\<exists>rs. x = JArr rs \<and> length rs = n")
    case True
    with Inr show ?thesis
      by (cases result) (auto simp: parse_batch_response_def try_bind_eq_Inr)
  next
    case False
    with Inr show ?thesis by (cases x) (auto simp: parse_batch_response_def)
  qed
qed

interpretation http: upload_client "http_upload py_repr post" for py_repr post
proof (unfold_locales, goal_cases)
  case (1 cs p result p')
  then obtain b where "parse_batch_response py_repr b (length cs) = Inr result"
    by (auto simp: http_upload_def Let_def split: prod.splits http_result.splits if_splits
        sum.splits option.splits)
  then show ?case by (auto simp: parse_batch_response_Inr enumerate_rows_index)
qed

end
