(* ===== verification/Backoff.thy ===== *)
theory Backoff
  imports Canonical
begin

text \<open>
  \<open>gateway/upload/backoff.py\<close>: the retry policy and \<open>call_with_retry\<close>. The module chooses the
  arguments of tenacity's \<open>Retrying\<close>; the loop itself is the library's, a parameter \<open>tenacity\<close>
  whose documented behaviour is \<open>retry_contract\<close>.
\<close>

section \<open>The arguments of \<open>Retrying\<close>\<close>

record RetryPolicy =
  max_attempts :: int
  max_elapsed_seconds :: rat
  backoff_base_seconds :: rat
  backoff_max_seconds :: rat

definition default_policy :: RetryPolicy where
  "default_policy =
     \<lparr>max_attempts = 6, max_elapsed_seconds = 600, backoff_base_seconds = 1, backoff_max_seconds = 60\<rparr>"

record wait_random_exponential =
  we_multiplier :: rat
  we_max :: rat

definition policy_wait :: "RetryPolicy \<Rightarrow> wait_random_exponential" where
  "policy_wait policy =
     \<lparr>we_multiplier = backoff_base_seconds policy, we_max = backoff_max_seconds policy\<rparr>"

text \<open>
  What \<open>before_sleep\<close> is called with. \<open>outcome\<close> is the future of the last attempt: absent, or with
  the exception it ended in, if it did.
\<close>

record RetryCallState =
  rs_outcome :: "exn option option"
  rs_attempt_number :: nat

fun is_transient :: "exn \<Rightarrow> bool" where
  "is_transient (TransientUploadError r) = True"
| "is_transient _ = False"

text \<open>The stop condition is the disjunction of an attempt count and a delay, in seconds.\<close>

record 's Retrying =
  ra_retry :: "exn \<Rightarrow> bool"
  ra_wait :: wait_random_exponential
  ra_stop_after_attempt :: int
  ra_stop_after_delay :: rat
  ra_before_sleep :: "RetryCallState \<Rightarrow> ('s, exn, unit) se"
  ra_reraise :: bool

definition before_sleep ::
  "(exn \<Rightarrow> nat \<Rightarrow> ('s, exn, unit) se) \<Rightarrow> RetryCallState \<Rightarrow> ('s, exn, unit) se" where
  "before_sleep on_retry state =
     (case rs_outcome state of
        None \<Rightarrow> se_raise AssertionError
      | Some None \<Rightarrow> se_raise AssertionError
      | Some (Some exc) \<Rightarrow>
          if is_transient exc then on_retry exc (rs_attempt_number state) else se_raise AssertionError)"

definition retrying :: "RetryPolicy \<Rightarrow> (exn \<Rightarrow> nat \<Rightarrow> ('s, exn, unit) se) \<Rightarrow> 's Retrying" where
  "retrying policy on_retry =
     \<lparr>ra_retry = is_transient, ra_wait = policy_wait policy, ra_stop_after_attempt = max_attempts policy,
      ra_stop_after_delay = max_elapsed_seconds policy, ra_before_sleep = before_sleep on_retry,
      ra_reraise = False\<rparr>"

section \<open>The documented loop\<close>

text \<open>What \<open>Retrying.__call__\<close> ends in, if not a value: an exception that is not retried, or
  \<open>RetryError\<close> with the last exception and its attempt number.\<close>

datatype retry_failure = Reraised exn | RetryError exn nat

type_synonym ('s, 'a) engine = "'s Retrying \<Rightarrow> ('s, exn, 'a) se \<Rightarrow> 's \<Rightarrow> (retry_failure + 'a) \<times> 's"

text \<open>
  Attempt \<open>k\<close> runs the function; a value, or an exception that is not to be retried, ends it; after
  another exception it either gives up (the delay may always have run out, and the last attempt
  must) or calls \<open>before_sleep\<close>, waits and tries again. Waiting changes no state.
\<close>

definition call_state :: "exn \<Rightarrow> nat \<Rightarrow> RetryCallState" where
  "call_state e k = \<lparr>rs_outcome = Some (Some e), rs_attempt_number = k\<rparr>"

inductive retry_run ::
  "'s Retrying \<Rightarrow> ('s, exn, 'a) se \<Rightarrow> nat \<Rightarrow> 's \<Rightarrow> retry_failure + 'a \<Rightarrow> 's \<Rightarrow> bool"
  for args fn where
  returned: "fn s = (Inr x, s') \<Longrightarrow> retry_run args fn k s (Inr x) s'"
| not_retried: "fn s = (Inl e, s') \<Longrightarrow> \<not> ra_retry args e \<Longrightarrow> retry_run args fn k s (Inl (Reraised e)) s'"
| gave_up: "fn s = (Inl e, s') \<Longrightarrow> ra_retry args e \<Longrightarrow>
    retry_run args fn k s (Inl (if ra_reraise args then Reraised e else RetryError e k)) s'"
| callback_raised: "fn s = (Inl e, s1) \<Longrightarrow> ra_retry args e \<Longrightarrow> int k < ra_stop_after_attempt args \<Longrightarrow>
    ra_before_sleep args (call_state e k) s1 = (Inl x, s') \<Longrightarrow>
    retry_run args fn k s (Inl (Reraised x)) s'"
| again: "fn s = (Inl e, s1) \<Longrightarrow> ra_retry args e \<Longrightarrow> int k < ra_stop_after_attempt args \<Longrightarrow>
    ra_before_sleep args (call_state e k) s1 = (Inr (), s2) \<Longrightarrow>
    retry_run args fn (Suc k) s2 r s' \<Longrightarrow>
    retry_run args fn k s r s'"

definition retry_contract :: "('s, 'a) engine \<Rightarrow> bool" where
  "retry_contract tenacity \<longleftrightarrow>
     (\<forall>args fn s r s'. tenacity args fn s = (r, s') \<longrightarrow> retry_run args fn 1 s r s')"

section \<open>\<open>call_with_retry\<close>\<close>

definition call_with_retry ::
  "('s, 'a) engine \<Rightarrow> RetryPolicy \<Rightarrow> ('s, exn, 'a) se \<Rightarrow> (exn \<Rightarrow> nat \<Rightarrow> ('s, exn, unit) se) \<Rightarrow>
   ('s, exn, 'a) se" where
  "call_with_retry tenacity policy fn on_retry s =
     (case tenacity (retrying policy on_retry) fn s of
        (Inr x, s') \<Rightarrow> (Inr x, s')
      | (Inl (Reraised e), s') \<Rightarrow> (Inl e, s')
      | (Inl (RetryError e attempts), s') \<Rightarrow>
          (case e of
             TransientUploadError reason \<Rightarrow> (Inl (PoisonUploadError reason attempts), s')
           | _ \<Rightarrow> (Inl AssertionError, s')))"

lemma retrying_simps [simp]:
  "ra_retry (retrying policy f) = is_transient"
  "ra_stop_after_attempt (retrying policy f) = max_attempts policy"
  "ra_before_sleep (retrying policy f) = before_sleep f"
  "ra_reraise (retrying policy f) \<longleftrightarrow> False"
  by (simp_all add: retrying_def)

text \<open>The assertions of \<open>before_sleep\<close> hold where the library calls it.\<close>

lemma before_sleep_run [simp]: "is_transient e \<Longrightarrow> before_sleep f (call_state e k) = f e k"
  by (simp add: before_sleep_def call_state_def)

lemma retry_run_preserves:
  assumes "retry_run args fn k s r s'" and "J s"
    and "preserves J fn" and "\<And>e k. ra_retry args e \<Longrightarrow> preserves J (ra_before_sleep args (call_state e k))"
  shows "J s'"
  using assms(1,2) by (induction) (metis assms(3,4) preservesD)+

lemma preserves_call_with_retry:
  assumes "retry_contract tenacity" and "preserves J fn" and "\<And>e k. preserves J (f e k)"
  shows "preserves J (call_with_retry tenacity policy fn f)"
proof (rule preservesI)
  fix s r t assume J: "J s" and run: "call_with_retry tenacity policy fn f s = (r, t)"
  obtain r1 s1 where eng: "tenacity (retrying policy f) fn s = (r1, s1)" by fastforce
  then have "retry_run (retrying policy f) fn 1 s r1 s1"
    using assms(1) unfolding retry_contract_def by blast
  then have "J s1" using J assms(2) by (rule retry_run_preserves) (simp add: assms(3))
  moreover have "t = s1"
    using run eng by (auto simp: call_with_retry_def split: sum.splits retry_failure.splits exn.splits)
  ultimately show "J t" by simp
qed

text \<open>A function that succeeds is called once.\<close>

lemma call_with_retry_returned:
  assumes "retry_contract tenacity" and "fn s = (Inr x, s')"
  shows "call_with_retry tenacity policy fn f s = (Inr x, s')"
proof -
  obtain r s1 where eng: "tenacity (retrying policy f) fn s = (r, s1)" by fastforce
  then have "retry_run (retrying policy f) fn 1 s r s1"
    using assms(1) unfolding retry_contract_def by blast
  then have "r = Inr x \<and> s1 = s'" using assms(2) by (cases) auto
  with eng show ?thesis by (simp add: call_with_retry_def)
qed

text \<open>How the loop can end under the policy.\<close>

lemma retrying_ends:
  assumes "retry_run (retrying policy f) fn k s r s'" and "1 \<le> k" and "int k \<le> max_attempts policy"
  shows "case r of
      Inr x \<Rightarrow> \<exists>u t. fn u = (Inr x, t)
    | Inl (Reraised e) \<Rightarrow> (\<not> is_transient e \<and> (\<exists>u t. fn u = (Inl e, t))) \<or> (\<exists>x j u t. f x j u = (Inl e, t))
    | Inl (RetryError e n) \<Rightarrow> is_transient e \<and> 1 \<le> n \<and> int n \<le> max_attempts policy \<and>
        (\<exists>u t. fn u = (Inl e, t))"
  using assms
proof (induction rule: retry_run.induct)
  case (callback_raised s e s1 k x s')
  then show ?case by auto
qed (auto split: sum.splits retry_failure.splits)

end
