(* ===== verification/Uploader.thy ===== *)
theory Uploader
  imports Dlq Client Backoff
begin

text \<open>
  \<open>gateway/upload/uploader.py\<close>: claim rows, batch them, upload with retries, and apply the
  platform's verdict row by row. The upload client is the parameter \<open>upload\<close>, tenacity the
  parameter \<open>tenacity\<close> of theory Backoff. The clocks that a cycle reads are the parameter \<open>clock\<close>:
  \<open>ck_now n x\<close> is \<open>datetime.now(UTC)\<close> when the retry after attempt \<open>n\<close> is recorded for the event \<open>x\<close>,
  and \<open>ck_monotonic\<close> reads \<open>time.monotonic()\<close> off the state of the environment.
\<close>

section \<open>The uploader process\<close>

record Claimed =
  cl_event_id :: pystr
  cl_attempt_count :: nat
  cl_conversion :: json

record CycleReport =
  uploaded :: nat
  retry_later :: nat
  dead_lettered_count :: nat

definition no_report :: CycleReport where
  "no_report = \<lparr>uploaded = 0, retry_later = 0, dead_lettered_count = 0\<rparr>"

record uploader_config =
  up_policy :: RetryPolicy
  up_customer_id :: pystr
  up_row_retry_after :: duration
  up_stale_after :: duration
  up_max_row_attempts :: nat

record ('q, 'p) uploader_world = "'q world" +
  u_batcher :: "Claimed batcher"
  u_platform :: 'p

record 'p clocks =
  ck_now :: "nat \<Rightarrow> pystr \<Rightarrow> time"
  ck_monotonic :: "'p \<Rightarrow> rat"

type_synonym ('q, 'p, 'a) use = "(('q, 'p) uploader_world, exn, 'a) se"

definition on_platform :: "('p, exn, 'a) se \<Rightarrow> ('q, 'p, 'a) use" where
  "on_platform m w = (case m (u_platform w) of (r, p) \<Rightarrow> (r, w\<lparr>u_platform := p\<rparr>))"

definition on_batcher :: "(Claimed batcher \<Rightarrow> 'a \<times> Claimed batcher) \<Rightarrow> ('q, 'p, 'a) use" where
  "on_batcher f w = (case f (u_batcher w) of (x, b) \<Rightarrow> (Inr x, w\<lparr>u_batcher := b\<rparr>))"

subsection \<open>Step 1: claim\<close>

definition claim_item ::
  "uploader_config \<Rightarrow> time \<Rightarrow> pystr \<Rightarrow> Claimed list \<Rightarrow> ('q, 'm, Claimed list) wse" where
  "claim_item cfg now eid claimed =
     se_bind (on_db (the_event eid)) (\<lambda>event.
       case build_conversion event (up_customer_id cfg) of
         Inl e \<Rightarrow> se_raise e
       | Inr conversion \<Rightarrow>
           if ev_attempt_count event > up_max_row_attempts cfg then
             se_bind (dead_letter eid POISON
               (lit ''poison:row_attempt_ceiling:'' @ str_of_int (int (ev_attempt_count event) - 1))
               (Some (lit ''row_attempt_ceiling'')) (ev_status_reason event) conversion now) (\<lambda>_.
             se_return claimed)
           else
             se_return (claimed @ [\<lparr>cl_event_id = eid, cl_attempt_count = ev_attempt_count event,
               cl_conversion = conversion\<rparr>]))"

definition claim ::
  "uploader_config \<Rightarrow> pystr set \<Rightarrow> time \<Rightarrow> nat \<Rightarrow> ('q, 'm, Claimed list) wse" where
  "claim cfg locked now limit =
     transaction (
       se_bind (on_db (claim_for_upload locked now limit (up_row_retry_after cfg) (up_stale_after cfg))) (\<lambda>rows.
       se_fold rows (claim_item cfg now) []))"

subsection \<open>Steps 2 to 4: upload a batch\<close>

definition load_events :: "pystr list \<Rightarrow> ('q, 'm, pystr list) wse" where
  "load_events ids = on_db (se_gets (\<lambda>db. filter (\<lambda>x. find_event db x \<noteq> None) ids))"

text \<open>\<open>{c.event_id: c for c in batch}\<close>: keys in order of first insertion, the last value wins.\<close>

definition by_id_keys :: "Claimed list \<Rightarrow> pystr list" where
  "by_id_keys batch = rev (remdups (rev (map cl_event_id batch)))"

definition by_id :: "Claimed list \<Rightarrow> pystr \<Rightarrow> Claimed option" where
  "by_id batch = map_of (rev (map (\<lambda>c. (cl_event_id c, c)) batch))"

text \<open>
  One row of \<open>apply_result\<close>; \<open>loaded\<close> are the keys of the dict \<open>events\<close>.
\<close>

definition apply_row ::
  "time \<Rightarrow> pystr list \<Rightarrow> Claimed \<Rightarrow> RowResult \<Rightarrow> CycleReport \<Rightarrow> ('q, 'm, CycleReport) wse" where
  "apply_row now loaded claimed row report =
     (let eid = cl_event_id claimed in
      if eid \<notin> set loaded then se_raise KeyError
      else
        se_bind (on_db (the_event eid)) (\<lambda>event.
          let source = ev_source event; action = unknown (ev_conversion_action event) in
          if rr_ok row then
            se_bind (on_db (transition eid UPLOADED None now)) (\<lambda>_.
            se_bind (inc (conversions_uploaded_total source action)) (\<lambda>_.
            se_bind (observe (ingest_to_upload_seconds source action)
              (max 0 (of_int (now - ev_received_at event) / of_int second))) (\<lambda>_.
            se_return (report\<lparr>uploaded := uploaded report + 1\<rparr>))))
          else
            let code = (if truthy (rr_error_code row) then the (rr_error_code row) else lit ''UNKNOWN'') in
            if classify_row_error code = TRANSIENT then
              se_bind (on_db (transition eid FAILED_RETRYABLE (Some (lit ''retryable_row:'' @ code)) now)) (\<lambda>_.
              se_return (report\<lparr>retry_later := retry_later report + 1\<rparr>))
            else
              se_bind (dead_letter eid PARTIAL (lit ''permanent_row:'' @ code) (Some code) (rr_message row)
                (cl_conversion claimed) now) (\<lambda>_.
              se_return (report\<lparr>dead_lettered_count := dead_lettered_count report + 1\<rparr>))))"

text \<open>\<open>zip(batch, result.rows, strict=True)\<close>\<close>

fun apply_rows ::
  "time \<Rightarrow> pystr list \<Rightarrow> Claimed list \<Rightarrow> RowResult list \<Rightarrow> CycleReport \<Rightarrow> ('q, 'm, CycleReport) wse" where
  "apply_rows now loaded [] [] report = se_return report"
| "apply_rows now loaded (c # cs) (r # rs) report =
     se_bind (apply_row now loaded c r report) (apply_rows now loaded cs rs)"
| "apply_rows now loaded _ _ report = se_raise ValueError"

definition apply_result :: "Claimed list \<Rightarrow> BatchResult \<Rightarrow> time \<Rightarrow> ('q, 'm, CycleReport) wse" where
  "apply_result batch result now =
     transaction (
       se_bind (load_events (by_id_keys batch)) (\<lambda>loaded.
       apply_rows now loaded batch (br_rows result) no_report))"

definition dead_letter_all ::
  "Claimed list \<Rightarrow> FailureClass \<Rightarrow> pystr \<Rightarrow> pystr \<Rightarrow> pystr \<Rightarrow> time \<Rightarrow> ('q, 'm, CycleReport) wse" where
  "dead_letter_all batch failure_class reason error_code error_message now =
     se_bind (transaction (
       se_bind (load_events (by_id_keys batch)) (\<lambda>loaded.
       se_foreach loaded (\<lambda>x.
         case by_id batch x of
           None \<Rightarrow> se_raise KeyError
         | Some c \<Rightarrow>
             dead_letter x failure_class reason (Some error_code) (Some error_message) (cl_conversion c) now))))
       (\<lambda>_. se_return (no_report\<lparr>dead_lettered_count := length batch\<rparr>))"

fun reason_of :: "exn \<Rightarrow> pystr" where
  "reason_of (TransientUploadError r) = r"
| "reason_of (PermanentUploadError r) = r"
| "reason_of (PoisonUploadError r n) = r"
| "reason_of _ = []"

definition on_retry ::
  "(nat \<Rightarrow> pystr \<Rightarrow> time) \<Rightarrow> pystr list \<Rightarrow> exn \<Rightarrow> nat \<Rightarrow> ('q, 'm, unit) wse" where
  "on_retry clock ids exc attempt =
     transaction (
       se_bind (load_events ids) (\<lambda>loaded.
       se_foreach loaded (\<lambda>x.
         on_db (record_retry_attempt x (lit ''transient:'' @ reason_of exc) (clock attempt x)))))"

definition observe_latency :: "('p \<Rightarrow> rat) \<Rightarrow> rat \<Rightarrow> string \<Rightarrow> ('q, 'p, unit) use" where
  "observe_latency monotonic started outcome =
     se_bind (se_gets (\<lambda>w. monotonic (u_platform w))) (\<lambda>ended.
     observe (upload_latency_seconds (lit outcome)) (ended - started))"

definition timed_upload ::
  "('p \<Rightarrow> rat) \<Rightarrow> (json list \<Rightarrow> ('p, exn, BatchResult) se) \<Rightarrow> json list \<Rightarrow> ('q, 'p, BatchResult) use" where
  "timed_upload monotonic upload conversions =
     se_bind (se_gets (\<lambda>w. monotonic (u_platform w))) (\<lambda>started.
     se_bind
       (se_try (on_platform (upload conversions)) (\<lambda>e.
          case e of
            TransientUploadError r \<Rightarrow>
              se_bind (observe_latency monotonic started ''transient'') (\<lambda>_. se_raise e)
          | PermanentUploadError r \<Rightarrow>
              se_bind (observe_latency monotonic started ''permanent'') (\<lambda>_. se_raise e)
          | _ \<Rightarrow> se_raise e))
       (\<lambda>result. se_bind (observe_latency monotonic started ''ok'') (\<lambda>_. se_return result)))"

definition upload_batch ::
  "(('q, 'p) uploader_world, BatchResult) engine \<Rightarrow> (json list \<Rightarrow> ('p, exn, BatchResult) se) \<Rightarrow>
   uploader_config \<Rightarrow> 'p clocks \<Rightarrow> Claimed list \<Rightarrow> time \<Rightarrow> ('q, 'p, CycleReport) use" where
  "upload_batch tenacity upload cfg clock batch now =
     (\<lambda>w. case call_with_retry tenacity (up_policy cfg)
                 (timed_upload (ck_monotonic clock) upload (map cl_conversion batch))
                 (on_retry (ck_now clock) (map cl_event_id batch)) w of
        (Inr result, w') \<Rightarrow> apply_result batch result now w'
      | (Inl e, w') \<Rightarrow>
          (case e of
             PermanentUploadError reason \<Rightarrow>
               dead_letter_all batch PERMANENT (lit ''permanent:'' @ reason) reason reason now w'
           | PoisonUploadError reason attempts \<Rightarrow>
               dead_letter_all batch POISON
                 (lit ''poison:'' @ reason @ lit '':after_'' @ str_of_nat attempts @ lit ''_attempts'') reason
                 (lit ''gave up after '' @ str_of_nat attempts @ lit '' attempts; last error '' @ reason) now w'
           | _ \<Rightarrow> (Inl e, w')))"

definition refresh_dlq_depth :: "('q, 'm, unit) wse" where
  "refresh_dlq_depth =
     se_bind (on_db (se_gets open_depth_by_source)) (\<lambda>depth.
     se_foreach [SALESFORCE, HUBSPOT] (\<lambda>source.
       set_gauge (dlq_depth (source_value source))
         (case map_of depth (source_value source) of None \<Rightarrow> 0 | Some n \<Rightarrow> n)))"

subsection \<open>One cycle\<close>

definition add_claimed :: "time \<Rightarrow> Claimed \<Rightarrow> Claimed list option \<Rightarrow> ('q, 'p, Claimed list option) use" where
  "add_claimed now item batch =
     se_bind (on_batcher (batcher_add item now)) (\<lambda>full.
       se_return (case full of None \<Rightarrow> batch | Some b \<Rightarrow> Some b))"

definition collect_batch ::
  "uploader_config \<Rightarrow> pystr set \<Rightarrow> time \<Rightarrow> ('q, 'p, Claimed list option) use" where
  "collect_batch cfg locked now =
     se_bind (se_gets (\<lambda>w. b_max_size (u_batcher w) - length (b_items (u_batcher w)))) (\<lambda>room.
     se_bind
       (if room > 0
        then se_bind (claim cfg locked now room) (\<lambda>items. se_fold items (add_claimed now) None)
        else se_return None)
       (\<lambda>batch. case batch of
          None \<Rightarrow> on_batcher (batcher_flush_if_due now)
        | Some b \<Rightarrow> se_return (Some b)))"

definition run_once ::
  "(('q, 'p) uploader_world, BatchResult) engine \<Rightarrow> (json list \<Rightarrow> ('p, exn, BatchResult) se) \<Rightarrow>
   uploader_config \<Rightarrow> pystr set \<Rightarrow> 'p clocks \<Rightarrow> time \<Rightarrow> ('q, 'p, CycleReport) use" where
  "run_once tenacity upload cfg locked clock now =
     se_bind (collect_batch cfg locked now) (\<lambda>batch.
       case batch of
         None \<Rightarrow> se_return no_report
       | Some b \<Rightarrow>
           if b = [] then se_return no_report
           else
             se_bind (upload_batch tenacity upload cfg clock b now) (\<lambda>report.
             se_bind refresh_dlq_depth (\<lambda>_.
             se_return report)))"

text \<open>The loop of \<open>run\<close>, with the rows locked by others and the clocks of each cycle.\<close>

primrec uploader_run ::
  "(('q, 'p) uploader_world, BatchResult) engine \<Rightarrow> (json list \<Rightarrow> ('p, exn, BatchResult) se) \<Rightarrow>
   uploader_config \<Rightarrow> (pystr set \<times> 'p clocks \<times> time) list \<Rightarrow> ('q, 'p, unit) use" where
  "uploader_run tenacity upload cfg [] = se_return ()"
| "uploader_run tenacity upload cfg (cycle # cycles) =
     se_bind (case cycle of (locked, clock, now) \<Rightarrow> run_once tenacity upload cfg locked clock now) (\<lambda>_.
     uploader_run tenacity upload cfg cycles)"

section \<open>Invariants through the uploader\<close>

lemma preserves_on_platform [preserves_intro]: "preserves (\<lambda>w. I (w_db w)) (on_platform m)"
  by (auto simp: preserves_def on_platform_def split: prod.splits)

lemma preserves_on_batcher [preserves_intro]: "preserves (\<lambda>w. I (w_db w)) (on_batcher f)"
  by (auto simp: preserves_def on_batcher_def split: prod.splits)

lemma preserves_timed_upload: "preserves (\<lambda>w. I (w_db w)) (timed_upload monotonic upload cs)"
  unfolding timed_upload_def observe_latency_def
  by (intro preserves_intro) (auto split: exn.split intro: preserves_intro)

context ledger_invariant
begin

lemma keeps_db_claim: "keeps (\<lambda>w. I (w_db w)) (on_db (claim_for_upload locked now limit ra sa))"
  by (intro keeps_on_db keeps_claim_for_upload)

lemma keeps_the_event: "keeps I (the_event x)"
  unfolding the_event_def by (intro keeps_intro)

lemma keeps_claim_item: "keeps (\<lambda>w. I (w_db w)) (claim_item cfg now eid claimed)"
  unfolding claim_item_def
  by (intro keeps_bind keeps_on_db keeps_the_event)
    (auto split: sum.split intro!: keeps_intro keeps_dead_letter)

lemma preserves_claim: "preserves (\<lambda>w. I (w_db w)) (claim cfg locked now limit)"
  unfolding claim_def
  by (intro preserves_transaction keeps_bind keeps_db_claim keeps_fold keeps_claim_item)

lemma keeps_load_events: "keeps (\<lambda>w. I (w_db w)) (load_events ids)"
  unfolding load_events_def by (intro keeps_intro)

lemma keeps_apply_row: "keeps (\<lambda>w. I (w_db w)) (apply_row now loaded c r report)"
  unfolding apply_row_def Let_def
  by (intro keeps_intro keeps_on_db keeps_the_event keeps_transition keeps_dead_letter) simp_all

lemma keeps_apply_rows: "keeps (\<lambda>w. I (w_db w)) (apply_rows now loaded cs rs report)"
  by (induction now loaded cs rs report rule: apply_rows.induct)
    (auto intro: keeps_intro keeps_apply_row)

lemma preserves_apply_result: "preserves (\<lambda>w. I (w_db w)) (apply_result batch result now)"
  unfolding apply_result_def
  by (intro preserves_transaction keeps_bind keeps_load_events keeps_apply_rows)

lemma preserves_dead_letter_all: "preserves (\<lambda>w. I (w_db w)) (dead_letter_all batch fc reason code msg now)"
  unfolding dead_letter_all_def
  by (intro preserves_bind preserves_return preserves_transaction keeps_bind keeps_load_events
      keeps_foreach keeps_case_option keeps_raise keeps_dead_letter)

lemma preserves_on_retry: "preserves (\<lambda>w. I (w_db w)) (on_retry clock ids e k)"
  unfolding on_retry_def
  by (intro preserves_transaction keeps_bind keeps_load_events keeps_foreach keeps_on_db
      keeps_record_retry_attempt)

lemma preserves_upload_batch:
  assumes "retry_contract tenacity"
  shows "preserves (\<lambda>w. I (w_db w)) (upload_batch tenacity upload cfg clock batch now)"
proof (rule preservesI)
  fix w :: "('a, 'b) uploader_world" and r w'
  let ?m = "call_with_retry tenacity (up_policy cfg)
    (timed_upload (ck_monotonic clock) upload (map cl_conversion batch))
    (on_retry (ck_now clock) (map cl_event_id batch))"
  assume I: "I (w_db w)" and run: "upload_batch tenacity upload cfg clock batch now w = (r, w')"
  obtain r1 w1 where call: "?m w = (r1, w1)" by fastforce
  have "preserves (\<lambda>w. I (w_db w)) ?m"
    by (intro preserves_call_with_retry [OF assms] preserves_timed_upload preserves_on_retry)
  then have I1: "I (w_db w1)" using I call by (rule preservesD)
  show "I (w_db w')"
    using run call I1 preservesD [OF preserves_apply_result I1]
      preservesD [OF preserves_dead_letter_all I1]
    by (auto simp: upload_batch_def split: sum.splits exn.splits)
qed

lemma preserves_collect_batch: "preserves (\<lambda>w. I (w_db w)) (collect_batch cfg locked now)"
  unfolding collect_batch_def add_claimed_def
  by (intro preserves_intro preserves_claim)

lemma preserves_refresh: "preserves (\<lambda>w. I (w_db w)) refresh_dlq_depth"
  unfolding refresh_dlq_depth_def by (intro preserves_intro)

lemma preserves_run_once:
  assumes "retry_contract tenacity"
  shows "preserves (\<lambda>w. I (w_db w)) (run_once tenacity upload cfg locked clock now)"
  unfolding run_once_def
  by (intro preserves_bind preserves_collect_batch preserves_case_option preserves_if preserves_return
      preserves_upload_batch [OF assms] preserves_refresh)

lemma preserves_uploader_run:
  assumes "retry_contract tenacity"
  shows "preserves (\<lambda>w. I (w_db w)) (uploader_run tenacity upload cfg cycles)"
  by (induction cycles)
    (auto split: prod.split intro!: preserves_intro preserves_run_once [OF assms])

end

section \<open>Applying a result, row by row\<close>

definition row_code :: "RowResult \<Rightarrow> pystr" where
  "row_code r = (if truthy (rr_error_code r) then the (rr_error_code r) else lit ''UNKNOWN'')"

text \<open>Where a row that was uploaded ends.\<close>

definition row_target :: "RowResult \<Rightarrow> EventStatus" where
  "row_target r =
     (if rr_ok r then UPLOADED
      else if classify_row_error (row_code r) = TRANSIENT then FAILED_RETRYABLE else DEAD_LETTERED)"

definition count_row :: "RowResult \<Rightarrow> CycleReport \<Rightarrow> CycleReport" where
  "count_row r report =
     (if rr_ok r then report\<lparr>uploaded := uploaded report + 1\<rparr>
      else if classify_row_error (row_code r) = TRANSIENT then report\<lparr>retry_later := retry_later report + 1\<rparr>
      else report\<lparr>dead_lettered_count := dead_lettered_count report + 1\<rparr>)"

text \<open>The platform's code fits its column (128 characters).\<close>

definition codes_fit :: "RowResult list \<Rightarrow> bool" where
  "codes_fit rs \<longleftrightarrow> (\<forall>r \<in> set rs. length (row_code r) \<le> 128)"

lemma length_clip_message: "fits 1024 (clip_message m)"
  by (simp add: clip_message_def Let_def split: option.split)

lemma length_failure_value: "length (failure_value fc) \<le> 16"
  by (cases fc) simp_all

lemma store_fits_dead_lettered:
  assumes "store_fits (moved e DEAD_LETTERED (Some reason) now db)" and "find_event db x = Some e"
    and "store_fits db" and "length reason \<le> 512" and "fits 128 code"
  shows "store_fits (dead_lettered e fc reason code msg payload now db)"
proof -
  have "event_fits e" using assms(3,2) by (rule store_fits_find)
  then have "dead_letter_fits ((dead_letter_row e fc reason code msg payload hs now)\<lparr>dl_id := i\<rparr>)" for hs i
    using assms(4,5) length_failure_value [of fc] length_clip_message [of msg]
    by (simp add: dead_letter_fits_def dead_letter_row_def event_fits_def)
  with assms(1) show ?thesis
    by (simp add: dead_lettered_def store_fits_def dead_letters_add)
qed

lemma dead_letter_ok:
  assumes "find_event (w_db w) x = Some e" and "DEAD_LETTERED \<in> ALLOWED_TRANSITIONS (ev_status e)"
    and "store_fits (w_db w)" and "length reason \<le> 512" and "fits 128 code"
  shows "\<exists>w'. dead_letter x fc reason code msg payload now w = (Inr (), w') \<and> store_fits (w_db w') \<and>
    w_db w' = dead_lettered e fc reason code msg payload now (w_db w)"
proof -
  have "find_event (w_db w) (ev_event_id e) = Some e"
    using assms(1) find_event_id [OF assms(1)] by simp
  then have fit: "store_fits (moved e DEAD_LETTERED (Some reason) now (w_db w))"
    using assms(3,4) by (intro store_fits_moved) simp_all
  with assms store_fits_dead_lettered [OF fit assms(1,3,4,5)] show ?thesis
    by (simp add: dead_letter_run)
qed

lemma apply_row_ok:
  assumes "cl_event_id c = x" and "x \<in> set loaded" and "find_event (w_db w) x = Some e"
    and "ev_status e = UPLOADING" and "store_fits (w_db w)" and "length (row_code r) \<le> 128"
  shows "\<exists>w'. apply_row now loaded c r report w = (Inr (count_row r report), w') \<and> store_fits (w_db w') \<and>
    map_option ev_status (find_event (w_db w') x) = Some (row_target r) \<and>
    (\<forall>y. y \<noteq> x \<longrightarrow> find_event (w_db w') y = find_event (w_db w) y)"
proof -
  have id: "ev_event_id e = x" using assms(3) by (rule find_event_id)
  have found: "find_event (w_db w) (ev_event_id e) = Some e" using assms(3) id by simp
  have read: "on_db (the_event x) w = (Inr e, w)" using assms(3) by (rule on_db_the_event)
  have tr: "on_db (transition x to reason now) w = (Inr (), w\<lparr>w_db := moved e to reason now (w_db w)\<rparr>)"
    if "to \<in> {UPLOADED, FAILED_RETRYABLE}" for to reason
    using that assms(3,4) by (intro on_db_run transition_ok) auto
  have moves: "find_event (moved e to reason now (w_db w)) y =
      (if y = x then Some (e\<lparr>ev_status := to, ev_status_reason := reason\<rparr>) else find_event (w_db w) y)"
    for to reason y using assms(3) by (simp add: find_event_moved id)
  consider "rr_ok r" | "\<not> rr_ok r" "classify_row_error (row_code r) = TRANSIENT"
    | "\<not> rr_ok r" "classify_row_error (row_code r) \<noteq> TRANSIENT" by blast
  then show ?thesis
  proof cases
    case 1
    have "store_fits (moved e UPLOADED None now (w_db w))"
      by (rule store_fits_moved [OF assms(5) _ found]) simp
    then show ?thesis
      using 1 assms(1,2) read
      by (simp add: apply_row_def se_bind_def tr moves row_target_def count_row_def Let_def)
  next
    case 2
    have "store_fits (moved e FAILED_RETRYABLE (Some (lit ''retryable_row:'' @ row_code r)) now (w_db w))"
      by (rule store_fits_moved [OF assms(5) _ found]) (use assms(6) in simp)
    then show ?thesis
      using 2 assms(1,2) read
      by (simp add: apply_row_def row_code_def [symmetric] se_bind_def tr moves row_target_def
          count_row_def Let_def)
  next
    case 3
    obtain w' where "dead_letter x PARTIAL (lit ''permanent_row:'' @ row_code r) (Some (row_code r))
        (rr_message r) (cl_conversion c) now w = (Inr (), w')" "store_fits (w_db w')"
        "w_db w' = dead_lettered e PARTIAL (lit ''permanent_row:'' @ row_code r) (Some (row_code r))
          (rr_message r) (cl_conversion c) now (w_db w)"
      using dead_letter_ok [OF assms(3) _ assms(5), of "lit ''permanent_row:'' @ row_code r"
          "Some (row_code r)" PARTIAL "rr_message r" "cl_conversion c" now] assms(4,6) by auto
    then show ?thesis
      using 3 assms(1,2,3) read id
      by (simp add: apply_row_def row_code_def [symmetric] se_bind_def find_event_dead_lettered
          row_target_def count_row_def Let_def)
  qed
qed

lemma apply_rows_ok:
  assumes "length rs = length cs" and "distinct (map cl_event_id cs)"
    and "\<forall>c \<in> set cs. cl_event_id c \<in> set loaded \<and>
      map_option ev_status (find_event (w_db w) (cl_event_id c)) = Some UPLOADING"
    and "store_fits (w_db w)" and "codes_fit rs"
  shows "\<exists>w'. apply_rows now loaded cs rs report w = (Inr (fold count_row rs report), w') \<and>
    store_fits (w_db w') \<and>
    (\<forall>i < length cs. map_option ev_status (find_event (w_db w') (cl_event_id (cs ! i))) =
       Some (row_target (rs ! i))) \<and>
    (\<forall>y. y \<notin> cl_event_id ` set cs \<longrightarrow> find_event (w_db w') y = find_event (w_db w) y)"
  using assms
proof (induction cs arbitrary: rs w report)
  case Nil
  then show ?case by simp
next
  case (Cons c cs)
  then obtain r rs' where rs: "rs = r # rs'" by (cases rs) simp_all
  obtain e where e: "find_event (w_db w) (cl_event_id c) = Some e" "ev_status e = UPLOADING"
    using Cons.prems(3) by auto
  have loaded: "cl_event_id c \<in> set loaded" using Cons.prems(3) by simp
  have code: "length (row_code r) \<le> 128" "codes_fit rs'"
    using Cons.prems(5) rs by (simp_all add: codes_fit_def)
  obtain w1 where w1: "apply_row now loaded c r report w = (Inr (count_row r report), w1)"
      "store_fits (w_db w1)"
      "map_option ev_status (find_event (w_db w1) (cl_event_id c)) = Some (row_target r)"
      "\<forall>y. y \<noteq> cl_event_id c \<longrightarrow> find_event (w_db w1) y = find_event (w_db w) y"
    using apply_row_ok [OF refl loaded e Cons.prems(4) code(1)] by blast
  have new: "cl_event_id c \<notin> cl_event_id ` set cs" using Cons.prems(2) by simp
  have other: "find_event (w_db w1) (cl_event_id a) = find_event (w_db w) (cl_event_id a)" if "a \<in> set cs" for a
    using that new w1(4) by (metis imageI)
  have "\<forall>a \<in> set cs. cl_event_id a \<in> set loaded \<and>
      map_option ev_status (find_event (w_db w1) (cl_event_id a)) = Some UPLOADING"
    using Cons.prems(3) other by simp
  moreover have "length rs' = length cs" "distinct (map cl_event_id cs)"
    using Cons.prems(1,2) rs by simp_all
  ultimately obtain w2 where w2:
      "apply_rows now loaded cs rs' (count_row r report) w1 = (Inr (fold count_row rs' (count_row r report)), w2)"
      "store_fits (w_db w2)"
      "\<forall>i < length cs. map_option ev_status (find_event (w_db w2) (cl_event_id (cs ! i))) = Some (row_target (rs' ! i))"
      "\<forall>y. y \<notin> cl_event_id ` set cs \<longrightarrow> find_event (w_db w2) y = find_event (w_db w1) y"
    using Cons.IH [of rs' w1 "count_row r report"] w1(2) code(2) by blast
  have "map_option ev_status (find_event (w_db w2) (cl_event_id ((c # cs) ! i))) = Some (row_target (rs ! i))"
    if "i < length (c # cs)" for i
    using that rs w2(3,4) w1(3) new by (cases i) simp_all
  moreover have "find_event (w_db w2) y = find_event (w_db w) y" if "y \<notin> cl_event_id ` set (c # cs)" for y
    using that w2(4) w1(4) by simp
  ultimately show ?case
    using w1(1) w2(1,2) rs by (intro exI [of _ w2]) simp
qed

lemma set_by_id_keys [simp]: "set (by_id_keys batch) = cl_event_id ` set batch"
  by (simp add: by_id_keys_def)

lemma load_events_run:
  "load_events ids w = (Inr (filter (\<lambda>x. find_event (w_db w) x \<noteq> None) ids), w)"
  by (simp add: load_events_def on_db_gets)

lemma apply_result_run:
  assumes "length (br_rows result) = length batch" and "distinct (map cl_event_id batch)"
    and "\<forall>c \<in> set batch. map_option ev_status (find_event (w_db w) (cl_event_id c)) = Some UPLOADING"
    and "store_fits (w_db w)" and "codes_fit (br_rows result)"
  shows "\<exists>w'. apply_result batch result now w = (Inr (fold count_row (br_rows result) no_report), w') \<and>
    (\<forall>i < length batch. map_option ev_status (find_event (w_db w') (cl_event_id (batch ! i))) =
       Some (row_target (br_rows result ! i))) \<and>
    (\<forall>y. y \<notin> cl_event_id ` set batch \<longrightarrow> find_event (w_db w') y = find_event (w_db w) y)"
proof -
  let ?l = "filter (\<lambda>x. find_event (w_db w) x \<noteq> None) (by_id_keys batch)"
  have "\<forall>c \<in> set batch. cl_event_id c \<in> set ?l \<and>
      map_option ev_status (find_event (w_db w) (cl_event_id c)) = Some UPLOADING"
    using assms(3) by auto
  then obtain w' where w': "apply_rows now ?l batch (br_rows result) no_report w =
        (Inr (fold count_row (br_rows result) no_report), w')" "store_fits (w_db w')"
      "\<forall>i < length batch. map_option ev_status (find_event (w_db w') (cl_event_id (batch ! i))) =
         Some (row_target (br_rows result ! i))"
      "\<forall>y. y \<notin> cl_event_id ` set batch \<longrightarrow> find_event (w_db w') y = find_event (w_db w) y"
    using apply_rows_ok [OF assms(1,2) _ assms(4,5)] by blast
  have "se_bind (load_events (by_id_keys batch)) (\<lambda>loaded.
      apply_rows now loaded batch (br_rows result) no_report) w =
      (Inr (fold count_row (br_rows result) no_report), w')"
    using w'(1) by (simp add: se_bind_def load_events_run)
  then show ?thesis
    unfolding apply_result_def using w'(2-4) by (intro exI [of _ w'] conjI transaction_commit)
qed

lemma count_rows_total:
  "uploaded (fold count_row rs report) + retry_later (fold count_row rs report) +
     dead_lettered_count (fold count_row rs report) =
   uploaded report + retry_later report + dead_lettered_count report + length rs"
  by (induction rs arbitrary: report) (simp_all add: count_row_def)

end
