(* ===== verification/Signature.thy ===== *)
theory Signature
  imports Canonical
begin

text \<open>
  \<open>gateway/api/signature.py\<close>: webhook authentication. Header values are strings of code points
  below 256 (Starlette decodes them as Latin-1); the clock is a rational number of seconds. A
  header that Python chokes on makes \<open>verify\<close> raise instead of returning a reason.
\<close>

datatype SignatureFailure =
    MISSING_TIMESTAMP
  | MISSING_SIGNATURE
  | MALFORMED_TIMESTAMP
  | MALFORMED_SIGNATURE
  | TIMESTAMP_OUT_OF_WINDOW
  | SIGNATURE_MISMATCH
  | SOURCE_NOT_CONFIGURED

section \<open>Python's \<open>int(str)\<close>\<close>

text \<open>The values of decimal digits of any script, with single underscores between them.\<close>

fun digit_groups :: "ucd \<Rightarrow> pystr \<Rightarrow> nat list option" where
  "digit_groups U [] = None"
| "digit_groups U [c] = map_option (\<lambda>v. [v]) (char_decimal U c)"
| "digit_groups U (c # d # s) =
     (case char_decimal U c of
        None \<Rightarrow> None
      | Some v \<Rightarrow> map_option (Cons v) (if d = 95 then digit_groups U s else digit_groups U (d # s)))"

definition nat_of_digits :: "nat list \<Rightarrow> nat" where
  "nat_of_digits vs = foldl (\<lambda>n v. 10 * n + v) 0 vs"

text \<open>\<open>None\<close> is \<open>ValueError\<close>; Python refuses more than 4300 digits.\<close>

definition py_int :: "ucd \<Rightarrow> pystr \<Rightarrow> int option" where
  "py_int U s =
     (let t = str_strip U s;
          (negative, body) = (case t of [] \<Rightarrow> (False, [])
                              | c # cs \<Rightarrow> if c = 45 then (True, cs) else if c = 43 then (False, cs) else (False, t))
      in case digit_groups U body of
           None \<Rightarrow> None
         | Some ds \<Rightarrow>
             if length ds > 4300 then None
             else Some (if negative then - int (nat_of_digits ds) else int (nat_of_digits ds)))"

text \<open>\<open>float - int\<close> converts the integer first: \<open>OverflowError\<close> beyond the largest float.\<close>

definition float_overflow :: "int \<Rightarrow> bool" where
  "float_overflow n \<longleftrightarrow> \<bar>n\<bar> \<ge> 2 ^ 1024 - 2 ^ 970"

section \<open>compute\_signature and verify\<close>

definition compute_signature :: "pystr \<Rightarrow> pystr \<Rightarrow> bytes \<Rightarrow> exn + pystr" where
  "compute_signature secret timestamp body =
     (if \<not> is_ascii timestamp then Inl UnicodeEncodeError
      else Inr (lit ''sha256='' @
        hmac_sha256_hexdigest (utf8_encode secret) (timestamp @ lit ''.'' @ body)))"

text \<open>\<open>hmac.compare_digest\<close> of two strings: only ASCII is allowed.\<close>

definition compare_digest :: "pystr \<Rightarrow> pystr \<Rightarrow> exn + bool" where
  "compare_digest a b = (if is_ascii a \<and> is_ascii b then Inr (a = b) else Inl TypeError)"

definition verify ::
  "ucd \<Rightarrow> pystr \<Rightarrow> pystr option \<Rightarrow> pystr option \<Rightarrow> bytes \<Rightarrow> rat \<Rightarrow> int \<Rightarrow> exn + SignatureFailure option" where
  "verify U secret timestamp_header signature_header body now tolerance_seconds =
     (if secret = [] then Inr (Some SOURCE_NOT_CONFIGURED)
      else case timestamp_header of
        None \<Rightarrow> Inr (Some MISSING_TIMESTAMP)
      | Some ts \<Rightarrow>
        (case signature_header of
          None \<Rightarrow> Inr (Some MISSING_SIGNATURE)
        | Some sig \<Rightarrow>
          (case py_int U ts of
            None \<Rightarrow> Inr (Some MALFORMED_TIMESTAMP)
          | Some sent_at \<Rightarrow>
            if \<not> str_startswith sig (lit ''sha256='') \<or> length sig \<noteq> length (lit ''sha256='') + 64
            then Inr (Some MALFORMED_SIGNATURE)
            else if float_overflow sent_at then Inl OverflowError
            else if \<bar>now - of_int sent_at\<bar> > of_int tolerance_seconds
            then Inr (Some TIMESTAMP_OUT_OF_WINDOW)
            else (case compute_signature secret ts body of
                Inl e \<Rightarrow> Inl e
              | Inr expected \<Rightarrow>
                (case compare_digest expected (str_lower U sig) of
                   Inl e \<Rightarrow> Inl e
                 | Inr same \<Rightarrow> Inr (if same then None else Some SIGNATURE_MISMATCH))))))"

section \<open>Lemmas\<close>

lemma nat_of_digits_append: "nat_of_digits (vs @ [v]) = 10 * nat_of_digits vs + v"
  by (simp add: nat_of_digits_def)

lemma nat_of_digits_of_nat: "nat_of_digits (map (\<lambda>c. c - 48) (digits_of_nat n)) = n"
proof (induction n rule: digits_of_nat.induct)
  case (1 n)
  show ?case
  proof (cases "n < 10")
    case True
    then show ?thesis by (subst digits_of_nat.simps) (simp add: nat_of_digits_def)
  next
    case False
    with 1 show ?thesis by (subst digits_of_nat.simps) (simp add: nat_of_digits_append)
  qed
qed

lemma digit_groups_digits:
  "s \<noteq> [] \<Longrightarrow> \<forall>c \<in> set s. is_digit c \<Longrightarrow> digit_groups U s = Some (map (\<lambda>c. c - 48) s)"
  by (induction U s rule: digit_groups.induct) (auto simp: char_decimal_digit is_digit_def [of 95])

text \<open>The timestamp that a sender writes with \<open>str(int(time.time()))\<close> is read back.\<close>

lemma py_int_str_of_nat:
  assumes "length (str_of_nat n) \<le> 4300"
  shows "py_int U (str_of_nat n) = Some (int n)"
proof -
  let ?d = "digits_of_nat n"
  have dig: "\<forall>c \<in> set ?d. is_digit c" using digits_of_nat_digits by blast
  have "str_strip U ?d = ?d"
    by (rule str_strip_id) (use dig is_digit_plain in \<open>auto simp: char_isspace_def\<close>)
  moreover obtain c cs where "?d = c # cs" by (cases ?d) simp_all
  moreover have "digit_groups U ?d = Some (map (\<lambda>c. c - 48) ?d)" using dig by (simp add: digit_groups_digits)
  ultimately show ?thesis
    using assms dig nat_of_digits_of_nat [of n]
    by (auto simp: py_int_def str_of_nat_def is_digit_def Let_def)
qed

lemma compute_signature_shape:
  assumes "compute_signature secret ts body = Inr s"
  shows "str_startswith s (lit ''sha256='')" and "length s = 71" and "is_ascii s" and "str_lower U s = s"
proof -
  from assms obtain d where s: "s = lit ''sha256='' @ d" and d: "is_hex64 d"
    by (auto simp: compute_signature_def split: if_splits)
  show "str_startswith s (lit ''sha256='')" using s by (simp add: str_startswith_append)
  show "length s = 71" using s d by (simp add: is_hex64_def)
  show a: "is_ascii s" using s d is_hex64_ascii by (simp add: lit_def)
  have "map ascii_lower s = s"
    using d by (auto simp: s is_hex64_def lit_def ascii_lower_def intro!: map_idI)
  with a show "str_lower U s = s" by (simp add: str_lower_ascii)
qed

text \<open>Everything an accepted request satisfies.\<close>

lemma verify_accepts_iff:
  "verify U secret th sh body now tol = Inr None \<longleftrightarrow>
     secret \<noteq> [] \<and>
     (\<exists>ts sig sent_at. th = Some ts \<and> sh = Some sig \<and> py_int U ts = Some sent_at \<and>
        str_startswith sig (lit ''sha256='') \<and> length sig = 71 \<and> \<not> float_overflow sent_at \<and>
        \<bar>now - of_int sent_at\<bar> \<le> of_int tol \<and> is_ascii (str_lower U sig) \<and>
        compute_signature secret ts body = Inr (str_lower U sig))"
  by (auto simp: verify_def compare_digest_def Let_def not_less
      dest: compute_signature_shape(3)
      split: option.splits if_splits sum.splits)

end
