(* ===== verification/Ingest.thy ===== *)
theory Ingest
  imports Queue Signature Config
begin

text \<open>
  The API: \<open>gateway/api/schemas\<close> (the validated payloads), \<open>gateway/api/mappers.py\<close> and
  \<open>gateway/api/routes.py\<close>. Pydantic's validation of a decoded body against a schema is a
  parameter (its result is a payload record or a list of errors), and so is \<open>json.loads\<close>; both are
  in the record \<open>parsers\<close>.
\<close>

section \<open>Schemas\<close>

record SalesforceLead =
  sl_id :: pystr
  sl_email :: "pystr option"
  sl_phone :: "pystr option"
  sl_first_name :: "pystr option"
  sl_last_name :: "pystr option"
  sl_street :: "pystr option"
  sl_city :: "pystr option"
  sl_state_code :: "pystr option"
  sl_postal_code :: "pystr option"
  sl_country_code :: "pystr option"
  sl_gclid :: "pystr option"
  sl_consent_ad_user_data :: "ConsentStatus option"
  sl_consent_ad_personalization :: "ConsentStatus option"

record SalesforceWebhook =
  sw_event_id :: pystr
  sw_event_time :: datetime
  sw_conversion_action :: pystr
  sw_amount :: "rat option"
  sw_currency :: "pystr option"
  sw_lead :: SalesforceLead

record HubSpotProperties =
  hp_email :: "pystr option"
  hp_phone :: "pystr option"
  hp_firstname :: "pystr option"
  hp_lastname :: "pystr option"
  hp_address :: "pystr option"
  hp_city :: "pystr option"
  hp_state :: "pystr option"
  hp_zip :: "pystr option"
  hp_country :: "pystr option"
  hp_hs_google_click_id :: "pystr option"
  hp_amount :: "rat option"
  hp_deal_currency_code :: "pystr option"
  hp_ad_user_data_consent :: "ConsentStatus option"
  hp_ad_personalization_consent :: "ConsentStatus option"

record HubSpotWebhook =
  hw_event_id :: int
  hw_object_id :: int
  hw_occurred_at :: int
  hw_conversion_action :: pystr
  hw_properties :: HubSpotProperties

text \<open>One entry of pydantic's error list: where and what, without the input value.\<close>

datatype loc_part = LocStr pystr | LocInt int

record validation_error =
  ve_loc :: "loc_part list"
  ve_type :: pystr

record parsers =
  json_loads :: "bytes \<Rightarrow> json option"
  validate_salesforce :: "json \<Rightarrow> validation_error list + SalesforceWebhook"
  validate_hubspot :: "json \<Rightarrow> validation_error list + HubSpotWebhook"

section \<open>mappers.py\<close>

definition make_event_id :: "Source \<Rightarrow> pystr \<Rightarrow> pystr" where
  "make_event_id source source_event_id = source_value source @ lit '':'' @ source_event_id"

definition present :: "ucd \<Rightarrow> pystr option \<Rightarrow> pystr option" where
  "present U value =
     (case value of None \<Rightarrow> None | Some v \<Rightarrow> if str_strip U v = [] then None else Some v)"

text \<open>\<open>v or None\<close>\<close>

definition or_none :: "pystr option \<Rightarrow> pystr option" where
  "or_none v = (if truthy v then v else None)"

text \<open>
  The mappers raise \<open>ValidationError\<close> (\<open>Inl (Inr errors)\<close>) from the model's validator of
  \<open>conversion_time\<close>, and whatever \<open>datetime.fromtimestamp\<close> raises (\<open>Inl (Inl e)\<close>).
\<close>

definition naive_time_error :: validation_error where
  "naive_time_error = \<lparr>ve_loc = [LocStr (lit ''conversion_time'')], ve_type = lit ''value_error''\<rparr>"

definition check_event :: "CanonicalLeadEvent \<Rightarrow> (exn + validation_error list) + CanonicalLeadEvent" where
  "check_event e =
     (case must_be_timezone_aware (ce_conversion_time e) of
        Inl _ \<Rightarrow> Inl (Inr [naive_time_error]) | Inr _ \<Rightarrow> Inr e)"

definition map_salesforce ::
  "ucd \<Rightarrow> SalesforceWebhook \<Rightarrow> (exn + validation_error list) + CanonicalLeadEvent" where
  "map_salesforce U payload =
     (let lead = sw_lead payload in
      check_event
        \<lparr>ce_event_id = make_event_id SALESFORCE (sw_event_id payload),
         ce_source = SALESFORCE,
         ce_source_event_id = sw_event_id payload,
         ce_correlation_id = None,
         ce_conversion_action = sw_conversion_action payload,
         ce_conversion_time = sw_event_time payload,
         ce_conversion_value = sw_amount payload,
         ce_currency = sw_currency payload,
         ce_click_id = or_none (sl_gclid lead),
         ce_identifiers =
           \<lparr>raw_email = present U (sl_email lead),
            raw_phone = present U (sl_phone lead),
            raw_given_name = present U (sl_first_name lead),
            raw_family_name = present U (sl_last_name lead),
            raw_street_address = present U (sl_street lead),
            raw_city = present U (sl_city lead),
            raw_region = present U (sl_state_code lead),
            raw_postal_code = present U (sl_postal_code lead),
            raw_country = present U (sl_country_code lead)\<rparr>,
         ce_consent =
           \<lparr>ad_user_data = sl_consent_ad_user_data lead,
            ad_personalization = sl_consent_ad_personalization lead\<rparr>\<rparr>)"

text \<open>
  \<open>datetime.fromtimestamp(ms / 1000, tz=UTC)\<close>: the proleptic Gregorian date of a number of days,
  by the civil-from-days computation on 400-year eras of 146097 days that start on 1 March. A year
  above 9999 raises; CPython's error is a \<open>ValueError\<close> or, for a huge value, an \<open>OverflowError\<close>.
\<close>

definition civil_from_days :: "int \<Rightarrow> int \<times> int \<times> int" where
  "civil_from_days days =
     (let z = days + 719468;
          era = z div 146097;
          doe = z mod 146097;
          yoe = (doe - doe div 1460 + doe div 36524 - doe div 146096) div 365;
          doy = doe - (365 * yoe + yoe div 4 - yoe div 100);
          mp = (5 * doy + 2) div 153;
          d = doy - (153 * mp + 2) div 5 + 1;
          m = (if mp < 10 then mp + 3 else mp - 9)
      in ((yoe + era * 400) + (if m \<le> 2 then 1 else 0), m, d))"

definition fromtimestamp_ms :: "int \<Rightarrow> exn + datetime" where
  "fromtimestamp_ms ms =
     (let secs = ms div 1000;
          (y, m, d) = civil_from_days (secs div 86400);
          s = secs mod 86400
      in if y < 1 \<or> y > 9999 then Inl (if \<bar>secs\<bar> < 2 ^ 62 then ValueError else OverflowError)
         else Inr \<lparr>dt_year = nat y, dt_month = nat m, dt_day = nat d,
                   dt_hour = nat (s div 3600), dt_minute = nat (s mod 3600 div 60),
                   dt_second = nat (s mod 60), dt_microsecond = nat (ms mod 1000 * 1000),
                   dt_utcoffset = Some 0\<rparr>)"

definition map_hubspot ::
  "ucd \<Rightarrow> HubSpotWebhook \<Rightarrow> (exn + validation_error list) + CanonicalLeadEvent" where
  "map_hubspot U payload =
     (let props = hw_properties payload in
      case fromtimestamp_ms (hw_occurred_at payload) of
        Inl e \<Rightarrow> Inl (Inl e)
      | Inr time \<Rightarrow>
      check_event
        \<lparr>ce_event_id = make_event_id HUBSPOT (str_of_int (hw_event_id payload)),
         ce_source = HUBSPOT,
         ce_source_event_id = str_of_int (hw_event_id payload),
         ce_correlation_id = None,
         ce_conversion_action = hw_conversion_action payload,
         ce_conversion_time = time,
         ce_conversion_value = hp_amount props,
         ce_currency = hp_deal_currency_code props,
         ce_click_id = or_none (hp_hs_google_click_id props),
         ce_identifiers =
           \<lparr>raw_email = present U (hp_email props),
            raw_phone = present U (hp_phone props),
            raw_given_name = present U (hp_firstname props),
            raw_family_name = present U (hp_lastname props),
            raw_street_address = present U (hp_address props),
            raw_city = present U (hp_city props),
            raw_region = present U (hp_state props),
            raw_postal_code = present U (hp_zip props),
            raw_country = present U (hp_country props)\<rparr>,
         ce_consent =
           \<lparr>ad_user_data = hp_ad_user_data_consent props,
            ad_personalization = hp_ad_personalization_consent props\<rparr>\<rparr>)"

definition parse_and_map ::
  "ucd \<Rightarrow> parsers \<Rightarrow> Source \<Rightarrow> json \<Rightarrow> (exn + validation_error list) + CanonicalLeadEvent" where
  "parse_and_map U V source payload =
     (case source of
        SALESFORCE \<Rightarrow>
          (case validate_salesforce V payload of Inl es \<Rightarrow> Inl (Inr es) | Inr p \<Rightarrow> map_salesforce U p)
      | HUBSPOT \<Rightarrow>
          (case validate_hubspot V payload of Inl es \<Rightarrow> Inl (Inr es) | Inr p \<Rightarrow> map_hubspot U p))"

fun extract_source_event_id :: "ucd \<Rightarrow> Source \<Rightarrow> json \<Rightarrow> pystr option" where
  "extract_source_event_id U source (JObj kvs) =
     (case map_of kvs (lit (case source of SALESFORCE \<Rightarrow> ''EventId'' | HUBSPOT \<Rightarrow> ''eventId'')) of
        Some (JInt i) \<Rightarrow> Some (str_of_int i)
      | Some (JStr s) \<Rightarrow> if str_strip U s = [] then None else Some s
      | _ \<Rightarrow> None)"
| "extract_source_event_id U source _ = None"

record field_error =
  fe_field :: pystr
  fe_reason :: pystr

fun loc_str :: "loc_part \<Rightarrow> pystr" where
  "loc_str (LocStr s) = s"
| "loc_str (LocInt i) = str_of_int i"

definition rejection_reasons :: "validation_error list \<Rightarrow> field_error list" where
  "rejection_reasons errors =
     map (\<lambda>err. let f = str_join (lit ''.'') (map loc_str (ve_loc err)) in
                 \<lparr>fe_field = (if f = [] then lit ''body'' else f), fe_reason = ve_type err\<rparr>) errors"

section \<open>routes.py\<close>

datatype response =
    AcceptedResponse nat pystr EventStatus pystr
  | RejectedResponse pystr pystr "field_error list"
  | HttpError nat "SignatureFailure option"

definition source_or_404 :: "pystr \<Rightarrow> Source option" where
  "source_or_404 source =
     (if source = source_value SALESFORCE then Some SALESFORCE
      else if source = source_value HUBSPOT then Some HUBSPOT else None)"

fun secret_for :: "Settings \<Rightarrow> Source \<Rightarrow> pystr" where
  "secret_for cfg SALESFORCE = webhook_secret_salesforce cfg"
| "secret_for cfg HUBSPOT = webhook_secret_hubspot cfg"

definition error_text :: "field_error list \<Rightarrow> pystr" where
  "error_text errors =
     take 512 (str_join (lit '';'') (map (\<lambda>e. fe_reason e @ lit '':'' @ fe_field e) errors))"

definition reject ::
  "Source \<Rightarrow> bytes \<Rightarrow> pystr option \<Rightarrow> field_error list \<Rightarrow> time \<Rightarrow> pystr \<Rightarrow> ('q, 'm, response) wse" where
  "reject source body source_event_id errors now correlation_id =
     (let sid = (case source_event_id of
                   None \<Rightarrow> lit ''unparsed:'' @ take 16 (sha256_hexdigest body) | Some s \<Rightarrow> s);
          event_id = make_event_id source sid;
          reason = error_text errors
      in se_bind (transaction (
           se_bind (on_db (record_rejected event_id (source_value source) sid reason now)) (\<lambda>row.
           case row of
             None \<Rightarrow> se_return ()
           | Some r \<Rightarrow>
               on_db (set_event event_id (\<lambda>e. e\<lparr>ev_correlation_id := Some correlation_id\<rparr>))))) (\<lambda>_.
         se_bind (inc (events_received_total (source_value source) (lit ''unknown''))) (\<lambda>_.
         se_bind (se_foreach errors (\<lambda>e.
           inc (events_rejected_total (source_value source) (lit ''unknown'') (fe_reason e)))) (\<lambda>_.
         se_return (RejectedResponse event_id correlation_id errors)))))"

text \<open>The transaction of an event that passed validation: the answer, and whether it is new.\<close>

definition accept_event :: "CanonicalLeadEvent \<Rightarrow> time \<Rightarrow> pystr \<Rightarrow> ('q, 'm, response \<times> bool) wse" where
  "accept_event event now correlation_id =
     transaction (
       se_bind (on_db (record_validated event now)) (\<lambda>row.
       case row of
         None \<Rightarrow>
           se_bind (on_db (the_event (ce_event_id event))) (\<lambda>existing.
           se_return (AcceptedResponse 200 (ev_event_id existing) (ev_status existing)
             (if truthy (ev_correlation_id existing) then the (ev_correlation_id existing) else correlation_id),
             False))
       | Some r \<Rightarrow> se_return (AcceptedResponse 202 (ev_event_id r) (ev_status r) correlation_id, True)))"

definition ingest_body ::
  "ucd \<Rightarrow> parsers \<Rightarrow> (QueueMessage \<Rightarrow> ('q, exn, unit) se) \<Rightarrow> Source \<Rightarrow> bytes \<Rightarrow> time \<Rightarrow> pystr \<Rightarrow>
   ('q, 'm, response) wse" where
  "ingest_body U V publish src body now correlation_id =
     (case json_loads V body of
        None \<Rightarrow>
          reject src body None [\<lparr>fe_field = lit ''body'', fe_reason = lit ''malformed_json''\<rparr>] now correlation_id
      | Some payload \<Rightarrow>
          (case parse_and_map U V src payload of
             Inl (Inl e) \<Rightarrow> se_raise e
           | Inl (Inr errors) \<Rightarrow>
               reject src body (extract_source_event_id U src payload) (rejection_reasons errors) now correlation_id
           | Inr parsed \<Rightarrow>
               let event = parsed\<lparr>ce_correlation_id := Some correlation_id\<rparr> in
               se_bind (accept_event event now correlation_id) (\<lambda>answer.
                 if \<not> snd answer then se_return (fst answer)
                 else
                   se_bind (inc (events_received_total (source_value src) (ce_conversion_action event))) (\<lambda>_.
                   se_bind (se_try (on_queue (publish
                     \<lparr>qm_event_id = ce_event_id event, qm_identifiers = ce_identifiers event,
                      qm_enqueued_at = now, qm_correlation_id = Some correlation_id\<rparr>)) (\<lambda>e. se_return ())) (\<lambda>_.
                   se_return (fst answer))))))"

text \<open>
  \<open>POST /webhooks/crm/{source}\<close>: the dependency \<open>verified_body\<close>, then the handler. \<open>clock\<close> is
  \<open>time.time()\<close> in the dependency.
\<close>

definition post_webhook ::
  "ucd \<Rightarrow> parsers \<Rightarrow> Settings \<Rightarrow> (QueueMessage \<Rightarrow> ('q, exn, unit) se) \<Rightarrow> pystr \<Rightarrow> pystr option \<Rightarrow>
   pystr option \<Rightarrow> bytes \<Rightarrow> rat \<Rightarrow> time \<Rightarrow> pystr \<Rightarrow> ('q, 'm, response) wse" where
  "post_webhook U V cfg publish source timestamp_header signature_header body clock now correlation_id =
     (case source_or_404 source of
        None \<Rightarrow> se_return (HttpError 404 None)
      | Some src \<Rightarrow>
          (case verify U (secret_for cfg src) timestamp_header signature_header body clock
                  (webhook_timestamp_tolerance_seconds cfg) of
             Inl e \<Rightarrow> se_raise e
           | Inr (Some failure) \<Rightarrow> se_return (HttpError 401 (Some failure))
           | Inr None \<Rightarrow> ingest_body U V publish src body now correlation_id))"

text \<open>\<open>GET /events/{event_id}\<close>: \<open>None\<close> is the 404.\<close>

record TransitionResponse =
  tn_from_status :: "EventStatus option"
  tn_to_status :: EventStatus
  tn_reason :: "pystr option"
  tn_occurred_at :: time

record EventResponse =
  er_event_id :: pystr
  er_source :: pystr
  er_status :: EventStatus
  er_status_reason :: "pystr option"
  er_received_at :: time
  er_conversion_action :: "pystr option"
  er_match_key_type :: "pystr option"
  er_attempt_count :: nat
  er_transitions :: "TransitionResponse list"

definition transition_response :: "event_transition \<Rightarrow> TransitionResponse" where
  "transition_response t =
     \<lparr>tn_from_status = tr_from_status t, tn_to_status = tr_to_status t, tn_reason = tr_reason t,
      tn_occurred_at = tr_occurred_at t\<rparr>"

definition get_event_route :: "pystr \<Rightarrow> ('q, 'm, EventResponse option) wse" where
  "get_event_route event_id =
     se_bind (on_db (get_event event_id)) (\<lambda>r.
       case r of
         None \<Rightarrow> se_return None
       | Some row \<Rightarrow>
           se_bind (on_db (se_gets (\<lambda>db. list_transitions db event_id))) (\<lambda>ts.
           se_return (Some
             \<lparr>er_event_id = ev_event_id row, er_source = ev_source row, er_status = ev_status row,
              er_status_reason = ev_status_reason row, er_received_at = ev_received_at row,
              er_conversion_action = ev_conversion_action row,
              er_match_key_type = ev_match_key_type row, er_attempt_count = ev_attempt_count row,
              er_transitions = map transition_response ts\<rparr>)))"

text \<open>
  \<open>GET /metrics\<close>, \<open>/healthz\<close> and \<open>/readyz\<close>. The exposition format is the client library's
  (\<open>generate_latest\<close>); \<open>ping\<close> is the statement \<open>SELECT 1\<close> on the database connection.
\<close>

definition metrics_endpoint :: "(registry \<Rightarrow> bytes) \<Rightarrow> ('q, 'm, bytes) wse" where
  "metrics_endpoint generate_latest = se_gets (\<lambda>w. generate_latest (w_metrics w))"

definition healthz :: "('q, 'm, json) wse" where
  "healthz = se_return (JObj [(lit ''status'', JStr (lit ''ok''))])"

definition readyz :: "('q, 'm, unit) wse \<Rightarrow> ('q, 'm, nat \<times> json) wse" where
  "readyz ping =
     se_try
       (se_bind ping (\<lambda>_. se_return (200, JObj
          [(lit ''status'', JStr (lit ''ok'')), (lit ''database'', JStr (lit ''ok''))])))
       (\<lambda>exc. se_return (503, JObj
          [(lit ''status'', JStr (lit ''unavailable'')), (lit ''database'', JStr (lit ''unreachable''))]))"

text \<open>
  What the API tells of an event: the row and its audit log. The personal data is not part of the
  response, only the row's columns named in it.
\<close>

lemma get_event_route_run:
  "get_event_route x w =
     (Inr (map_option (\<lambda>row.
        \<lparr>er_event_id = x, er_source = ev_source row, er_status = ev_status row,
         er_status_reason = ev_status_reason row, er_received_at = ev_received_at row,
         er_conversion_action = ev_conversion_action row, er_match_key_type = ev_match_key_type row,
         er_attempt_count = ev_attempt_count row,
         er_transitions = map transition_response (list_transitions (w_db w) x)\<rparr>)
        (find_event (w_db w) x)), w)"
  by (auto simp: get_event_route_def se_bind_def on_db_get_event on_db_gets find_event_id split: option.split)

text \<open>A database that does not answer is a 503, never an exception, and readiness changes nothing of its own.\<close>

lemma readyz_run:
  "readyz ping w = (case ping w of
     (Inr u, w') \<Rightarrow> (Inr (200, JObj [(lit ''status'', JStr (lit ''ok'')), (lit ''database'', JStr (lit ''ok''))]), w')
   | (Inl e, w') \<Rightarrow> (Inr (503, JObj [(lit ''status'', JStr (lit ''unavailable'')),
                                   (lit ''database'', JStr (lit ''unreachable''))]), w'))"
  by (simp add: readyz_def se_try_def se_bind_def split: prod.split sum.split)

section \<open>Behaviour\<close>

lemma map_event_source:
  assumes "parse_and_map U V src payload = Inr e"
  shows "ce_source e = src" and "ce_event_id e = make_event_id src (ce_source_event_id e)"
    and "dt_utcoffset (ce_conversion_time e) \<noteq> None"
  using assms
  by (auto simp: parse_and_map_def map_salesforce_def map_hubspot_def check_event_def
      must_be_timezone_aware_def Let_def split: Source.splits sum.splits if_splits)

text \<open>Two sources never share an event id.\<close>

lemma make_event_id_inject: "make_event_id s x = make_event_id t y \<longleftrightarrow> s = t \<and> x = y"
  by (cases s; cases t) (auto simp: make_event_id_def lit_def)

text \<open>The two ways the transaction of a valid event ends.\<close>

lemma accept_event_new:
  assumes "find_event (w_db w) (ce_event_id event) = None" and "event_fits (validated_row event now)"
    and "store_fits (w_db w)"
  shows "accept_event event now corr w =
    (Inr (AcceptedResponse 202 (ce_event_id event) QUEUED corr, True),
     w\<lparr>w_db := recorded (validated_row event now) now (w_db w)\<rparr>)"
proof -
  let ?row = "validated_row event now"
  have id: "ev_event_id ?row = ce_event_id event" by (simp add: validated_row_def)
  have "store_fits (recorded ?row now (w_db w))"
    unfolding recorded_def Let_def
    using assms id by (intro store_fits_moved store_fits_created)
      (simp_all add: find_event_moved find_event_created)
  moreover have "on_db (record_validated event now) w =
      (Inr (Some (queued_row ?row)), w\<lparr>w_db := recorded ?row now (w_db w)\<rparr>)"
    using assms by (intro on_db_run) (simp add: record_validated_run Let_def)
  ultimately show ?thesis
    unfolding accept_event_def
    by (intro transaction_commit) (simp_all add: se_bind_def queued_row_def id)
qed

lemma accept_event_duplicate:
  assumes "find_event (w_db w) (ce_event_id event) = Some e" and "event_fits (validated_row event now)"
    and "store_fits (w_db w)"
  shows "accept_event event now corr w =
    (Inr (AcceptedResponse 200 (ce_event_id event) (ev_status e)
            (if truthy (ev_correlation_id e) then the (ev_correlation_id e) else corr), False), w)"
proof -
  have "on_db (record_validated event now) w = (Inr None, w)"
    using assms by (simp add: on_db_def record_validated_run Let_def)
  moreover have "on_db (the_event (ce_event_id event)) w = (Inr e, w)"
    using assms(1) by (simp add: on_db_def the_event_run)
  ultimately show ?thesis
    unfolding accept_event_def
    using assms find_event_id [OF assms(1)]
    by (intro transaction_commit) (simp_all add: se_bind_def)
qed

section \<open>Invariants through the API\<close>

context ledger_invariant
begin

lemma preserves_accept_event: "preserves (\<lambda>w. I (w_db w)) (accept_event event now corr)"
  unfolding accept_event_def
  by (intro preserves_transaction keeps_intro keeps_on_db keeps_record_validated)
    (auto simp: the_event_def intro!: keeps_intro)

lemma preserves_reject: "preserves (\<lambda>w. I (w_db w)) (reject source body sid errors now corr)"
  unfolding reject_def Let_def
  by (intro preserves_bind preserves_transaction keeps_bind keeps_on_db keeps_record_rejected
      keeps_case_option keeps_return keeps_set_correlation preserves_foreach preserves_inc preserves_return)

lemma preserves_post_webhook:
  "preserves (\<lambda>w. I (w_db w)) (post_webhook U V cfg publish source th sh body clock now corr)"
  unfolding post_webhook_def ingest_body_def Let_def
  by (intro preserves_intro preserves_reject preserves_accept_event)

end

end
