(* ===== verification/Text.thy ===== *)
theory Text
  imports Ingest Conversion
begin

text \<open>
  What the operator commands use of Python to print: padded fields of f-strings, ISO timestamps,
  and \<open>json.dumps(..., indent=2)\<close> with its ASCII escapes and the shortest decimal form of a float.
\<close>

section \<open>Fields\<close>

text \<open>\<open>f"{s:<w}"\<close> and \<open>f"{s:>w}"\<close>\<close>

definition ljust :: "nat \<Rightarrow> pystr \<Rightarrow> pystr" where
  "ljust w s = s @ replicate (w - length s) 32"

definition rjust :: "nat \<Rightarrow> pystr \<Rightarrow> pystr" where
  "rjust w s = replicate (w - length s) 32 @ s"

definition NEWLINE :: pystr where
  "NEWLINE = [10]"

text \<open>\<open>int(x)\<close> of a quotient: towards zero.\<close>

definition trunc_div :: "int \<Rightarrow> int \<Rightarrow> int" where
  "trunc_div a b = (if a < 0 then - ((- a) div b) else a div b)"

section \<open>Instants\<close>

text \<open>The aware datetime of an instant in a time zone that is \<open>offset\<close> minutes ahead of UTC.\<close>

definition datetime_at :: "int \<Rightarrow> time \<Rightarrow> datetime" where
  "datetime_at offset t =
     (let local = t + offset * 60 * 1000000;
          secs = local div 1000000;
          (y, m, d) = civil_from_days (secs div 86400);
          s = secs mod 86400
      in \<lparr>dt_year = nat y, dt_month = nat m, dt_day = nat d,
          dt_hour = nat (s div 3600), dt_minute = nat (s mod 3600 div 60), dt_second = nat (s mod 60),
          dt_microsecond = nat (local mod 1000000), dt_utcoffset = Some offset\<rparr>)"

text \<open>The instant of an aware datetime; the days are counted on the eras of \<open>civil_from_days\<close>.\<close>

definition days_from_civil :: "int \<Rightarrow> int \<Rightarrow> int \<Rightarrow> int" where
  "days_from_civil y m d =
     (let y' = (if m \<le> 2 then y - 1 else y);
          era = y' div 400;
          yoe = y' mod 400;
          mp = (if m > 2 then m - 3 else m + 9);
          doy = (153 * mp + 2) div 5 + d - 1;
          doe = yoe * 365 + yoe div 4 - yoe div 100 + doy
      in era * 146097 + doe - 719468)"

definition instant :: "datetime \<Rightarrow> time" where
  "instant t =
     (let days = days_from_civil (int (dt_year t)) (int (dt_month t)) (int (dt_day t));
          secs = days * 86400 + int (dt_hour t) * 3600 + int (dt_minute t) * 60 + int (dt_second t);
          offset = (case dt_utcoffset t of None \<Rightarrow> 0 | Some m \<Rightarrow> m)
      in (secs - offset * 60) * 1000000 + int (dt_microsecond t))"

text \<open>\<open>isoformat()\<close> and \<open>isoformat(timespec="seconds")\<close>\<close>

definition isoformat_seconds :: "datetime \<Rightarrow> pystr" where
  "isoformat_seconds t =
     pad_digits 4 (dt_year t) @ lit ''-'' @ pad_digits 2 (dt_month t) @ lit ''-'' @ pad_digits 2 (dt_day t) @
     lit ''T'' @ pad_digits 2 (dt_hour t) @ lit '':'' @ pad_digits 2 (dt_minute t) @ lit '':'' @
     pad_digits 2 (dt_second t) @ format_offset (dt_utcoffset t)"

definition isoformat :: "datetime \<Rightarrow> pystr" where
  "isoformat t =
     pad_digits 4 (dt_year t) @ lit ''-'' @ pad_digits 2 (dt_month t) @ lit ''-'' @ pad_digits 2 (dt_day t) @
     lit ''T'' @ pad_digits 2 (dt_hour t) @ lit '':'' @ pad_digits 2 (dt_minute t) @ lit '':'' @
     pad_digits 2 (dt_second t) @
     (if dt_microsecond t = 0 then [] else lit ''.'' @ pad_digits 6 (dt_microsecond t)) @
     format_offset (dt_utcoffset t)"

section \<open>json.dumps\<close>

definition hex_char :: "nat \<Rightarrow> codepoint" where
  "hex_char n = (if n < 10 then 48 + n else 87 + n)"

text \<open>\<open>\uXXXX\<close>\<close>

definition unicode_escape :: "nat \<Rightarrow> pystr" where
  "unicode_escape n =
     92 # 117 # map (\<lambda>k. hex_char (n div 16 ^ k mod 16)) [3, 2, 1, 0]"

definition json_escape :: "codepoint \<Rightarrow> pystr" where
  "json_escape c =
     (if c = 34 then [92, 34] else if c = 92 then [92, 92]
      else if c = 10 then [92, 110] else if c = 13 then [92, 114] else if c = 9 then [92, 116]
      else if c = 12 then [92, 102] else if c = 8 then [92, 98]
      else if 32 \<le> c \<and> c \<le> 126 then [c]
      else if c < 65536 then unicode_escape c
      else let v = c - 65536
           in unicode_escape (55296 + v div 1024 mod 1024) @ unicode_escape (56320 + v mod 1024))"

definition json_string :: "pystr \<Rightarrow> pystr" where
  "json_string s = 34 # concat (map json_escape s) @ [34]"

text \<open>
  \<open>float.__repr__\<close>: the fewest significant digits, at most 17, that read back as the same float;
  positional between \<open>1e-4\<close> and \<open>1e16\<close>. The magnitudes are those of \<open>py_float\<close>.
\<close>

definition power10 :: "int \<Rightarrow> rat" where
  "power10 e = (if e < 0 then 1 / 10 ^ nat (- e) else 10 ^ nat e)"

definition decimal_exponent :: "rat \<Rightarrow> int" where
  "decimal_exponent v =
     (case find (\<lambda>k. v < power10 (int k - 29)) [0..<60] of None \<Rightarrow> 30 | Some k \<Rightarrow> int k - 30)"

definition shortest_decimal :: "rat \<Rightarrow> nat \<times> int" where
  "shortest_decimal v =
     (let e = decimal_exponent v;
          rounded = (\<lambda>n. nat (round_half_even (v * power10 (int n - 1 - e))));
          n = (case find (\<lambda>n. py_float (of_nat (rounded n) * power10 (e - int n + 1)) = v) [1..<17] of
                 None \<Rightarrow> 17 | Some n \<Rightarrow> n);
          digits = rounded n
      in if digits = 10 ^ n then (digits div 10, e + 1) else (digits, e))"

definition float_repr :: "rat \<Rightarrow> pystr" where
  "float_repr v =
     (if v = 0 then lit ''0.0''
      else
        let (digits, e) = shortest_decimal \<bar>v\<bar>;
            ds = digits_of_nat digits;
            n = length ds;
            tail = (\<lambda>xs. if xs = [] then lit ''.0'' else lit ''.'' @ xs)
        in (if v < 0 then lit ''-'' else []) @
           (if 16 \<le> e \<or> e < -4
            then take 1 ds @ (if n = 1 then [] else lit ''.'' @ drop 1 ds) @
                 lit ''e'' @ (if e < 0 then lit ''-'' else lit ''+'') @ pad_digits 2 (nat \<bar>e\<bar>)
            else if e < 0 then lit ''0.'' @ replicate (nat (- e) - 1) 48 @ ds
            else if n \<le> nat e + 1 then ds @ replicate (nat e + 1 - n) 48 @ lit ''.0''
            else take (nat e + 1) ds @ tail (drop (nat e + 1) ds)))"

text \<open>\<open>indent=2\<close>: \<open>level\<close> is the nesting depth of the value.\<close>

definition json_line :: "nat \<Rightarrow> pystr" where
  "json_line level = NEWLINE @ replicate (2 * level) 32"

fun json_dumps :: "nat \<Rightarrow> json \<Rightarrow> pystr" where
  "json_dumps level JNull = lit ''null''"
| "json_dumps level (JBool b) = (if b then lit ''true'' else lit ''false'')"
| "json_dumps level (JInt i) = str_of_int i"
| "json_dumps level (JNum v) = float_repr v"
| "json_dumps level (JStr s) = json_string s"
| "json_dumps level (JArr xs) =
     (if xs = [] then lit ''[]''
      else lit ''['' @
        str_join (lit '','') (map (\<lambda>x. json_line (Suc level) @ json_dumps (Suc level) x) xs) @
        json_line level @ lit '']'')"
| "json_dumps level (JObj kvs) =
     (if kvs = [] then lit ''{}''
      else lit ''{'' @
        str_join (lit '','')
          (map (\<lambda>(k, v). json_line (Suc level) @ json_string k @ lit '': '' @ json_dumps (Suc level) v) kvs) @
        json_line level @ lit ''}'')"

text \<open>\<open>json.dumps(v)\<close> without an indent: separators \<open>", "\<close> and \<open>": "\<close>.\<close>

fun json_compact :: "json \<Rightarrow> pystr" where
  "json_compact (JArr xs) = lit ''['' @ str_join (lit '', '') (map json_compact xs) @ lit '']''"
| "json_compact (JObj kvs) =
     lit ''{'' @ str_join (lit '', '') (map (\<lambda>(k, v). json_string k @ lit '': '' @ json_compact v) kvs) @
     lit ''}''"
| "json_compact v = json_dumps 0 v"

section \<open>What is printed is plain text\<close>

text \<open>Printable ASCII and line feeds: nothing that a terminal interprets.\<close>

definition plain_ascii :: "pystr \<Rightarrow> bool" where
  "plain_ascii s \<longleftrightarrow> (\<forall>c \<in> set s. c = 10 \<or> 32 \<le> c \<and> c \<le> 126)"

lemma plain_ascii_simps [simp]:
  "plain_ascii []"
  "plain_ascii (c # s) \<longleftrightarrow> (c = 10 \<or> 32 \<le> c \<and> c \<le> 126) \<and> plain_ascii s"
  "plain_ascii (s @ t) \<longleftrightarrow> plain_ascii s \<and> plain_ascii t"
  "plain_ascii (replicate n c) \<longleftrightarrow> n = 0 \<or> c = 10 \<or> 32 \<le> c \<and> c \<le> 126"
  by (auto simp: plain_ascii_def)

lemma plain_ascii_lit [simp]:
  "plain_ascii (lit s) \<longleftrightarrow> list_all (\<lambda>c. let n = of_char c in n = (10 :: nat) \<or> 32 \<le> n \<and> n \<le> 126) s"
  by (auto simp: plain_ascii_def lit_def list_all_iff Let_def)

lemma plain_ascii_concat: "(\<And>x. x \<in> set xs \<Longrightarrow> plain_ascii x) \<Longrightarrow> plain_ascii (concat xs)"
  by (auto simp: plain_ascii_def)

lemma plain_ascii_take: "plain_ascii s \<Longrightarrow> plain_ascii (take n s)"
  by (auto simp: plain_ascii_def dest: in_set_takeD)

lemma plain_ascii_drop: "plain_ascii s \<Longrightarrow> plain_ascii (drop n s)"
  by (auto simp: plain_ascii_def dest: in_set_dropD)

lemma plain_ascii_join:
  "plain_ascii sep \<Longrightarrow> (\<And>x. x \<in> set xs \<Longrightarrow> plain_ascii x) \<Longrightarrow> plain_ascii (str_join sep xs)"
proof (induction xs)
  case (Cons x xs)
  then show ?case by (cases xs) simp_all
qed simp

lemma plain_ascii_digits [simp]: "plain_ascii (digits_of_nat n)"
  using digits_of_nat_digits by (fastforce simp: plain_ascii_def is_digit_def)

lemma plain_ascii_pad [simp]: "plain_ascii (pad_digits w n)"
  by (simp add: pad_digits_def Let_def)

lemma plain_ascii_int [simp]: "plain_ascii (str_of_int i)" "plain_ascii (str_of_nat n)"
  by (simp_all add: str_of_int_def str_of_nat_def)

lemma hex_char_plain: "n < 16 \<Longrightarrow> 32 \<le> hex_char n \<and> hex_char n \<le> 126"
  by (simp add: hex_char_def)

lemma plain_ascii_escape: "plain_ascii (json_escape c)"
  using hex_char_plain by (simp add: json_escape_def unicode_escape_def Let_def)

lemma plain_ascii_string [simp]: "plain_ascii (json_string s)"
  by (auto simp: json_string_def plain_ascii_escape intro!: plain_ascii_concat)

lemma plain_ascii_float [simp]: "plain_ascii (float_repr v)"
  by (simp add: float_repr_def Let_def plain_ascii_take plain_ascii_drop split: prod.split)

lemma plain_ascii_line [simp]: "plain_ascii (json_line n)"
  by (simp add: json_line_def NEWLINE_def)

lemma plain_ascii_dumps: "plain_ascii (json_dumps n v)"
  by (induction n v rule: json_dumps.induct) (auto intro!: plain_ascii_join)

lemma plain_ascii_compact: "plain_ascii (json_compact v)"
  by (induction v rule: json_compact.induct) (auto intro!: plain_ascii_join)

end
