(* ===== verification/Cli.thy ===== *)
theory Cli
  imports Dlq Text
begin

text \<open>
  \<open>gateway/cli.py\<close>, the bodies of the operator commands: \<open>reconcile\<close>, \<open>dlq list\<close>, \<open>dlq show\<close> and
  \<open>dlq replay\<close>, with the text they write to \<open>out\<close>. \<open>tz t\<close> is the offset, in minutes, of the time
  zone in which the database driver returns the instant \<open>t\<close>; \<open>stored\<close> is what a JSONB column
  gives back for a document; \<open>fromisoformat\<close> is Python's parser of ISO timestamps.
\<close>

section \<open>reconcile\<close>

record stuck_row =
  st_event_id :: pystr
  st_source :: pystr
  st_age_seconds :: int
  st_recoverable :: bool
  st_correlation_id :: "pystr option"

definition is_recoverable :: "event \<Rightarrow> bool" where
  "is_recoverable e \<longleftrightarrow>
     ev_match_key_type e = Some (match_key_value CLICK_ID) \<or> ev_hashed_identifiers e \<noteq> None"

definition stuck_row_of :: "time \<Rightarrow> event \<Rightarrow> stuck_row" where
  "stuck_row_of now e =
     \<lparr>st_event_id = ev_event_id e, st_source = ev_source e,
      st_age_seconds = trunc_div (now - ev_received_at e) second,
      st_recoverable = is_recoverable e, st_correlation_id = ev_correlation_id e\<rparr>"

definition stuck_message :: "stuck_row \<Rightarrow> time \<Rightarrow> QueueMessage" where
  "stuck_message r now =
     \<lparr>qm_event_id = st_event_id r, qm_identifiers = no_identifiers, qm_enqueued_at = now,
      qm_correlation_id = st_correlation_id r\<rparr>"

definition stuck_header :: pystr where
  "stuck_header =
     ljust 40 (lit ''event_id'') @ lit '' '' @ ljust 11 (lit ''source'') @ lit '' '' @
     rjust 7 (lit ''age_s'') @ lit ''  action'' @ NEWLINE"

definition stuck_line :: "stuck_row \<Rightarrow> string \<Rightarrow> pystr" where
  "stuck_line r action =
     ljust 40 (st_event_id r) @ lit '' '' @ ljust 11 (st_source r) @ lit '' '' @
     rjust 7 (str_of_int (st_age_seconds r)) @ lit ''  '' @ lit action @ NEWLINE"

definition report_stuck ::
  "(QueueMessage \<Rightarrow> ('q, exn, unit) se) \<Rightarrow> bool \<Rightarrow> time \<Rightarrow> stuck_row \<Rightarrow> nat \<Rightarrow> ('q, 'm, nat) wse" where
  "report_stuck publish republish now r republished =
     (if st_recoverable r \<and> republish then
        se_bind (on_queue (publish (stuck_message r now))) (\<lambda>_.
        se_bind (out_write (stuck_line r ''republished'')) (\<lambda>_.
        se_return (republished + 1)))
      else
        se_bind (out_write (stuck_line r
          (if st_recoverable r then ''recoverable; rerun with --republish''
           else ''needs CRM resend (identifiers not retained)''))) (\<lambda>_.
        se_return republished))"

definition reconcile ::
  "(QueueMessage \<Rightarrow> ('q, exn, unit) se) \<Rightarrow> int \<Rightarrow> bool \<Rightarrow> time \<Rightarrow> ('q, 'm, nat) wse" where
  "reconcile publish older_than_seconds republish now =
     se_bind (on_db (find_stuck_queued (now - older_than_seconds * second))) (\<lambda>stuck.
     let rows = map (stuck_row_of now) stuck in
     if rows = [] then
       se_bind (out_write (lit ''no events stuck in QUEUED older than '' @ str_of_int older_than_seconds @
         lit ''s'' @ NEWLINE)) (\<lambda>_.
       se_return 0)
     else
       se_bind (out_write stuck_header) (\<lambda>_.
       se_bind (se_fold rows (report_stuck publish republish now) 0) (\<lambda>republished.
       se_bind (out_write (str_of_nat (length rows) @ lit '' stuck, '' @ str_of_nat republished @
         lit '' republished'' @ NEWLINE)) (\<lambda>_.
       se_return (length rows)))))"

section \<open>dlq list\<close>

definition dead_letter_header :: pystr where
  "dead_letter_header =
     rjust 6 (lit ''id'') @ lit ''  '' @ ljust 25 (lit ''dead_lettered_at'') @ lit '' '' @
     ljust 11 (lit ''source'') @ lit '' '' @ ljust 9 (lit ''class'') @ lit '' '' @
     ljust 32 (lit ''event_id'') @ lit '' reason'' @ NEWLINE"

definition dead_letter_line :: "(time \<Rightarrow> int) \<Rightarrow> dead_letter \<Rightarrow> pystr" where
  "dead_letter_line tz r =
     rjust 6 (str_of_nat (dl_id r)) @ lit ''  '' @
     ljust 25 (isoformat_seconds (datetime_at (tz (dl_dead_lettered_at r)) (dl_dead_lettered_at r))) @ lit '' '' @
     ljust 11 (dl_source r) @ lit '' '' @ ljust 9 (dl_failure_class r) @ lit '' '' @
     ljust 32 (dl_event_id r) @ lit '' '' @ dl_reason r @
     (if dl_replayed_at r = None then [] else lit '' (replayed)'') @ NEWLINE"

definition dlq_list :: "(time \<Rightarrow> int) \<Rightarrow> DlqFilter \<Rightarrow> ('q, 'm, nat) wse" where
  "dlq_list tz flt =
     se_bind (on_db (se_gets (\<lambda>db. list_dead_letters db flt 100))) (\<lambda>rows.
       if rows = [] then
         se_bind (out_write (lit ''no dead-lettered events match'' @ NEWLINE)) (\<lambda>_.
         se_return 0)
       else
         se_bind (out_write dead_letter_header) (\<lambda>_.
         se_bind (se_foreach rows (\<lambda>r. out_write (dead_letter_line tz r))) (\<lambda>_.
         se_bind (out_write (str_of_nat (length rows) @ lit '' shown'' @ NEWLINE)) (\<lambda>_.
         se_return (length rows)))))"

section \<open>dlq show\<close>

definition json_time :: "(time \<Rightarrow> int) \<Rightarrow> time \<Rightarrow> json" where
  "json_time tz t = JStr (isoformat (datetime_at (tz t) t))"

definition history_json :: "(time \<Rightarrow> int) \<Rightarrow> history_entry list \<Rightarrow> json" where
  "history_json tz hs =
     JArr (map (\<lambda>h. JObj
       [(lit ''at'', json_time tz (he_at h)), (lit ''status'', JStr (status_value (he_status h))),
        (lit ''reason'', json_of_option (he_reason h))]) hs)"

definition dead_letter_json :: "(json \<Rightarrow> json) \<Rightarrow> (time \<Rightarrow> int) \<Rightarrow> dead_letter \<Rightarrow> json" where
  "dead_letter_json stored tz row =
     JObj
       [(lit ''id'', JInt (int (dl_id row))),
        (lit ''event_id'', JStr (dl_event_id row)),
        (lit ''source'', JStr (dl_source row)),
        (lit ''conversion_action'', json_of_option (dl_conversion_action row)),
        (lit ''dead_lettered_at'', json_time tz (dl_dead_lettered_at row)),
        (lit ''failure_class'', JStr (dl_failure_class row)),
        (lit ''reason'', JStr (dl_reason row)),
        (lit ''platform_error_code'', json_of_option (dl_platform_error_code row)),
        (lit ''platform_error_message'', json_of_option (dl_platform_error_message row)),
        (lit ''replayed_at'', (case dl_replayed_at row of None \<Rightarrow> JNull | Some t \<Rightarrow> json_time tz t)),
        (lit ''replay_count'', JInt (int (dl_replay_count row))),
        (lit ''payload'', stored (dl_payload row)),
        (lit ''attempt_history'', stored (history_json tz (dl_attempt_history row)))]"

definition dlq_show :: "(json \<Rightarrow> json) \<Rightarrow> (time \<Rightarrow> int) \<Rightarrow> nat \<Rightarrow> ('q, 'm, bool) wse" where
  "dlq_show stored tz dlq_id =
     se_bind (on_db (se_gets (\<lambda>db. find_dead_letter db dlq_id))) (\<lambda>found.
       case found of
         None \<Rightarrow>
           se_bind (out_write (lit ''no dead-letter record '' @ str_of_nat dlq_id @ NEWLINE)) (\<lambda>_.
           se_return False)
       | Some row \<Rightarrow>
           se_bind (out_write (json_dumps 0 (dead_letter_json stored tz row) @ NEWLINE)) (\<lambda>_.
           se_return True))"

section \<open>dlq replay\<close>

definition replay_candidates :: "store \<Rightarrow> DlqFilter \<Rightarrow> nat option \<Rightarrow> nat list" where
  "replay_candidates db flt dlq_id =
     (case dlq_id of
        Some i \<Rightarrow> (case find_dead_letter db i of None \<Rightarrow> [] | Some row \<Rightarrow> [dl_id row])
      | None \<Rightarrow> map dl_id (list_dead_letters db flt 1000))"

text \<open>
  The body of the loop: one transaction that replays the record and says so. The ids that the
  line names are read before the replay, which does not change them.
\<close>

definition replay_candidate ::
  "(QueueMessage \<Rightarrow> ('q, exn, unit) se) \<Rightarrow> time \<Rightarrow> nat \<Rightarrow> ('q, 'm, bool) wse" where
  "replay_candidate publish now candidate =
     transaction (
       se_bind (on_db (se_gets (\<lambda>db. find_dead_letter db candidate))) (\<lambda>found.
       case found of
         None \<Rightarrow> se_raise AssertionError
       | Some row \<Rightarrow>
           se_bind (replay publish candidate now) (\<lambda>was_replayed.
           if was_replayed then
             se_bind (out_write (lit ''replayed '' @ str_of_nat (dl_id row) @ lit '' '' @ dl_event_id row @
               NEWLINE)) (\<lambda>_.
             se_return True)
           else
             se_bind (out_write (lit ''skipped  '' @ str_of_nat (dl_id row) @ lit '' '' @ dl_event_id row @
               lit '' (already replayed or not dead-lettered)'' @ NEWLINE)) (\<lambda>_.
             se_return False))))"

definition dlq_replay ::
  "(QueueMessage \<Rightarrow> ('q, exn, unit) se) \<Rightarrow> DlqFilter \<Rightarrow> nat option \<Rightarrow> time \<Rightarrow> ('q, 'm, nat) wse" where
  "dlq_replay publish flt dlq_id now =
     se_bind (on_db (se_gets (\<lambda>db. replay_candidates db flt dlq_id))) (\<lambda>candidates.
     se_bind (se_fold candidates (\<lambda>i replayed.
       se_bind (replay_candidate publish now i) (\<lambda>was_replayed.
       se_return (if was_replayed then replayed + 1 else replayed))) 0) (\<lambda>replayed.
     se_bind (out_write (str_of_nat replayed @ lit '' replayed of '' @ str_of_nat (length candidates) @
       lit '' candidates'' @ NEWLINE)) (\<lambda>_.
     se_return replayed)))"

section \<open>Filter options\<close>

text \<open>A timestamp without an offset is taken as UTC; what does not parse raises.\<close>

definition parse_when :: "(pystr \<Rightarrow> datetime option) \<Rightarrow> pystr option \<Rightarrow> exn + time option" where
  "parse_when fromisoformat value =
     (case value of
        None \<Rightarrow> Inr None
      | Some v \<Rightarrow>
          (case fromisoformat v of
             None \<Rightarrow> Inl ValueError
           | Some parsed \<Rightarrow>
               Inr (Some (instant
                 (if dt_utcoffset parsed = None then parsed\<lparr>dt_utcoffset := Some 0\<rparr> else parsed)))))"

record filter_options =
  o_source :: "pystr option"
  o_failure_class :: "pystr option"
  o_reason :: "pystr option"
  o_since :: "pystr option"
  o_until :: "pystr option"

definition filter_of_options ::
  "(pystr \<Rightarrow> datetime option) \<Rightarrow> filter_options \<Rightarrow> bool \<Rightarrow> exn + DlqFilter" where
  "filter_of_options fromisoformat opts include_replayed =
     (case parse_when fromisoformat (o_since opts) of
        Inl e \<Rightarrow> Inl e
      | Inr since \<Rightarrow>
          (case parse_when fromisoformat (o_until opts) of
             Inl e \<Rightarrow> Inl e
           | Inr until \<Rightarrow>
               Inr \<lparr>f_event_id = None, f_source = o_source opts, f_failure_class = o_failure_class opts,
                    f_reason_prefix = o_reason opts, f_since = since, f_until = until,
                    f_include_replayed = include_replayed\<rparr>))"

text \<open>\<open>id is None and not any((source, failure_class, reason, since, until))\<close>\<close>

definition dlq_replay_refused :: "nat option \<Rightarrow> filter_options \<Rightarrow> bool" where
  "dlq_replay_refused dlq_id opts \<longleftrightarrow>
     dlq_id = None \<and> \<not> truthy (o_source opts) \<and> \<not> truthy (o_failure_class opts) \<and>
     \<not> truthy (o_reason opts) \<and> \<not> truthy (o_since opts) \<and> \<not> truthy (o_until opts)"

section \<open>What the commands do\<close>

lemma preserves_find_stuck: "preserves (\<lambda>w. w_db w = db) (on_db (find_stuck_queued t))"
  by (simp add: find_stuck_queued_def preserves_def on_db_gets)

lemma preserves_reconcile: "preserves (\<lambda>w. w_db w = db) (reconcile publish n republish now)"
  unfolding reconcile_def report_stuck_def Let_def
  by (intro preserves_bind preserves_find_stuck preserves_fold preserves_if preserves_return
      preserves_on_queue [where I = "\<lambda>d. d = db"] preserves_out_write [where I = "\<lambda>d. d = db"])

context ledger_invariant
begin

lemma preserves_replay_candidate: "preserves (\<lambda>w. I (w_db w)) (replay_candidate publish now i)"
  unfolding replay_candidate_def
  by (intro preserves_transaction keeps_bind keeps_on_db keeps_gets keeps_case_option keeps_raise
      keeps_replay keeps_if keeps_out_write keeps_return)

lemma preserves_dlq_replay: "preserves (\<lambda>w. I (w_db w)) (dlq_replay publish flt i now)"
  unfolding dlq_replay_def
  by (intro preserves_bind preserves_on_db_gets preserves_fold preserves_replay_candidate
      preserves_return preserves_out_write)

end

text \<open>
  \<open>reconcile\<close> reports every event that has been QUEUED for too long, and with \<open>--republish\<close> sends
  exactly the recoverable ones back to the queue, in the order of the report.
\<close>

definition stuck_action :: "bool \<Rightarrow> stuck_row \<Rightarrow> string" where
  "stuck_action republish r =
     (if \<not> st_recoverable r then ''needs CRM resend (identifiers not retained)''
      else if republish then ''republished'' else ''recoverable; rerun with --republish'')"

definition republished_rows :: "bool \<Rightarrow> stuck_row list \<Rightarrow> stuck_row list" where
  "republished_rows republish rows = filter (\<lambda>r. st_recoverable r \<and> republish) rows"

lemma report_stuck_rows:
  "se_fold rows (report_stuck (mq_publish C) republish now) n w =
     (Inr (n + length (republished_rows republish rows)),
      w\<lparr>w_out := w_out w @ concat (map (\<lambda>r. stuck_line r (stuck_action republish r)) rows),
        w_queue := (w_queue w)\<lparr>mq_ready := mq_ready (w_queue w) @
          map (\<lambda>r. (to_bytes C (stuck_message r now), 1)) (republished_rows republish rows)\<rparr>\<rparr>)"
proof (induction rows arbitrary: n w)
  case (Cons r rows)
  show ?case
  proof (cases "st_recoverable r \<and> republish")
    case True
    then have rep: "republish = True" by simp
    have "report_stuck (mq_publish C) republish now r n w =
      (Inr (n + 1), w\<lparr>w_queue := (w_queue w)\<lparr>mq_ready := mq_ready (w_queue w) @
          [(to_bytes C (stuck_message r now), 1)]\<rparr>, w_out := w_out w @ stuck_line r ''republished''\<rparr>)"
      using True by (simp add: report_stuck_def se_bind_def on_queue_def mq_publish_def)
    with True show ?thesis
      by (simp add: se_bind_def Cons.IH [unfolded rep] republished_rows_def stuck_action_def)
  next
    case False
    then have "report_stuck (mq_publish C) republish now r n w =
      (Inr n, w\<lparr>w_out := w_out w @ stuck_line r (stuck_action republish r)\<rparr>)"
      by (auto simp: report_stuck_def se_bind_def stuck_action_def)
    with False show ?thesis
      by (auto simp: se_bind_def Cons.IH republished_rows_def)
  qed
qed (simp add: republished_rows_def)

definition stuck_rows :: "store \<Rightarrow> int \<Rightarrow> time \<Rightarrow> stuck_row list" where
  "stuck_rows db older_than_seconds now =
     map (stuck_row_of now) (sort_key ev_received_at (filter (\<lambda>e. ev_status e = QUEUED \<and>
       ev_received_at e < now - older_than_seconds * second) (events db)))"

definition stuck_report :: "int \<Rightarrow> bool \<Rightarrow> stuck_row list \<Rightarrow> pystr" where
  "stuck_report older_than_seconds republish rows =
     (if rows = []
      then lit ''no events stuck in QUEUED older than '' @ str_of_int older_than_seconds @ lit ''s'' @ NEWLINE
      else stuck_header @ concat (map (\<lambda>r. stuck_line r (stuck_action republish r)) rows) @
        str_of_nat (length rows) @ lit '' stuck, '' @
        str_of_nat (length (republished_rows republish rows)) @ lit '' republished'' @ NEWLINE)"

lemma reconcile_run:
  "reconcile (mq_publish C) n republish now w =
     (let rows = stuck_rows (w_db w) n now
      in (Inr (length rows),
          w\<lparr>w_out := w_out w @ stuck_report n republish rows,
            w_queue := (w_queue w)\<lparr>mq_ready := mq_ready (w_queue w) @
              map (\<lambda>r. (to_bytes C (stuck_message r now), 1)) (republished_rows republish rows)\<rparr>\<rparr>))"
proof -
  obtain stuck where "on_db (find_stuck_queued (now - n * second)) w = (Inr stuck, w)"
      "stuck_rows (w_db w) n now = map (stuck_row_of now) stuck"
    by (simp add: find_stuck_queued_def on_db_gets stuck_rows_def)
  then show ?thesis
    by (simp add: reconcile_def se_bind_def Let_def stuck_report_def report_stuck_rows republished_rows_def)
qed

section \<open>What dlq show prints is plain text\<close>

text \<open>
  Whatever bytes the CRM or the platform put into the record, \<open>dlq show\<close> writes printable ASCII and
  line feeds.
\<close>

lemma dlq_show_run:
  "dlq_show stored tz i w =
     (case find_dead_letter (w_db w) i of
        None \<Rightarrow> (Inr False, w\<lparr>w_out := w_out w @ lit ''no dead-letter record '' @ str_of_nat i @ NEWLINE\<rparr>)
      | Some row \<Rightarrow> (Inr True, w\<lparr>w_out := w_out w @ json_dumps 0 (dead_letter_json stored tz row) @ NEWLINE\<rparr>))"
  by (simp add: dlq_show_def se_bind_def on_db_gets split: option.split)

lemma dlq_show_plain:
  assumes "dlq_show stored tz i w = (r, w')"
  shows "\<exists>text. w' = w\<lparr>w_out := w_out w @ text\<rparr> \<and> plain_ascii text"
  using assms by (auto simp: dlq_show_run plain_ascii_dumps NEWLINE_def split: option.splits)

lemma dlq_list_run:
  "dlq_list tz flt w =
     (let rows = list_dead_letters (w_db w) flt 100
      in (Inr (length rows),
          w\<lparr>w_out := w_out w @
            (if rows = [] then lit ''no dead-lettered events match'' @ NEWLINE
             else dead_letter_header @ concat (map (dead_letter_line tz) rows) @
               str_of_nat (length rows) @ lit '' shown'' @ NEWLINE)\<rparr>))"
proof -
  have lines: "se_foreach rows (\<lambda>r. out_write (f r)) v = (Inr (), v\<lparr>w_out := w_out v @ concat (map f rows)\<rparr>)"
    for f and rows :: "dead_letter list" and v :: "('a, 'b) world_scheme"
    by (induction rows arbitrary: v) (simp_all add: se_bind_def)
  show ?thesis by (simp add: dlq_list_def se_bind_def on_db_gets Let_def lines)
qed

end
