(* ===== verification/Gateway.thy ===== *)
theory Gateway
  imports Uploader Ingest Cli
begin

text \<open>
  The whole gateway: any interleaving of the database transactions of any number of API, worker,
  uploader and operator processes. Each step is one atomic handler or transaction with arbitrary
  arguments, so a run of one process between two of its transactions may see any steps of others.
\<close>

section \<open>Steps\<close>

inductive step :: "ucd \<Rightarrow> 'n phonelib \<Rightarrow> ('q, 'p) uploader_world \<Rightarrow> ('q, 'p) uploader_world \<Rightarrow> bool"
  for U P where
  webhook: "post_webhook U V cfg publish source th sh body clock now corr w = (r1, w') \<Longrightarrow> step U P w w'"
| accepting: "accept_event event now corr w = (r9, w') \<Longrightarrow> step U P w w'"
| rejecting: "reject src body sid errors now corr w = (r10, w') \<Longrightarrow> step U P w w'"
| delivery: "handle_delivery U P ack nack d now w = (r2, w') \<Longrightarrow> step U P w w'"
| claim: "claim ucfg locked now limit w = (r3, w') \<Longrightarrow> step U P w w'"
| retry: "on_retry rclock ids exc attempt w = (r4, w') \<Longrightarrow> step U P w w'"
| result: "apply_result batch result now w = (r5, w') \<Longrightarrow> step U P w w'"
| give_up: "dead_letter_all batch fc reason code msg now w = (r6, w') \<Longrightarrow> step U P w w'"
| operator: "replay_candidate publish now i w = (r7, w') \<Longrightarrow> step U P w w'"
| reconciling: "reconcile publish n republish now w = (r8, w') \<Longrightarrow> step U P w w'"
| elsewhere: "w_db w' = w_db w \<Longrightarrow> step U P w w'"

inductive_cases step_cases: "step U P w w'"

abbreviation steps :: "ucd \<Rightarrow> 'n phonelib \<Rightarrow> ('q, 'p) uploader_world \<Rightarrow> ('q, 'p) uploader_world \<Rightarrow> bool" where
  "steps U P \<equiv> (step U P)\<^sup>*\<^sup>*"

definition reachable :: "ucd \<Rightarrow> 'n phonelib \<Rightarrow> ('q, 'p) uploader_world \<Rightarrow> bool" where
  "reachable U P w \<longleftrightarrow> (\<exists>w0. w_db w0 = empty_store \<and> steps U P w0 w)"

section \<open>Invariants of the gateway\<close>

text \<open>What every handler and transaction keeps of the ledger, every step keeps.\<close>

lemma step_keeps:
  fixes w w' :: "('q, 'p) uploader_world"
  assumes "step U P w w'" and "I (w_db w)"
    and webhook: "\<And>V cfg publish source th sh body clock now corr. preserves (\<lambda>w :: ('q, 'p) uploader_world. I (w_db w))
      (post_webhook U V cfg publish source th sh body clock now corr)"
    and accepting: "\<And>event now corr. preserves (\<lambda>w :: ('q, 'p) uploader_world. I (w_db w)) (accept_event event now corr)"
    and rejecting: "\<And>src body sid errors now corr. preserves (\<lambda>w :: ('q, 'p) uploader_world. I (w_db w))
      (reject src body sid errors now corr)"
    and delivery: "\<And>ack nack d now. preserves (\<lambda>w :: ('q, 'p) uploader_world. I (w_db w))
      (handle_delivery U P ack nack d now)"
    and claim: "\<And>cfg locked now limit. preserves (\<lambda>w :: ('q, 'p) uploader_world. I (w_db w)) (claim cfg locked now limit)"
    and retry: "\<And>clock ids exc attempt. preserves (\<lambda>w :: ('q, 'p) uploader_world. I (w_db w))
      (on_retry clock ids exc attempt)"
    and result: "\<And>batch result now. preserves (\<lambda>w :: ('q, 'p) uploader_world. I (w_db w)) (apply_result batch result now)"
    and give_up: "\<And>batch fc reason code msg now. preserves (\<lambda>w :: ('q, 'p) uploader_world. I (w_db w))
      (dead_letter_all batch fc reason code msg now)"
    and operator: "\<And>publish now i. preserves (\<lambda>w :: ('q, 'p) uploader_world. I (w_db w)) (replay_candidate publish now i)"
  shows "I (w_db w')"
  using assms(1)
proof (cases rule: step.cases)
  case reconciling
  then have "w_db w' = w_db w" using preservesD [OF preserves_reconcile] by blast
  with assms(2) show ?thesis by simp
next
  case elsewhere
  with assms(2) show ?thesis by simp
qed (erule preserves_dbD [where I = I, OF _ _ assms(2), rotated],
    rule webhook accepting rejecting delivery claim retry result give_up operator)+

context worker_invariant
begin

lemma inv_step: "step U P w w' \<Longrightarrow> I (w_db w) \<Longrightarrow> I (w_db w')"
  by (erule (1) step_keeps)
    (rule preserves_post_webhook preserves_accept_event preserves_reject preserves_handle_delivery preserves_claim
      preserves_on_retry preserves_apply_result preserves_dead_letter_all preserves_replay_candidate)+

lemma inv_steps: "steps U P w w' \<Longrightarrow> I (w_db w) \<Longrightarrow> I (w_db w')"
  by (induction rule: rtranclp_induct) (auto intro: inv_step)

lemma inv_reachable: "reachable U P w \<Longrightarrow> I empty_store \<Longrightarrow> I (w_db w)"
  unfolding reachable_def using inv_steps by metis

end

lemma find_event_empty [simp]: "find_event empty_store x = None"
  by (simp add: find_event_def empty_store_def)

lemma empty_store_ok: "ledger_ok empty_store" "gated empty_store" "letters_ok empty_store"
  by (simp_all add: ledger_ok_def gated_def letters_ok_def distinct_ids_def list_transitions_def
      read_log_def open_letters_def is_dead_def)
    (simp_all add: empty_store_def)

section \<open>Committed rows fit their columns\<close>

lemma fits_through:
  "preserves (\<lambda>w. store_fits (w_db w)) (post_webhook U V cfg publish source th sh body clock now corr)"
  "preserves (\<lambda>w. store_fits (w_db w)) (handle_delivery U P ack nack d now)"
  "preserves (\<lambda>w. store_fits (w_db w)) (claim ucfg locked now limit)"
  "preserves (\<lambda>w. store_fits (w_db w)) (on_retry rclock ids exc attempt)"
  "preserves (\<lambda>w. store_fits (w_db w)) (apply_result batch result now)"
  "preserves (\<lambda>w. store_fits (w_db w)) (dead_letter_all batch fc reason code msg now)"
  "preserves (\<lambda>w. store_fits (w_db w)) (accept_event event now corr)"
  "preserves (\<lambda>w. store_fits (w_db w)) (reject src body sid errors now corr)"
  unfolding post_webhook_def ingest_body_def reject_def accept_event_def handle_delivery_def claim_def
    on_retry_def apply_result_def dead_letter_all_def Let_def
  by (intro preserves_intro transaction_fits)+

lemma fits_replay: "preserves (\<lambda>w. store_fits (w_db w)) (replay_candidate publish now i)"
  unfolding replay_candidate_def by (rule transaction_fits)

lemma fits_step: "step U P w w' \<Longrightarrow> store_fits (w_db w) \<Longrightarrow> store_fits (w_db w')"
  by (erule (1) step_keeps) (rule fits_through fits_replay)+

lemma fits_reachable: "reachable U P w \<Longrightarrow> store_fits (w_db w)"
proof -
  have "steps U P w0 w \<Longrightarrow> store_fits (w_db w0) \<Longrightarrow> store_fits (w_db w)" for w0
    by (induction rule: rtranclp_induct) (auto intro: fits_step)
  then show "reachable U P w \<Longrightarrow> ?thesis"
    unfolding reachable_def using store_fits_empty by metis
qed

section \<open>The dead-letter gauge\<close>

lemma count_map_filter: "count (mset (map f (filter P xs))) x = length (filter (\<lambda>a. P a \<and> f a = x) xs)"
  by (induction xs) auto

lemma length_filter_key:
  "distinct (map k xs) \<Longrightarrow>
   length (filter (\<lambda>a. P a \<and> k a = x) xs) =
     (case find (\<lambda>a. k a = x) xs of None \<Rightarrow> 0 | Some a \<Rightarrow> if P a then 1 else 0)"
proof (induction xs)
  case (Cons a xs)
  show ?case
  proof (cases "k a = x")
    case True
    with Cons.prems have "filter (\<lambda>b. P b \<and> k b = x) xs = []"
      by (auto simp: filter_empty_conv rev_image_eqI)
    with True show ?thesis by simp
  next
    case False
    with Cons show ?thesis by simp
  qed
qed simp

text \<open>The open dead letters of a source are as many as its DEAD_LETTERED events.\<close>

lemma open_letters_of_source:
  assumes "letters_ok db"
  shows "length (filter (\<lambda>d. dl_replayed_at d = None \<and> dl_source d = s) (dead_letters db)) =
    length (filter (\<lambda>e. ev_status e = DEAD_LETTERED \<and> ev_source e = s) (events db))"
proof -
  let ?D = "filter (\<lambda>d. dl_replayed_at d = None \<and> dl_source d = s) (dead_letters db)"
  let ?E = "filter (\<lambda>e. ev_status e = DEAD_LETTERED \<and> ev_source e = s) (events db)"
  have "count (mset (map dl_event_id ?D)) x = count (mset (map ev_event_id ?E)) x" for x
  proof -
    have E: "count (mset (map ev_event_id ?E)) x =
        (case find_event db x of None \<Rightarrow> 0
         | Some e \<Rightarrow> if ev_status e = DEAD_LETTERED \<and> ev_source e = s then 1 else 0)"
      unfolding count_map_filter find_event_def
      using assms by (intro length_filter_key) (simp add: letters_ok_def distinct_ids_def)
    have src: "map_option ev_source (find_event db x) = Some (dl_source d)"
      if "d \<in> set (dead_letters db)" "dl_event_id d = x" for d
      using assms that unfolding letters_ok_def by blast
    have D: "count (mset (map dl_event_id ?D)) x =
        (if map_option ev_source (find_event db x) = Some s then length (open_letters db x) else 0)"
    proof (cases "map_option ev_source (find_event db x) = Some s")
      case True
      have "filter (\<lambda>d. (dl_replayed_at d = None \<and> dl_source d = s) \<and> dl_event_id d = x) (dead_letters db) =
          open_letters db x"
        unfolding open_letters_def by (rule filter_cong) (use src True in auto)
      with True show ?thesis by (simp only: count_map_filter) simp
    next
      case False
      have "filter (\<lambda>d. (dl_replayed_at d = None \<and> dl_source d = s) \<and> dl_event_id d = x) (dead_letters db) = []"
        using src False by (auto simp: filter_empty_conv)
      with False show ?thesis by (simp only: count_map_filter) simp
    qed
    have "length (open_letters db x) = (if is_dead db x then 1 else 0)"
      using assms by (simp only: letters_ok_def)
    with D E show ?thesis by (cases "find_event db x") (auto simp: is_dead_def)
  qed
  then have "mset (map dl_event_id ?D) = mset (map ev_event_id ?E)" by (intro multiset_eqI)
  then have "size (mset (map dl_event_id ?D)) = size (mset (map ev_event_id ?E))" by simp
  then show ?thesis by (simp only: size_mset length_map)
qed

lemma open_depth_lookup:
  "(case map_of (open_depth_by_source db) s of None \<Rightarrow> 0 | Some n \<Rightarrow> n) =
     length (filter (\<lambda>d. dl_replayed_at d = None \<and> dl_source d = s) (dead_letters db))"
proof -
  have m: "map_of (map (\<lambda>s. (s, g s)) xs) s = (if s \<in> set xs then Some (g s) else None)" for g xs
    by (induction xs) auto
  show ?thesis
    by (auto simp: open_depth_by_source_def Let_def m filter_empty_conv conj_commute)
qed

lemma refresh_dlq_depth_run:
  "\<exists>w'. refresh_dlq_depth w = (Inr (), w') \<and> w_db w' = w_db w \<and>
     (\<forall>s. w_metrics w' (dlq_depth (source_value s)) =
        length (filter (\<lambda>d. dl_replayed_at d = None \<and> dl_source d = source_value s) (dead_letters (w_db w))))"
proof -
  have "s = SALESFORCE \<or> s = HUBSPOT" for s by (cases s) simp_all
  then show ?thesis
    unfolding open_depth_lookup [symmetric]
    by (auto simp: refresh_dlq_depth_def se_bind_def on_db_gets) (metis Source.exhaust source_value.simps)+
qed

end
