(* ===== verification/Progress.thy ===== *)
theory Progress
  imports Gateway
begin

text \<open>
  What keeps moving. Every row of a reachable ledger is complete (\<open>complete_rows\<close>): its consent
  columns read back, it is past VALIDATED, and unless it was rejected it has what a conversion row
  needs. So no delivery raises: the worker settles every message at the first attempt, and it
  empties the in-memory queue in as many iterations as the batch size requires.
\<close>

lemma reachable_step: "reachable U P w \<Longrightarrow> step U P w w' \<Longrightarrow> reachable U P w'"
  unfolding reachable_def by (meson rtranclp.rtrancl_into_rtrancl)

section \<open>Every committed row is complete\<close>

definition row_complete :: "event \<Rightarrow> bool" where
  "row_complete e \<longleftrightarrow>
     (\<exists>c. ev_consent_ad_user_data e = consent_column c) \<and>
     (\<exists>c. ev_consent_ad_personalization e = consent_column c) \<and>
     ev_status e \<notin> {RECEIVED, VALIDATED} \<and>
     (ev_status e \<noteq> REJECTED \<longrightarrow> ev_conversion_action e \<noteq> None \<and> ev_conversion_time e \<noteq> None)"

definition complete_rows :: "store \<Rightarrow> bool" where
  "complete_rows db \<longleftrightarrow> distinct_ids db \<and> (\<forall>x e. find_event db x = Some e \<longrightarrow> row_complete e)"

lemma row_complete_columns [simp]:
  "row_complete (e\<lparr>ev_attempt_count := n, ev_last_attempt_at := a\<rparr>) = row_complete e"
  "row_complete (e\<lparr>ev_correlation_id := c\<rparr>) = row_complete e"
  "row_complete (e\<lparr>ev_hashed_identifiers := h\<rparr>) = row_complete e"
  by (simp_all add: row_complete_def)

lemma row_complete_move:
  assumes "row_complete e" and "to \<in> ALLOWED_TRANSITIONS (ev_status e)"
  shows "row_complete (e\<lparr>ev_status := to, ev_status_reason := reason\<rparr>)"
  using assms by (cases "ev_status e") (auto simp: row_complete_def)

lemma complete_update:
  "complete_rows db \<Longrightarrow> (\<And>e. ev_event_id (f e) = ev_event_id e) \<Longrightarrow>
   (\<And>e. row_complete e \<Longrightarrow> row_complete (f e)) \<Longrightarrow> complete_rows (update_event eid f db)"
  by (auto simp: complete_rows_def distinct_ids_update_event find_event_update)

lemma complete_moved:
  assumes "complete_rows db" and "find_event db (ev_event_id e) = Some e"
    and "to \<in> ALLOWED_TRANSITIONS (ev_status e)"
  shows "complete_rows (moved e to reason now db)"
  using assms row_complete_move [of e to reason] by (auto simp: complete_rows_def find_event_moved)

lemma complete_tables [simp]:
  "complete_rows (add_dead_letter d db) \<longleftrightarrow> complete_rows db"
  "complete_rows (update_dead_letter i g db) \<longleftrightarrow> complete_rows db"
  "complete_rows (db\<lparr>transitions := ts\<rparr>) \<longleftrightarrow> complete_rows db"
  by (simp_all add: complete_rows_def)

lemma row_complete_accepted: "row_complete (queued_row (validated_row event now))"
  by (auto simp: row_complete_def queued_row_def validated_row_def)

lemma row_complete_rejected:
  "row_complete ((stored_row (rejected_row eid source sid now))
     \<lparr>ev_status := REJECTED, ev_status_reason := Some why\<rparr>)"
  by (auto simp: row_complete_def rejected_row_def stored_row_def consent_column_def
      intro: exI [of _ None])

lemma complete_recorded:
  assumes "complete_rows db" and "find_event db (ce_event_id event) = None"
  shows "complete_rows (recorded (validated_row event now) now db)"
proof -
  have id: "ev_event_id (validated_row event now) = ce_event_id event" by (simp add: validated_row_def)
  have "distinct_ids (recorded (validated_row event now) now db)"
    using assms id by (simp add: complete_rows_def recorded_def Let_def distinct_ids_created)
  then show ?thesis
    using assms id row_complete_accepted [of event now]
    by (auto simp: complete_rows_def find_event_recorded split: if_split_asm)
qed

lemma complete_refused:
  assumes "complete_rows db" and "find_event db eid = None"
  shows "complete_rows (refused (rejected_row eid source sid now) why now db)"
proof -
  let ?row = "rejected_row eid source sid now"
  have id: "ev_event_id ?row = eid" by (simp add: rejected_row_def)
  have "distinct_ids (refused ?row why now db)"
    using assms id by (simp add: complete_rows_def refused_def distinct_ids_created)
  then show ?thesis
    using assms id row_complete_rejected
    by (auto simp: complete_rows_def find_event_refused split: if_split_asm)
qed

interpretation complete: worker_invariant complete_rows "\<lambda>_ _. True"
proof (unfold_locales, goal_cases)
  case (1 db)
  then show ?case by (simp add: complete_rows_def distinct_ids_def)
next
  case (6 db e h now)
  let ?f = "\<lambda>e. e\<lparr>ev_hashed_identifiers := Some h\<rparr>"
  let ?db = "update_event (ev_event_id e) ?f db"
  have "complete_rows (moved (?f e) PROCESSED None now ?db)"
    using 6 by (intro complete_moved complete_update) (simp_all add: find_event_update)
  then show ?case by (simp add: moved_def)
qed (auto intro: complete_moved complete_update complete_recorded complete_refused)

lemma complete_empty: "complete_rows empty_store"
  by (simp add: complete_rows_def distinct_ids_def) (simp add: empty_store_def)

lemma complete_reachable: "reachable U P w \<Longrightarrow> complete_rows (w_db w)"
  using complete_empty by (rule complete.inv_reachable [rotated])

lemma consent_from_complete_row: "row_complete e \<Longrightarrow> \<exists>signals. consent_from_row e = Inr signals"
  by (auto simp: row_complete_def consent_from_row_def)

section \<open>Every delivery commits\<close>

definition queued :: "store \<Rightarrow> pystr \<Rightarrow> bool" where
  "queued db x \<longleftrightarrow> map_option ev_status (find_event db x) = Some QUEUED"

lemma rejection_text_fits: "fits 512 (Some (rejection_text rejs))"
  by (simp add: rejection_text_def)

lemma suppression_value_fits: "fits 512 (Some (suppression_value r))"
  by (cases r) simp_all

lemma apply_verdict_fits:
  assumes "store_fits db" and "find_event db (ev_event_id e) = Some e"
  shows "store_fits (apply_verdict e now v db)"
proof (cases v)
  case (Accept h)
  have "store_fits (update_event (ev_event_id e) (\<lambda>e. e\<lparr>ev_hashed_identifiers := Some h\<rparr>) db)"
    using assms(1) by (rule store_fits_update) simp
  then show ?thesis
    using Accept assms(2) by (simp add: store_fits_moved find_event_update)
qed (use assms rejection_text_fits suppression_value_fits in \<open>auto intro: store_fits_moved\<close>)

lemma apply_verdict_queued:
  assumes "find_event db (ev_event_id e) = Some e" and "ev_status e = QUEUED"
  shows "queued (apply_verdict e now v db) x \<longleftrightarrow> queued db x \<and> x \<noteq> ev_event_id e"
  using assms by (cases v) (auto simp: queued_def find_event_moved find_event_update)

text \<open>Whatever the message, the transaction of the worker commits, and the event is not QUEUED after it.\<close>

lemma processing_commits:
  assumes "complete_rows (w_db w)" and "store_fits (w_db w)"
  obtains x w1 where "transaction (process_message U P message now) w = (Inr x, w1)"
    and "\<And>y. queued (w_db w1) y \<longleftrightarrow> queued (w_db w) y \<and> y \<noteq> qm_event_id message"
    and "w_queue w1 = w_queue w"
proof (cases "queued (w_db w) (qm_event_id message)")
  case True
  then obtain e where e: "find_event (w_db w) (qm_event_id message) = Some e" "ev_status e = QUEUED"
    by (auto simp: queued_def)
  with assms(1) obtain signals where "consent_from_row e = Inr signals"
    using consent_from_complete_row unfolding complete_rows_def by blast
  note run = process_queued [OF e this, of U P now]
  have id: "ev_event_id e = qm_event_id message" using find_event_id [OF e(1)] .
  define v where "v = decide U P e signals (qm_identifiers message)"
  show ?thesis
    by (rule that, rule transaction_commit [where m = "process_message U P message now", OF run [unfolded Let_def]])
      (simp_all add: apply_verdict_fits apply_verdict_queued assms(2) e id)
next
  case False
  show ?thesis
  proof (cases "find_event (w_db w) (qm_event_id message)")
    case None
    show ?thesis
      by (rule that, rule transaction_commit [where m = "process_message U P message now", OF process_unknown [OF None] assms(2)])
        (use False in auto)
  next
    case (Some e)
    with False have ne: "ev_status e \<noteq> QUEUED" by (auto simp: queued_def)
    show ?thesis
      by (rule that, rule transaction_commit [where m = "process_message U P message now",
            OF process_not_queued [OF Some ne] assms(2)])
        (use False in auto)
  qed
qed

section \<open>The worker empties the in-memory queue\<close>

text \<open>\<open>receive\<close> takes the oldest messages, at most as many as asked for.\<close>

lemma mq_receive_front:
  assumes "mq_ok C uuid q" and "mq_receive C uuid n q = (r, q')"
  shows "\<exists>ds. r = Inr ds \<and> map d_message ds = map (mq_message C) (take n (mq_ready q)) \<and>
    mq_ready q' = drop n (mq_ready q) \<and>
    mq_inflight q' = mq_inflight q @ zip (map d_ack_id ds) (take n (mq_ready q))"
  using assms
proof (induction n arbitrary: q r q')
  case (Suc n)
  show ?case
  proof (cases "mq_ready q")
    case Nil
    with Suc.prems show ?thesis by auto
  next
    case (Cons entry rest)
    obtain data attempt where entry: "entry = (data, attempt)" by fastforce
    define q1 where "q1 = q\<lparr>mq_ready := rest,
      mq_inflight := AList.update (uuid (mq_uuids q)) (data, attempt) (mq_inflight q),
      mq_uuids := mq_uuids q + 1\<rparr>"
    have hd: "mq_ready q = (data, attempt) # rest" using Cons entry by simp
    note take = mq_take_ok [OF Suc.prems(1) hd, folded q1_def]
    obtain m where m: "from_bytes C data = Some m" using take(5) by blast
    obtain r1 q2 where rec: "mq_receive C uuid n q1 = (r1, q2)" by fastforce
    obtain ds where IH: "r1 = Inr ds" "map d_message ds = map (mq_message C) (take n (mq_ready q1))"
        "mq_ready q2 = drop n (mq_ready q1)"
        "mq_inflight q2 = mq_inflight q1 @ zip (map d_ack_id ds) (take n (mq_ready q1))"
      using Suc.IH [OF take(1) rec] by blast
    let ?d = "\<lparr>d_ack_id = uuid (mq_uuids q), d_message = m, d_attempt = attempt\<rparr>"
    have res: "r = Inr (?d # ds)" "q' = q2"
      using Suc.prems(2) hd m rec IH(1) by (simp_all add: Let_def q1_def)
    have ready: "mq_ready q1 = rest" by (simp add: q1_def)
    have "mq_message C (data, attempt) = m" by (simp add: mq_message_def m)
    with res IH ready take(3) hd show ?thesis by auto
  qed
qed auto

text \<open>Handling the deliveries of a batch acks each of them.\<close>

lemma delivery_acked:
  assumes "reachable U P w" and "mq_ok C uuid (w_queue w)"
  obtains x w' where "handle_delivery U P mq_ack mq_nack d now w = (Inr (Some x), w')"
    and "reachable U P w'" and "mq_ok C uuid (w_queue w')"
    and "mq_ready (w_queue w') = mq_ready (w_queue w)"
    and "mq_inflight (w_queue w') = AList.delete (d_ack_id d) (mq_inflight (w_queue w))"
    and "\<And>y. queued (w_db w') y \<longleftrightarrow> queued (w_db w) y \<and> y \<noteq> qm_event_id (d_message d)"
proof -
  obtain x w1 where t: "transaction (process_message U P (d_message d) now) w = (Inr x, w1)"
      "\<And>y. queued (w_db w1) y \<longleftrightarrow> queued (w_db w) y \<and> y \<noteq> qm_event_id (d_message d)"
      "w_queue w1 = w_queue w"
    using processing_commits [OF complete_reachable fits_reachable, OF assms(1,1)] by metis
  let ?q = "(w_queue w1)\<lparr>mq_inflight := AList.delete (d_ack_id d) (mq_inflight (w_queue w1))\<rparr>"
  have run: "handle_delivery U P mq_ack mq_nack d now w = (Inr (Some x), w1\<lparr>w_queue := ?q\<rparr>)"
    using t(1) by (intro handle_delivery_committed) (simp_all add: mq_ack_def)
  have "reachable U P (w1\<lparr>w_queue := ?q\<rparr>)"
    by (rule reachable_step [OF assms(1) step.delivery [OF run]])
  then show ?thesis
    using t(2,3) mq_delete_ok [OF assms(2)] by (intro that [OF run]) simp_all
qed

lemma delete_first:
  assumes "k \<notin> fst ` set base" and "k \<notin> set ks"
  shows "AList.delete k (base @ (k, e) # zip ks es) = base @ zip ks es"
proof -
  have "filter (\<lambda>(k', _). k \<noteq> k') base = base" using assms(1) by (force simp: filter_id_conv)
  moreover have "filter (\<lambda>(k', _). k \<noteq> k') (zip ks es) = zip ks es"
    using assms(2) by (auto simp: filter_id_conv dest: set_zip_leftD)
  ultimately show ?thesis by (simp add: AList.delete_eq)
qed

lemma batch_acked:
  assumes "reachable U P w" and "mq_ok C uuid (w_queue w)" and "length es = length ds"
    and "mq_inflight (w_queue w) = base @ zip (map d_ack_id ds) es"
    and "distinct (map d_ack_id ds)" and "\<forall>d \<in> set ds. d_ack_id d \<notin> fst ` set base"
  shows "\<exists>w'. se_foreach ds (\<lambda>d. se_bind (handle_delivery U P mq_ack mq_nack d (clock d)) (\<lambda>_. se_return ())) w =
      (Inr (), w') \<and> reachable U P w' \<and> mq_ok C uuid (w_queue w') \<and>
    mq_ready (w_queue w') = mq_ready (w_queue w) \<and> mq_inflight (w_queue w') = base \<and>
    (\<forall>y. queued (w_db w') y \<longleftrightarrow> queued (w_db w) y \<and> y \<notin> qm_event_id ` d_message ` set ds)"
  using assms
proof (induction ds arbitrary: w es)
  case (Cons d ds)
  obtain e es' where es: "es = e # es'" "length es' = length ds" using Cons.prems(3) by (cases es) auto
  obtain x w1 where one: "handle_delivery U P mq_ack mq_nack d (clock d) w = (Inr (Some x), w1)"
      "reachable U P w1" "mq_ok C uuid (w_queue w1)" "mq_ready (w_queue w1) = mq_ready (w_queue w)"
      "mq_inflight (w_queue w1) = AList.delete (d_ack_id d) (mq_inflight (w_queue w))"
      "\<And>y. queued (w_db w1) y \<longleftrightarrow> queued (w_db w) y \<and> y \<noteq> qm_event_id (d_message d)"
    using delivery_acked [OF Cons.prems(1,2)] by metis
  have "mq_inflight (w_queue w1) = base @ zip (map d_ack_id ds) es'"
    using one(5) Cons.prems(4,5,6) es by (simp add: delete_first)
  moreover have tail: "distinct (map d_ack_id ds)" "\<forall>d \<in> set ds. d_ack_id d \<notin> fst ` set base"
    using Cons.prems(5,6) by simp_all
  ultimately obtain w' where rest: "se_foreach ds (\<lambda>d. se_bind (handle_delivery U P mq_ack mq_nack d (clock d))
        (\<lambda>_. se_return ())) w1 = (Inr (), w')" "reachable U P w'" "mq_ok C uuid (w_queue w')"
      "mq_ready (w_queue w') = mq_ready (w_queue w1)" "mq_inflight (w_queue w') = base"
      "\<forall>y. queued (w_db w') y \<longleftrightarrow> queued (w_db w1) y \<and> y \<notin> qm_event_id ` d_message ` set ds"
    using Cons.IH [OF one(2,3) es(2) _ tail] by blast
  have all: "se_foreach (d # ds) (\<lambda>d. se_bind (handle_delivery U P mq_ack mq_nack d (clock d))
      (\<lambda>_. se_return ())) w = (Inr (), w')"
    using one(1) rest(1) by (simp add: se_bind_def)
  show ?case
    by (rule exI [of _ w'], rule conjI [OF all]) (use rest one(4,6) in auto)
qed auto

lemma iteration_acked:
  assumes "reachable U P w" and "mq_ok C uuid (w_queue w)"
  shows "\<exists>w'. worker_iteration U P (mq_receive C uuid) mq_ack mq_nack batch clock w = (Inr (), w') \<and>
    reachable U P w' \<and> mq_ok C uuid (w_queue w') \<and>
    mq_ready (w_queue w') = drop batch (mq_ready (w_queue w)) \<and>
    mq_inflight (w_queue w') = mq_inflight (w_queue w) \<and>
    (\<forall>y. queued (w_db w') y \<longleftrightarrow> queued (w_db w) y \<and>
       y \<notin> qm_event_id ` mq_message C ` set (take batch (mq_ready (w_queue w))))"
proof -
  obtain r q where rec: "mq_receive C uuid batch (w_queue w) = (r, q)" by fastforce
  obtain ds where ds: "r = Inr ds" "map d_message ds = map (mq_message C) (take batch (mq_ready (w_queue w)))"
      "mq_ready q = drop batch (mq_ready (w_queue w))"
      "mq_inflight q = mq_inflight (w_queue w) @ zip (map d_ack_id ds) (take batch (mq_ready (w_queue w)))"
    using mq_receive_front [OF assms(2) rec] by blast
  have ok: "mq_ok C uuid q" "distinct (map d_ack_id ds)"
      "\<forall>d \<in> set ds. d_ack_id d \<notin> fst ` set (mq_inflight (w_queue w))"
    using mq_receive_ok [OF assms(2) rec] ds(1) by auto
  let ?w = "w\<lparr>w_queue := q\<rparr>"
  have reach: "reachable U P ?w"
    by (rule reachable_step [OF assms(1) step.elsewhere]) simp
  have len: "length (take batch (mq_ready (w_queue w))) = length ds"
    using arg_cong [OF ds(2), of length] by simp
  have q: "w_queue ?w = q" "w_db ?w = w_db w" by simp_all
  note batch_acked [OF reach, unfolded q, OF ok(1) len ds(4) ok(2,3), of clock]
  then obtain w' where all: "se_foreach ds (\<lambda>d. se_bind
        (handle_delivery U P mq_ack mq_nack d (clock d)) (\<lambda>_. se_return ())) ?w = (Inr (), w')"
      "reachable U P w'" "mq_ok C uuid (w_queue w')"
      "mq_ready (w_queue w') = mq_ready q" "mq_inflight (w_queue w') = mq_inflight (w_queue w)"
      "\<forall>y. queued (w_db w') y \<longleftrightarrow> queued (w_db w) y \<and> y \<notin> qm_event_id ` d_message ` set ds"
    by blast
  have run: "worker_iteration U P (mq_receive C uuid) mq_ack mq_nack batch clock w = (Inr (), w')"
    unfolding worker_iteration_def se_bind_def on_queue_run [where m = "mq_receive C uuid batch", OF rec] ds(1)
    using all(1) by (simp add: se_bind_def)
  have "d_message ` set ds = mq_message C ` set (take batch (mq_ready (w_queue w)))"
    using arg_cong [OF ds(2), of set] by simp
  with all ds(3) show ?thesis by (intro exI [of _ w'] conjI run) simp_all
qed

lemma worker_run_drains:
  assumes "reachable U P w" and "mq_ok C uuid (w_queue w)"
  shows "\<exists>w'. worker_run U P (mq_receive C uuid) mq_ack mq_nack batch clock n w = (Inr (), w') \<and>
    reachable U P w' \<and> mq_ok C uuid (w_queue w') \<and>
    mq_ready (w_queue w') = drop (n * batch) (mq_ready (w_queue w)) \<and>
    mq_inflight (w_queue w') = mq_inflight (w_queue w) \<and>
    (\<forall>y. queued (w_db w') y \<longleftrightarrow> queued (w_db w) y \<and>
       y \<notin> qm_event_id ` mq_message C ` set (take (n * batch) (mq_ready (w_queue w))))"
  using assms
proof (induction n arbitrary: w)
  case (Suc n)
  obtain w1 where one: "worker_iteration U P (mq_receive C uuid) mq_ack mq_nack batch clock w = (Inr (), w1)"
      "reachable U P w1" "mq_ok C uuid (w_queue w1)"
      "mq_ready (w_queue w1) = drop batch (mq_ready (w_queue w))"
      "mq_inflight (w_queue w1) = mq_inflight (w_queue w)"
      "\<forall>y. queued (w_db w1) y \<longleftrightarrow> queued (w_db w) y \<and>
         y \<notin> qm_event_id ` mq_message C ` set (take batch (mq_ready (w_queue w)))"
    using iteration_acked [OF Suc.prems] by blast
  obtain w' where rest: "worker_run U P (mq_receive C uuid) mq_ack mq_nack batch clock n w1 = (Inr (), w')"
      "reachable U P w'" "mq_ok C uuid (w_queue w')"
      "mq_ready (w_queue w') = drop (n * batch) (mq_ready (w_queue w1))"
      "mq_inflight (w_queue w') = mq_inflight (w_queue w1)"
      "\<forall>y. queued (w_db w') y \<longleftrightarrow> queued (w_db w1) y \<and>
         y \<notin> qm_event_id ` mq_message C ` set (take (n * batch) (mq_ready (w_queue w1)))"
    using Suc.IH [OF one(2,3)] by blast
  have run: "worker_run U P (mq_receive C uuid) mq_ack mq_nack batch clock (Suc n) w = (Inr (), w')"
    using one(1) rest(1) by (simp add: se_bind_def)
  have split: "take (Suc n * batch) xs = take batch xs @ take (n * batch) (drop batch xs)" for xs :: "('b \<times> nat) list"
    by (simp add: take_add)
  have drop: "drop (Suc n * batch) xs = drop (n * batch) (drop batch xs)" for xs :: "('b \<times> nat) list"
    by (simp add: add.commute)
  show ?case
    by (rule exI [of _ w'], rule conjI [OF run])
      (use rest one in \<open>simp add: split drop image_Un add.commute del: mult_Suc drop_drop\<close>)
qed simp

end
