(* ===== verification/Regex.thy ===== *)
theory Regex
  imports PyStr "HOL-Library.Sublist"
begin

text \<open>
  What the program uses of Python's \<open>re\<close>: patterns that are a sequence of character classes with
  greedy quantifiers, with a look-behind of one character and a look-ahead. \<open>match_at\<close> is the
  backtracking matcher (longest repetition first, item by item), \<open>rx_sub\<close> is \<open>re.sub\<close>;
  \<open>matches\<close> is the language of a pattern, and the matcher is sound and complete for it. The
  locale \<open>redacting\<close> states when replacing every match leaves no match behind.
\<close>

section \<open>Patterns\<close>

text \<open>A class, and how often it is repeated (\<open>None\<close>: no upper bound).\<close>

datatype quantified = Rep (rep_class: "codepoint \<Rightarrow> bool") (rep_min: nat) (rep_max: "nat option")

type_synonym pattern = "quantified list"

record regex =
  rx_before :: "codepoint option \<Rightarrow> bool"
  rx_items :: pattern
  rx_after :: "pystr \<Rightarrow> bool"

definition once :: "(codepoint \<Rightarrow> bool) \<Rightarrow> quantified" where
  "once p = Rep p 1 (Some 1)"

definition maybe :: "(codepoint \<Rightarrow> bool) \<Rightarrow> quantified" where
  "maybe p = Rep p 0 (Some 1)"

definition exactly :: "nat \<Rightarrow> (codepoint \<Rightarrow> bool) \<Rightarrow> quantified" where
  "exactly n p = Rep p n (Some n)"

definition at_least :: "nat \<Rightarrow> (codepoint \<Rightarrow> bool) \<Rightarrow> quantified" where
  "at_least n p = Rep p n None"

definition literally :: "string \<Rightarrow> pattern" where
  "literally s = map (\<lambda>c. once (\<lambda>d. d = c)) (lit s)"

text \<open>\<open>[A-Za-z0-9]\<close>, \<open>[0-9a-f]\<close> and \<open>\d\<close>\<close>

definition ascii_alnum :: "codepoint \<Rightarrow> bool" where
  "ascii_alnum c \<longleftrightarrow> ascii_isalpha c \<or> is_digit c"

definition hex_lower :: "codepoint \<Rightarrow> bool" where
  "hex_lower c \<longleftrightarrow> is_digit c \<or> 97 \<le> c \<and> c \<le> 102"

definition decimal :: "ucd \<Rightarrow> codepoint \<Rightarrow> bool" where
  "decimal U c \<longleftrightarrow> char_decimal U c \<noteq> None"

text \<open>\<open>$\<close>: the end of the text, or the line feed that ends it.\<close>

definition at_end :: "pystr \<Rightarrow> bool" where
  "at_end s \<longleftrightarrow> s = [] \<or> s = [10]"

section \<open>The language of a pattern\<close>

definition in_range :: "nat \<Rightarrow> nat option \<Rightarrow> nat \<Rightarrow> bool" where
  "in_range lo hi k \<longleftrightarrow> lo \<le> k \<and> (case hi of None \<Rightarrow> True | Some h \<Rightarrow> k \<le> h)"

primrec matches :: "pattern \<Rightarrow> pystr \<Rightarrow> bool" where
  "matches [] t \<longleftrightarrow> t = []"
| "matches (r # rs) t \<longleftrightarrow>
     (\<exists>k \<in> set [0..<Suc (length t)]. in_range (rep_min r) (rep_max r) k \<and>
        list_all (rep_class r) (take k t) \<and> matches rs (drop k t))"

declare matches.simps(2) [simp del]

lemma matches_Cons:
  "matches (r # rs) t \<longleftrightarrow>
     (\<exists>a b. t = a @ b \<and> in_range (rep_min r) (rep_max r) (length a) \<and> (\<forall>c \<in> set a. rep_class r c) \<and>
        matches rs b)"
proof
  assume "matches (r # rs) t"
  then obtain k where k: "k \<in> set [0..<Suc (length t)]" "in_range (rep_min r) (rep_max r) k"
      "list_all (rep_class r) (take k t)" "matches rs (drop k t)"
    unfolding matches.simps by blast
  moreover have "length (take k t) = k" using k(1) by auto
  ultimately show "\<exists>a b. t = a @ b \<and> in_range (rep_min r) (rep_max r) (length a) \<and>
      (\<forall>c \<in> set a. rep_class r c) \<and> matches rs b"
    by (intro exI [of _ "take k t"] exI [of _ "drop k t"]) (simp add: list_all_iff)
next
  assume "\<exists>a b. t = a @ b \<and> in_range (rep_min r) (rep_max r) (length a) \<and>
      (\<forall>c \<in> set a. rep_class r c) \<and> matches rs b"
  then obtain a b where "t = a @ b" "in_range (rep_min r) (rep_max r) (length a)"
      "\<forall>c \<in> set a. rep_class r c" "matches rs b"
    by blast
  then show "matches (r # rs) t"
    unfolding matches.simps by (intro bexI [of _ "length a"]) (simp_all add: list_all_iff)
qed

lemma split_once: "(\<exists>a b. t = a @ b \<and> (\<exists>c. a = [c]) \<and> (\<forall>c \<in> set a. p c) \<and> P b) \<longleftrightarrow>
    (\<exists>c b. t = c # b \<and> p c \<and> P b)"
proof
  assume "\<exists>c b. t = c # b \<and> p c \<and> P b"
  then obtain c b where "t = c # b" "p c" "P b" by blast
  then show "\<exists>a b. t = a @ b \<and> (\<exists>c. a = [c]) \<and> (\<forall>c \<in> set a. p c) \<and> P b"
    by (intro exI [of _ "[c]"] exI [of _ b]) simp
qed auto

lemma in_range_1: "in_range (Suc 0) (Some (Suc 0)) (length a) \<longleftrightarrow> (\<exists>c. a = [c])"
  by (cases a; cases "tl a") (auto simp: in_range_def)

lemma matches_once: "matches (once p # rs) t \<longleftrightarrow> (\<exists>c b. t = c # b \<and> p c \<and> matches rs b)"
  by (simp only: once_def matches_Cons quantified.sel One_nat_def in_range_1 split_once)

lemma matches_maybe:
  "matches (maybe p # rs) t \<longleftrightarrow> matches rs t \<or> (\<exists>c b. t = c # b \<and> p c \<and> matches rs b)"
proof -
  have "in_range 0 (Some 1) (length a) \<longleftrightarrow> a = [] \<or> (\<exists>c. a = [c])" for a :: pystr
    by (cases a; cases "tl a") (auto simp: in_range_def)
  then have "matches (maybe p # rs) t \<longleftrightarrow>
      (\<exists>a b. t = a @ b \<and> (a = [] \<or> (\<exists>c. a = [c])) \<and> (\<forall>c \<in> set a. p c) \<and> matches rs b)"
    by (simp only: maybe_def matches_Cons quantified.sel)
  also have "\<dots> \<longleftrightarrow> matches rs t \<or>
      (\<exists>a b. t = a @ b \<and> (\<exists>c. a = [c]) \<and> (\<forall>c \<in> set a. p c) \<and> matches rs b)"
    by (auto intro: exI [of _ "[]"])
  finally show ?thesis by (simp only: split_once)
qed

lemma matches_at_least:
  "matches (at_least n p # rs) t \<longleftrightarrow>
     (\<exists>a b. t = a @ b \<and> n \<le> length a \<and> (\<forall>c \<in> set a. p c) \<and> matches rs b)"
  by (simp add: at_least_def matches_Cons in_range_def)

lemma matches_exactly:
  "matches (exactly n p # rs) t \<longleftrightarrow>
     (\<exists>a b. t = a @ b \<and> length a = n \<and> (\<forall>c \<in> set a. p c) \<and> matches rs b)"
proof -
  have "in_range n (Some n) k \<longleftrightarrow> k = n" for k by (auto simp: in_range_def)
  then show ?thesis by (simp add: exactly_def matches_Cons)
qed

lemma matches_append: "matches (rs @ qs) t \<longleftrightarrow> (\<exists>a b. t = a @ b \<and> matches rs a \<and> matches qs b)"
proof (induction rs arbitrary: t)
  case (Cons r rs)
  show ?case
  proof
    assume "matches ((r # rs) @ qs) t"
    then obtain a b c where "t = a @ b @ c" "in_range (rep_min r) (rep_max r) (length a)"
        "\<forall>x \<in> set a. rep_class r x" "matches rs b" "matches qs c"
      unfolding append_Cons matches_Cons Cons.IH by blast
    then show "\<exists>a b. t = a @ b \<and> matches (r # rs) a \<and> matches qs b"
      unfolding matches_Cons by (intro exI [of _ "a @ b"] exI [of _ c]) auto
  next
    assume "\<exists>a b. t = a @ b \<and> matches (r # rs) a \<and> matches qs b"
    then obtain a b c where "t = (a @ b) @ c" "in_range (rep_min r) (rep_max r) (length a)"
        "\<forall>x \<in> set a. rep_class r x" "matches rs b" "matches qs c"
      unfolding matches_Cons by blast
    then show "matches ((r # rs) @ qs) t"
      unfolding append_Cons matches_Cons Cons.IH by (intro exI [of _ a] exI [of _ "b @ c"]) auto
  qed
qed simp

lemma matches_literally: "matches (literally s @ rs) t \<longleftrightarrow> (\<exists>b. t = lit s @ b \<and> matches rs b)"
proof -
  have "matches (map (\<lambda>c. once (\<lambda>d. d = c)) cs @ rs) t \<longleftrightarrow> (\<exists>b. t = cs @ b \<and> matches rs b)" for cs t
    by (induction cs arbitrary: t) (auto simp: matches_once)
  then show ?thesis by (simp add: literally_def)
qed

lemmas matches_simps = matches_once matches_maybe matches_at_least matches_exactly matches_literally

text \<open>Rules that build a word item by item.\<close>

lemma matches_literallyI: "matches rs b \<Longrightarrow> matches (literally s @ rs) (lit s @ b)"
  by (auto simp: matches_literally)

lemma matches_onceI: "p c \<Longrightarrow> matches rs b \<Longrightarrow> matches (once p # rs) (c # b)"
  by (auto simp: matches_once)

lemma matches_at_leastI:
  "n \<le> length a \<Longrightarrow> (\<And>c. c \<in> set a \<Longrightarrow> p c) \<Longrightarrow> matches rs b \<Longrightarrow> matches (at_least n p # rs) (a @ b)"
  unfolding matches_at_least by blast

lemma matches_exactlyI:
  "length a = n \<Longrightarrow> (\<And>c. c \<in> set a \<Longrightarrow> p c) \<Longrightarrow> matches rs b \<Longrightarrow> matches (exactly n p # rs) (a @ b)"
  unfolding matches_exactly by blast

lemma matches_at_least_last:
  "n \<le> length a \<Longrightarrow> (\<And>c. c \<in> set a \<Longrightarrow> p c) \<Longrightarrow> matches [at_least n p] a"
  using matches_at_leastI [of n a p "[]" "[]"] by simp

lemma matches_exactly_last:
  "length a = n \<Longrightarrow> (\<And>c. c \<in> set a \<Longrightarrow> p c) \<Longrightarrow> matches [exactly n p] a"
  using matches_exactlyI [of a n p "[]" "[]"] by simp

lemmas matches_intros =
  matches_literallyI matches_onceI matches_at_leastI matches_exactlyI matches_at_least_last matches_exactly_last

section \<open>The matcher\<close>

primrec first_some :: "('a \<Rightarrow> 'b option) \<Rightarrow> 'a list \<Rightarrow> 'b option" where
  "first_some f [] = None"
| "first_some f (x # xs) = (case f x of None \<Rightarrow> first_some f xs | Some y \<Rightarrow> Some y)"

text \<open>The numbers of repetitions that are tried, the longest first.\<close>

definition repetitions :: "quantified \<Rightarrow> pystr \<Rightarrow> nat list" where
  "repetitions r s =
     (let n = length (takeWhile (rep_class r) s);
          m = (case rep_max r of None \<Rightarrow> n | Some h \<Rightarrow> min h n)
      in rev [rep_min r..<Suc m])"

text \<open>The length of the match at the start of \<open>s\<close> after which \<open>ok\<close> holds of the rest.\<close>

primrec match_at :: "pattern \<Rightarrow> (pystr \<Rightarrow> bool) \<Rightarrow> pystr \<Rightarrow> nat option" where
  "match_at [] ok s = (if ok s then Some 0 else None)"
| "match_at (r # rs) ok s =
     first_some (\<lambda>k. map_option ((+) k) (match_at rs ok (drop k s))) (repetitions r s)"

declare match_at.simps(2) [simp del]

definition match_here :: "regex \<Rightarrow> codepoint option \<Rightarrow> pystr \<Rightarrow> nat option" where
  "match_here R prev s = (if rx_before R prev then match_at (rx_items R) (rx_after R) s else None)"

text \<open>\<open>re.match\<close>; is there a match anywhere (\<open>re.search\<close>); \<open>re.sub\<close>. \<open>prev\<close> is the character before the
  current position. A pattern that can match the empty text is not substituted.\<close>

definition re_match :: "regex \<Rightarrow> pystr \<Rightarrow> bool" where
  "re_match R s \<longleftrightarrow> match_here R None s \<noteq> None"

fun rx_search :: "regex \<Rightarrow> codepoint option \<Rightarrow> pystr \<Rightarrow> bool" where
  "rx_search R prev [] \<longleftrightarrow> match_here R prev [] \<noteq> None"
| "rx_search R prev (c # s) \<longleftrightarrow> match_here R prev (c # s) \<noteq> None \<or> rx_search R (Some c) s"

fun rx_sub :: "regex \<Rightarrow> pystr \<Rightarrow> codepoint option \<Rightarrow> pystr \<Rightarrow> pystr" where
  "rx_sub R repl prev [] = []"
| "rx_sub R repl prev (c # s) =
     (case match_here R prev (c # s) of
        Some (Suc n) \<Rightarrow> repl @ rx_sub R repl (Some ((c # s) ! n)) (drop n s)
      | _ \<Rightarrow> c # rx_sub R repl (Some c) s)"

section \<open>The matcher finds the words of the language\<close>

lemma first_some_Some: "first_some f xs = Some y \<Longrightarrow> \<exists>x \<in> set xs. f x = Some y"
  by (induction xs) (auto split: option.splits)

lemma first_some_None: "first_some f xs = None \<longleftrightarrow> (\<forall>x \<in> set xs. f x = None)"
  by (induction xs) (auto split: option.splits)

lemma first_some_longest:
  "first_some f (rev [lo..<n]) = Some y \<Longrightarrow>
   \<exists>k. lo \<le> k \<and> k < n \<and> f k = Some y \<and> (\<forall>j. k < j \<and> j < n \<longrightarrow> f j = None)"
proof (induction n)
  case (Suc n)
  show ?case
  proof (cases "lo \<le> n")
    case True
    with Suc show ?thesis
      by (auto split: option.splits) (metis less_Suc_eq)+
  qed (use Suc.prems in simp)
qed simp

lemma set_repetitions:
  "k \<in> set (repetitions r s) \<longleftrightarrow>
     k \<le> length s \<and> in_range (rep_min r) (rep_max r) k \<and> (\<forall>c \<in> set (take k s). rep_class r c)"
proof -
  have prefix: "k \<le> length (takeWhile p s) \<longleftrightarrow> k \<le> length s \<and> (\<forall>c \<in> set (take k s). p c)" for p
  proof (induction s arbitrary: k)
    case (Cons c s)
    then show ?case by (cases k) auto
  qed simp
  have "k \<in> set (repetitions r s) \<longleftrightarrow>
      k \<le> length (takeWhile (rep_class r) s) \<and> in_range (rep_min r) (rep_max r) k"
    by (auto simp: repetitions_def Let_def in_range_def less_Suc_eq_le simp del: upt_Suc split: option.splits)
  then show ?thesis unfolding prefix by blast
qed

lemma match_at_Some:
  "match_at rs ok s = Some n \<Longrightarrow> n \<le> length s \<and> matches rs (take n s) \<and> ok (drop n s)"
proof (induction rs arbitrary: s n)
  case Nil
  then show ?case by (simp split: if_splits)
next
  case (Cons r rs)
  then obtain k m where k: "k \<in> set (repetitions r s)" and m: "match_at rs ok (drop k s) = Some m"
    and n: "n = k + m"
    by (auto simp: match_at.simps(2) dest!: first_some_Some)
  have m': "m \<le> length (drop k s)" "matches rs (take m (drop k s))" "ok (drop m (drop k s))"
    using Cons.IH [OF m] by blast+
  have split: "take n s = take k s @ take m (drop k s)" by (simp add: n take_add)
  have len: "length (take k s) = k" using k by (simp add: set_repetitions)
  have "matches (r # rs) (take n s)"
    unfolding matches_Cons split using k m'(2) len
    by (intro exI [of _ "take k s"] exI [of _ "take m (drop k s)"]) (simp add: set_repetitions)
  moreover have "ok (drop n s)" using m'(3) by (simp add: n add.commute)
  ultimately show ?case using k m'(1) n by (auto simp: set_repetitions)
qed

text \<open>The matcher on each kind of item.\<close>

lemma match_at_once:
  "match_at (once p # rs) ok s =
     (case s of [] \<Rightarrow> None | c # s' \<Rightarrow> if p c then map_option Suc (match_at rs ok s') else None)"
proof -
  have "repetitions (once p) s = (case s of [] \<Rightarrow> [] | c # s' \<Rightarrow> if p c then [1] else [])"
    by (simp add: repetitions_def once_def Let_def split: list.split)
  then show ?thesis
    by (auto simp: match_at.simps(2) split: list.split option.split)
qed

lemma match_at_maybe:
  "match_at (maybe p # rs) ok s =
     (case s of [] \<Rightarrow> match_at rs ok s
      | c # s' \<Rightarrow> (case if p c then map_option Suc (match_at rs ok s') else None of
                   None \<Rightarrow> match_at rs ok s | Some n \<Rightarrow> Some n))"
proof -
  have "repetitions (maybe p) s = (case s of [] \<Rightarrow> [0] | c # s' \<Rightarrow> if p c then [1, 0] else [0])"
    by (simp add: repetitions_def maybe_def Let_def split: list.split)
  then show ?thesis
    by (auto simp: match_at.simps(2) split: list.split option.split)
qed

lemma match_at_at_least:
  assumes "match_at (at_least m p # rs) ok s = Some n"
  shows "\<exists>k n'. n = k + n' \<and> match_at rs ok (drop k s) = Some n' \<and>
    (\<forall>j. k < j \<longrightarrow> j \<le> length (takeWhile p s) \<longrightarrow> match_at rs ok (drop j s) = None)"
proof -
  have "first_some (\<lambda>k. map_option ((+) k) (match_at rs ok (drop k s)))
      (rev [m..<Suc (length (takeWhile p s))]) = Some n"
    using assms by (simp add: match_at.simps(2) repetitions_def at_least_def Let_def del: upt_Suc)
  from first_some_longest [OF this] obtain k where
      "map_option ((+) k) (match_at rs ok (drop k s)) = Some n"
      "\<forall>j. k < j \<and> j < Suc (length (takeWhile p s)) \<longrightarrow> map_option ((+) j) (match_at rs ok (drop j s)) = None"
    by blast
  then show ?thesis by (auto simp: less_Suc_eq_le)
qed

lemma match_at_complete: "matches rs t \<Longrightarrow> ok u \<Longrightarrow> match_at rs ok (t @ u) \<noteq> None"
proof (induction rs arbitrary: t)
  case (Cons r rs)
  then obtain a b where t: "t = a @ b" "in_range (rep_min r) (rep_max r) (length a)"
      "\<forall>c \<in> set a. rep_class r c" and b: "matches rs b"
    unfolding matches_Cons by blast
  have "length a \<in> set (repetitions r (t @ u))" using t by (simp add: set_repetitions)
  moreover have "match_at rs ok (drop (length a) (t @ u)) \<noteq> None"
    using Cons.IH [OF b Cons.prems(2)] t(1) by simp
  ultimately show ?case by (auto simp: match_at.simps(2) first_some_None)
qed simp

lemma match_here_None:
  "match_here R prev s = None \<longleftrightarrow>
     \<not> (rx_before R prev \<and> (\<exists>t u. s = t @ u \<and> matches (rx_items R) t \<and> rx_after R u))"
proof (cases "match_here R prev s")
  case None
  have "match_here R prev (t @ u) \<noteq> None"
    if "rx_before R prev" "matches (rx_items R) t" "rx_after R u" for t u
    using match_at_complete [where ok = "rx_after R", OF that(2,3)] that(1) by (simp add: match_here_def)
  with None show ?thesis by blast
next
  case (Some n)
  then have "rx_before R prev" "match_at (rx_items R) (rx_after R) s = Some n"
    by (auto simp: match_here_def split: if_splits)
  with Some show ?thesis using match_at_Some by (metis append_take_drop_id option.distinct(1))
qed

text \<open>A pattern between \<open>^\<close> and \<open>$\<close>: the whole text, or all but a final line feed.\<close>

lemma re_match_anchored:
  assumes "rx_before R None" and "rx_after R = at_end"
  shows "re_match R s \<longleftrightarrow> matches (rx_items R) s \<or> (\<exists>t. s = t @ [10] \<and> matches (rx_items R) t)"
  unfolding re_match_def match_here_None using assms by (auto simp: at_end_def)

text \<open>A text without a match is not changed.\<close>

lemma rx_sub_unmatched: "\<not> rx_search R prev s \<Longrightarrow> rx_sub R repl prev s = s"
proof (induction s arbitrary: prev)
  case (Cons c s)
  then have "match_here R prev (c # s) = None" "rx_sub R repl (Some c) s = s" by simp_all
  then show ?case by simp
qed simp

lemma rx_search_iff:
  assumes "rx_before R = (\<lambda>_. True)"
  shows "rx_search R prev s \<longleftrightarrow> (\<exists>a t u. s = a @ t @ u \<and> matches (rx_items R) t \<and> rx_after R u)"
proof (induction s arbitrary: prev)
  case Nil
  show ?case using assms by (simp add: match_here_None del: not_None_eq)
next
  case (Cons c s)
  have "rx_search R prev (c # s) \<longleftrightarrow>
      (\<exists>t u. c # s = t @ u \<and> matches (rx_items R) t \<and> rx_after R u) \<or>
      (\<exists>a t u. s = a @ t @ u \<and> matches (rx_items R) t \<and> rx_after R u)"
    unfolding rx_search.simps match_here_None Cons.IH assms by blast
  also have "\<dots> \<longleftrightarrow> (\<exists>a t u. c # s = a @ t @ u \<and> matches (rx_items R) t \<and> rx_after R u)"
    (is "?L1 \<or> ?L2 \<longleftrightarrow> ?R")
  proof
    assume "?L1 \<or> ?L2"
    then show ?R by (metis append_Cons append_Nil)
  next
    assume ?R
    then obtain a t u where s: "c # s = a @ t @ u" and t: "matches (rx_items R) t" "rx_after R u" by blast
    then show "?L1 \<or> ?L2" by (cases a) auto
  qed
  finally show ?case .
qed

section \<open>Replacing every match\<close>

text \<open>The text before the first replacement is copied; what follows it is copied or a replacement.\<close>

lemma rx_sub_cases:
  obtains (nothing) "s = []" "rx_sub R repl prev s = []"
  | (matched) n where "match_here R prev s = Some (Suc n)" "n < length s"
      "rx_sub R repl prev s = repl @ rx_sub R repl (Some (s ! n)) (drop (Suc n) s)"
  | (copied) c s' where "s = c # s'" "\<forall>n. match_here R prev s \<noteq> Some (Suc n)"
      "rx_sub R repl prev s = c # rx_sub R repl (Some c) s'"
proof (cases s)
  case Nil
  show ?thesis by (rule that(1)) (simp_all add: Nil)
next
  case (Cons c s')
  show ?thesis
  proof (cases "\<exists>n. match_here R prev s = Some (Suc n)")
    case True
    then obtain n where n: "match_here R prev s = Some (Suc n)" by blast
    then have "Suc n \<le> length s" by (auto simp: match_here_def dest: match_at_Some split: if_splits)
    with n Cons show ?thesis using matched by simp
  next
    case False
    then have "rx_sub R repl prev s = c # rx_sub R repl (Some c) s'"
      using Cons by (auto split: option.splits nat.splits)
    with False Cons show ?thesis using copied by blast
  qed
qed

lemma before_mark: "r @ e # s = t @ u \<Longrightarrow> e \<notin> set t \<Longrightarrow> \<exists>q. r = t @ q"
  by (auto simp: append_eq_append_conv2 Cons_eq_append_conv)

lemma copied_prefix:
  assumes "t @ u = rx_sub R (b # repl) prev s" and "b \<notin> set t"
  shows "\<exists>u'. s = t @ u' \<and>
    (u = [] \<and> u' = [] \<or> u \<noteq> [] \<and> u' \<noteq> [] \<and> hd u = hd u' \<or>
     (\<exists>prev' n. match_here R prev' u' = Some (Suc n)))"
  using assms
proof (induction t arbitrary: prev s)
  case Nil
  then show ?case by (cases rule: rx_sub_cases [of s R "b # repl" prev]) auto
next
  case (Cons c t)
  show ?case
  proof (cases rule: rx_sub_cases [of s R "b # repl" prev])
    case (copied d s')
    then have "t @ u = rx_sub R (b # repl) (Some c) s'" "s = c # s'" using Cons.prems(1) by auto
    with Cons.IH [of "Some c" s'] Cons.prems(2) show ?thesis by auto
  qed (use Cons.prems in auto)
qed

text \<open>
  A pattern for which replacing every match by \<open>b # inner @ [e]\<close> leaves none: its words have at
  least two characters, avoid the brackets \<open>b\<close> and \<open>e\<close> and are not made of the characters of the
  replacement; the look-ahead sees one character; a word that the look-ahead rejects because the
  next match follows can be joined to it; and where the look-behind forbade a match after a match,
  dropping a character finds one.
\<close>

locale redacting =
  fixes R :: regex and b :: codepoint and inner :: pystr and e :: codepoint
  assumes words: "matches (rx_items R) t \<Longrightarrow>
      2 \<le> length t \<and> b \<notin> set t \<and> e \<notin> set t \<and> \<not> set t \<subseteq> set inner"
    and after_head: "u \<noteq> [] \<Longrightarrow> v \<noteq> [] \<Longrightarrow> hd u = hd v \<Longrightarrow> rx_after R u = rx_after R v"
    and join: "matches (rx_items R) t \<Longrightarrow> matches (rx_items R) m \<Longrightarrow> rx_after R v \<Longrightarrow>
      rx_after R (m @ v) \<or> matches (rx_items R) (t @ m)"
    and behind: "match_at (rx_items R) (rx_after R) (m @ t @ v) = Some (length m) \<Longrightarrow>
      matches (rx_items R) m \<Longrightarrow> matches (rx_items R) t \<Longrightarrow> rx_after R v \<Longrightarrow>
      \<not> rx_before R (Some (last m)) \<Longrightarrow>
      \<exists>c t'. t = c # t' \<and> matches (rx_items R) t' \<and> rx_before R (Some c)"
begin

abbreviation repl :: pystr where
  "repl \<equiv> b # inner @ [e]"

text \<open>A word without brackets in an output was copied, unless it lies inside a replacement.\<close>

lemma word_copied:
  assumes "c # rx_sub R repl (Some c) s = t @ u" and "rx_sub R repl prev (c # s) = c # rx_sub R repl (Some c) s"
    and "matches (rx_items R) t" and "rx_after R u"
  shows "\<exists>t' v. c # s = t' @ v \<and> matches (rx_items R) t' \<and> rx_after R v \<and> (\<exists>m. t' = t @ m)"
proof -
  have "t @ u = rx_sub R repl prev (c # s)" using assms(1,2) by simp
  then obtain u' where s: "c # s = t @ u'"
      and alt: "u = [] \<and> u' = [] \<or> u \<noteq> [] \<and> u' \<noteq> [] \<and> hd u = hd u' \<or>
         (\<exists>prev' n. match_here R prev' u' = Some (Suc n))"
    using copied_prefix words [OF assms(3)] by metis
  from alt consider "u = u'" | "u \<noteq> []" "u' \<noteq> []" "hd u = hd u'"
    | prev' n where "match_here R prev' u' = Some (Suc n)" by auto
  then show ?thesis
  proof cases
    case 1
    with s assms(3,4) show ?thesis by (intro exI [of _ t] exI [of _ u]) simp
  next
    case 2
    then have "rx_after R u'" using after_head [of u u'] assms(4) by blast
    with s assms(3) show ?thesis by (intro exI [of _ t] exI [of _ u']) simp
  next
    case 3
    then have "match_here R prev' u' \<noteq> None" by simp
    then obtain m v where u': "u' = m @ v" and m: "matches (rx_items R) m" "rx_after R v"
      unfolding match_here_None by blast
    from join [OF assms(3) m] show ?thesis
    proof
      assume "rx_after R (m @ v)"
      with s u' assms(3) show ?thesis by (intro exI [of _ t] exI [of _ "m @ v"]) simp
    next
      assume "matches (rx_items R) (t @ m)"
      with s u' m(2) show ?thesis by (intro exI [of _ "t @ m"] exI [of _ v]) simp
    qed
  qed
qed

lemma search_repl:
  assumes "\<not> rx_search R (Some e) s"
  shows "\<not> rx_search R prev (repl @ s)"
proof -
  have no: "match_here R prev (r @ e # s) = None" if "set r \<subseteq> insert b (set inner)" for prev r
  proof (rule ccontr)
    assume "\<not> ?thesis"
    then obtain t u where tu: "r @ e # s = t @ u" and t: "matches (rx_items R) t"
      unfolding match_here_None by blast
    have "e \<notin> set t" using words [OF t] by blast
    then have "\<exists>r'. r = t @ r'" using before_mark [OF tu] by blast
    then have "set t \<subseteq> insert b (set inner)" using that by auto
    with words [OF t] show False by blast
  qed
  have "\<not> rx_search R prev (r @ e # s)" if "set r \<subseteq> insert b (set inner)" for prev r
    using that
  proof (induction r arbitrary: prev)
    case Nil
    then show ?case using no [of "[]" prev] assms by simp
  next
    case (Cons c r)
    then show ?case using no [of "c # r" prev] by simp
  qed
  from this [of "b # inner" prev] show ?thesis by auto
qed

lemma sub_leaves_none:
  "\<not> rx_search R prev (rx_sub R repl prev s) \<and>
   (\<forall>m. matches (rx_items R) m \<longrightarrow> match_at (rx_items R) (rx_after R) (m @ s) = Some (length m) \<longrightarrow>
      prev = Some (last m) \<longrightarrow> \<not> rx_search R (Some e) (rx_sub R repl prev s))"
proof (induction "length s" arbitrary: prev s rule: less_induct)
  case less
  have empty: "match_here R prev' [] = None" for prev'
    unfolding match_here_None using words by fastforce
  show ?case
  proof (cases rule: rx_sub_cases [of s R repl prev])
    case nothing
    then show ?thesis using empty by simp
  next
    case (matched n)
    let ?m = "take (Suc n) s" and ?v = "drop (Suc n) s"
    have at: "match_at (rx_items R) (rx_after R) s = Some (Suc n)"
      using matched(1) by (simp add: match_here_def split: if_splits)
    then have m: "matches (rx_items R) ?m" using match_at_Some by blast
    have last: "last ?m = s ! n" using matched(2) by (simp add: take_Suc_conv_app_nth)
    have "length ?v < length s" using matched(2) by simp
    moreover have "match_at (rx_items R) (rx_after R) (?m @ ?v) = Some (length ?m)"
      using at matched(2) by simp
    ultimately have "\<not> rx_search R (Some e) (rx_sub R repl (Some (s ! n)) ?v)"
      using less.hyps [of ?v "Some (s ! n)"] m last by metis
    then show ?thesis by (simp only: matched(3) search_repl not_False_eq_True simp_thms)
  next
    case (copied c s')
    let ?out = "rx_sub R repl (Some c) s'"
    have IH: "\<not> rx_search R (Some c) ?out" using less.hyps [of s' "Some c"] copied(1) by simp
    have noword: "match_here R prev s = None"
    proof (rule ccontr)
      assume "match_here R prev s \<noteq> None"
      then obtain n where n: "match_here R prev s = Some n" by blast
      then have "matches (rx_items R) (take n s)"
        by (auto simp: match_here_def dest: match_at_Some split: if_splits)
      then have "n \<noteq> 0" using words by fastforce
      with n copied(2) show False by (cases n) auto
    qed
    have copy: "rx_sub R repl prev (c # s') = c # ?out" using copied(1,3) by simp
    have A: "match_here R prev (c # ?out) = None"
    proof (rule ccontr)
      assume "\<not> ?thesis"
      then obtain t u where "c # ?out = t @ u" "matches (rx_items R) t" "rx_after R u"
          and "rx_before R prev" unfolding match_here_None by blast
      with word_copied [OF this(1) copy this(2,3)] noword show False
        unfolding match_here_None copied(1) by blast
    qed
    have B: "match_here R (Some e) (c # ?out) = None"
      if m: "matches (rx_items R) m" "match_at (rx_items R) (rx_after R) (m @ s) = Some (length m)"
        "prev = Some (last m)" for m
    proof (rule ccontr)
      assume "\<not> ?thesis"
      then obtain t u where tu: "c # ?out = t @ u" "matches (rx_items R) t" "rx_after R u"
        unfolding match_here_None by blast
      obtain t' v m' where t': "c # s' = t' @ v" "matches (rx_items R) t'" "rx_after R v" "t' = t @ m'"
        using word_copied [OF tu(1) copy tu(2,3)] by blast
      have "\<not> rx_before R (Some (last m))"
        using noword t' m(3) unfolding match_here_None copied(1) by blast
      moreover have "match_at (rx_items R) (rx_after R) (m @ t' @ v) = Some (length m)"
        using m(2) t'(1) copied(1) by simp
      ultimately obtain t'' where "t' = c # t''" "matches (rx_items R) t''" "rx_before R (Some c)"
        using behind m(1) t' by (metis append_Cons list.inject)
      then have "match_here R (Some c) s' \<noteq> None"
        using t'(1,3) unfolding match_here_None by auto
      then obtain k where k: "match_here R (Some c) s' = Some k" by blast
      then have "matches (rx_items R) (take k s')"
        by (auto simp: match_here_def dest: match_at_Some split: if_splits)
      then have len: "2 \<le> length (take k s')" using words by blast
      then obtain j d s'' where "k = Suc j" "s' = d # s''" by (cases k; cases s') auto
      then have "\<exists>out. ?out = b # out" using k by simp
      moreover obtain c1 c2 t1 where "t = c1 # c2 # t1"
        using words [OF tu(2)] by (cases t; cases "tl t") auto
      ultimately have "b \<in> set t" using tu(1) by auto
      with words [OF tu(2)] show False by blast
    qed
    have "\<not> rx_search R x (c # ?out)" if "match_here R x (c # ?out) = None" for x
      using that IH by simp
    then show ?thesis unfolding copied(3) using A B by blast
  qed
qed

lemma no_match_left: "\<not> rx_search R prev (rx_sub R repl prev s)"
  using sub_leaves_none by blast

lemma sub_idempotent: "rx_sub R repl prev (rx_sub R repl prev s) = rx_sub R repl prev s"
  by (rule rx_sub_unmatched) (rule no_match_left)

end

text \<open>Replacing the matches of one pattern does not make a word of another.\<close>

lemma word_in_output:
  assumes "rx_sub R (b # inner @ [e]) prev s = a @ t @ u"
    and "b \<notin> set t" and "e \<notin> set t" and "\<not> set t \<subseteq> set inner"
  shows "\<exists>a' u'. s = a' @ t @ u'"
  using assms(1)
proof (induction "length s" arbitrary: prev s a rule: less_induct)
  case less
  let ?repl = "b # inner @ [e]"
  show ?case
  proof (cases rule: rx_sub_cases [of s R ?repl prev])
    case nothing
    then show ?thesis using less.prems assms(4) by simp
  next
    case (matched n)
    have eq: "?repl @ rx_sub R ?repl (Some (s ! n)) (drop (Suc n) s) = a @ t @ u"
      using matched(3) less.prems by simp
    have "\<exists>a'. a = ?repl @ a'"
    proof (rule ccontr)
      assume no: "\<nexists>a'. a = ?repl @ a'"
      then obtain r c where "?repl = a @ c # r"
        using eq by (metis append_Nil2 append_eq_append_conv2 neq_Nil_conv)
      then obtain r' where r': "?repl = a @ r'" "r' \<noteq> []" by blast
      moreover have "last r' = e" using r' by (metis last_ConsR last_appendR last_snoc snoc_eq_iff_butlast)
      then obtain y where y: "r' = y @ [e]" using r'(2) by (metis append_butlast_last_id)
      moreover have "r' @ rx_sub R ?repl (Some (s ! n)) (drop (Suc n) s) = t @ u" using eq r'(1) by simp
      ultimately have "\<exists>q. y = t @ q" using before_mark assms(3) by simp
      moreover have "b # inner = a @ y" using r'(1) y by simp
      ultimately have "set t \<subseteq> set (b # inner)" by auto
      then show False using assms(2,4) by auto
    qed
    then obtain a' where "rx_sub R ?repl (Some (s ! n)) (drop (Suc n) s) = a' @ t @ u" using eq by auto
    from less.hyps [OF _ this] matched(2) obtain a'' u'' where "drop (Suc n) s = a'' @ t @ u''"
      by (metis diff_less length_drop less_nat_zero_code list.size(3) length_greater_0_conv zero_less_Suc)
    then have "s = (take (Suc n) s @ a'') @ t @ u''" by (metis append.assoc append_take_drop_id)
    then show ?thesis by blast
  next
    case (copied c s')
    show ?thesis
    proof (cases a)
      case Nil
      then have "t @ u = rx_sub R ?repl prev s" using less.prems by simp
      then show ?thesis using copied_prefix assms(2) by (metis append_Nil)
    next
      case (Cons d a')
      then have "rx_sub R ?repl (Some c) s' = a' @ t @ u" using less.prems unfolding copied(3) by auto
      from less.hyps [OF _ this] copied(1) obtain a'' u'' where "s' = a'' @ t @ u''" by auto
      then have "s = (c # a'') @ t @ u''" using copied(1) by simp
      then show ?thesis by blast
    qed
  qed
qed

end
