(* ===== verification/MockAds.thy ===== *)
theory MockAds
  imports Client Regex
begin

text \<open>
  \<open>mock_ads_api/app.py\<close>: the platform that the gateway is tested and demonstrated against. A
  request body is any JSON value, so a handler may raise like Python does; Starlette answers an
  uncaught exception with status 500. Uploads that a request accepted before its handler raised
  stay recorded. The main results: the rows that the gateway builds pass the mock's checks, and
  what the client reads out of the mock's answer is the verdict on each row.
\<close>

section \<open>Patterns\<close>

definition anchored :: "pattern \<Rightarrow> regex" where
  "anchored items = \<lparr>rx_before = (\<lambda>prev. prev = None), rx_items = items, rx_after = at_end\<rparr>"

definition HEX64 :: regex where
  "HEX64 = anchored [exactly 64 hex_lower]"

definition word_char :: "codepoint \<Rightarrow> bool" where
  "word_char c \<longleftrightarrow> ascii_alnum c \<or> c = 95"

definition CONVERSION_ACTION :: "ucd \<Rightarrow> regex" where
  "CONVERSION_ACTION U =
     anchored (literally ''customers/'' @ at_least 1 (decimal U) # literally ''/conversionActions/'' @
               [at_least 1 word_char])"

definition DATE_TIME :: "ucd \<Rightarrow> regex" where
  "DATE_TIME U =
     anchored (exactly 4 (decimal U) # literally ''-'' @ exactly 2 (decimal U) # literally ''-'' @
               exactly 2 (decimal U) # literally '' '' @ exactly 2 (decimal U) # literally '':'' @
               exactly 2 (decimal U) # literally '':'' @ exactly 2 (decimal U) #
               once (\<lambda>c. c = 43 \<or> c = 45) # exactly 2 (decimal U) # literally '':'' @
               [exactly 2 (decimal U)])"

section \<open>Failure injection\<close>

datatype Mode =
    MODE_OK
  | HTTP_401
  | HTTP_429
  | HTTP_500
  | HTTP_503
  | MODE_TIMEOUT
  | MODE_MALFORMED

text \<open>\<open>int(mode.removeprefix("http_"))\<close> of the modes that start so.\<close>

fun mode_http_code :: "Mode \<Rightarrow> nat option" where
  "mode_http_code HTTP_401 = Some 401"
| "mode_http_code HTTP_429 = Some 429"
| "mode_http_code HTTP_500 = Some 500"
| "mode_http_code HTTP_503 = Some 503"
| "mode_http_code _ = None"

record RowFailure =
  rf_index :: nat
  rf_error_code :: pystr

record Control =
  ctl_mode :: Mode
  ctl_fail_rows :: "RowFailure list"
  ctl_times :: "int option"
  ctl_timeout_seconds :: rat

definition new_control :: Control where
  "new_control = \<lparr>ctl_mode = MODE_OK, ctl_fail_rows = [], ctl_times = None, ctl_timeout_seconds = 3\<rparr>"

record mock_state =
  ms_known_actions :: "pystr list"
  ms_control :: Control
  ms_uploads :: "json list"
  ms_request_count :: nat

definition take_control :: "mock_state \<Rightarrow> Control \<times> mock_state" where
  "take_control st =
     (let current = ms_control st in
      case ctl_times current of
        None \<Rightarrow> (current, st)
      | Some remaining \<Rightarrow>
          if remaining \<le> 0 then (new_control, st\<lparr>ms_control := new_control\<rparr>)
          else (current, st\<lparr>ms_control := current\<lparr>ctl_times := Some (remaining - 1)\<rparr>\<rparr>))"

section \<open>validate\_row\<close>

text \<open>\<open>resource.rsplit("/", 1)[-1]\<close>\<close>

definition action_name :: "pystr \<Rightarrow> pystr" where
  "action_name resource = rev (takeWhile (\<lambda>c. c \<noteq> 47) (rev resource))"

text \<open>\<open>key in v\<close>\<close>

fun json_in :: "string \<Rightarrow> json \<Rightarrow> exn + bool" where
  "json_in key (JObj kvs) = Inr (lit key \<in> fst ` set kvs)"
| "json_in key (JArr xs) = Inr (JStr (lit key) \<in> set xs)"
| "json_in key (JStr s) = Inr (str_contains s (lit key))"
| "json_in key _ = Inl TypeError"

text \<open>\<open>if any(key in d and not HEX64.match(str(d[key])) for key in keys): return "INVALID\_USER\_IDENTIFIER"\<close>\<close>

fun digests_ok :: "(json \<Rightarrow> pystr) \<Rightarrow> json \<Rightarrow> string list \<Rightarrow> exn + bool" where
  "digests_ok py_repr d [] = Inr True"
| "digests_ok py_repr d (key # keys) =
     try_bind (json_in key d) (\<lambda>present.
       if \<not> present then digests_ok py_repr d keys
       else try_bind (json_item d key) (\<lambda>v.
              if re_match HEX64 (json_str py_repr v) then digests_ok py_repr d keys else Inr False))"

definition identifier_ok :: "(json \<Rightarrow> pystr) \<Rightarrow> json \<Rightarrow> exn + bool" where
  "identifier_ok py_repr ident =
     (case ident of
        JObj _ \<Rightarrow>
          try_bind (digests_ok py_repr ident [''hashedEmail'', ''hashedPhoneNumber'']) (\<lambda>ok.
            if \<not> ok then Inr False
            else try_bind (json_get ident ''addressInfo'' JNull) (\<lambda>address.
              if address = JNull then Inr True
              else digests_ok py_repr address [''hashedFirstName'', ''hashedLastName'', ''hashedStreetAddress'']))
      | _ \<Rightarrow> Inr False)"

fun identifiers_ok :: "(json \<Rightarrow> pystr) \<Rightarrow> json list \<Rightarrow> exn + bool" where
  "identifiers_ok py_repr [] = Inr True"
| "identifiers_ok py_repr (ident # idents) =
     try_bind (identifier_ok py_repr ident) (\<lambda>ok. if ok then identifiers_ok py_repr idents else Inr False)"

definition consent_ok :: "json \<Rightarrow> exn + bool" where
  "consent_ok consent =
     try_bind (json_get (json_or_empty consent) ''adUserData'' JNull) (\<lambda>v. Inr (v = JStr (lit ''GRANTED'')))"

definition matches_str :: "regex \<Rightarrow> json \<Rightarrow> bool" where
  "matches_str R v = (case v of JStr s \<Rightarrow> re_match R s | _ \<Rightarrow> False)"

definition validate_identifiers :: "(json \<Rightarrow> pystr) \<Rightarrow> json \<Rightarrow> exn + pystr option" where
  "validate_identifiers py_repr row =
     try_bind (json_get row ''gclid'' JNull) (\<lambda>gclid.
     try_bind (json_get row ''userIdentifiers'' JNull) (\<lambda>given.
       let idents = (if json_true given then given else JArr []) in
       if \<not> json_true gclid \<and> \<not> json_true idents then Inr (Some (lit ''USER_IDENTIFIER_REQUIRED''))
       else
         try_bind (json_iter idents) (\<lambda>elements.
         try_bind (identifiers_ok py_repr elements) (\<lambda>ok.
           if \<not> ok then Inr (Some (lit ''INVALID_USER_IDENTIFIER''))
           else if \<not> json_true idents then Inr None
           else
             try_bind (json_get row ''consent'' JNull) (\<lambda>consent.
             try_bind (consent_ok consent) (\<lambda>granted.
               Inr (if granted then None else Some (lit ''CONSENT_REQUIRED_FOR_USER_IDENTIFIERS''))))))))"

definition validate_row ::
  "ucd \<Rightarrow> (json \<Rightarrow> pystr) \<Rightarrow> pystr list \<Rightarrow> json \<Rightarrow> exn + pystr option" where
  "validate_row U py_repr known_actions row =
     (case row of
        JObj _ \<Rightarrow>
          try_bind (json_get row ''conversionAction'' JNull) (\<lambda>action.
          if \<not> matches_str (CONVERSION_ACTION U) action then Inr (Some (lit ''INVALID_CONVERSION_ACTION''))
          else if action_name (json_str py_repr action) \<notin> set known_actions
          then Inr (Some (lit ''CONVERSION_ACTION_NOT_FOUND''))
          else
            try_bind (json_get row ''conversionDateTime'' JNull) (\<lambda>date.
            if \<not> matches_str (DATE_TIME U) date then Inr (Some (lit ''INVALID_CONVERSION_DATE_TIME''))
            else validate_identifiers py_repr row))
      | _ \<Rightarrow> Inr (Some (lit ''INVALID_CONVERSION'')))"

section \<open>The upload handler\<close>

text \<open>\<open>injected.get(index) or validate\_row(row, known\_actions)\<close>; of two entries for a row the last counts.\<close>

definition injected_code :: "RowFailure list \<Rightarrow> nat \<Rightarrow> pystr option" where
  "injected_code fs i = map_option rf_error_code (find (\<lambda>f. rf_index f = i) (rev fs))"

definition row_verdict ::
  "ucd \<Rightarrow> (json \<Rightarrow> pystr) \<Rightarrow> pystr list \<Rightarrow> RowFailure list \<Rightarrow> nat \<Rightarrow> json \<Rightarrow> exn + pystr option" where
  "row_verdict U py_repr known fs i row =
     (if truthy (injected_code fs i) then Inr (injected_code fs i) else validate_row U py_repr known row)"

definition error_entry :: "nat \<Rightarrow> pystr \<Rightarrow> json" where
  "error_entry i code =
     JObj [(lit ''errorCode'', JObj [(lit ''conversionUploadError'', JStr code)]),
           (lit ''message'', JStr (lit ''row '' @ str_of_nat i @ lit '': '' @ code)),
           (lit ''location'', JObj [(lit ''fieldPathElements'', JArr
              [JObj [(lit ''fieldName'', JStr (lit ''conversions'')), (lit ''index'', JInt (int i))]])])]"

definition accepted_entry :: "json \<Rightarrow> exn + json" where
  "accepted_entry row =
     try_bind (json_get row ''gclid'' JNull) (\<lambda>gclid.
     try_bind (json_item row ''conversionAction'') (\<lambda>action.
     try_bind (json_item row ''conversionDateTime'') (\<lambda>date.
     try_bind (json_get row ''orderId'' JNull) (\<lambda>order.
       Inr (JObj [(lit ''gclid'', gclid), (lit ''conversionAction'', action),
                  (lit ''conversionDateTime'', date), (lit ''orderId'', order)])))))"

text \<open>The loop over the rows: the results and the errors so far, in the order of the rows.\<close>

fun upload_rows ::
  "ucd \<Rightarrow> (json \<Rightarrow> pystr) \<Rightarrow> RowFailure list \<Rightarrow> nat \<Rightarrow> json list \<Rightarrow>
   json list \<Rightarrow> json list \<Rightarrow> (mock_state, exn, json list \<times> json list) se" where
  "upload_rows U py_repr fs i [] results errors st = (Inr (results, errors), st)"
| "upload_rows U py_repr fs i (row # rows) results errors st =
     (case row_verdict U py_repr (ms_known_actions st) fs i row of
        Inl e \<Rightarrow> (Inl e, st)
      | Inr (Some code) \<Rightarrow>
          upload_rows U py_repr fs (Suc i) rows (results @ [JObj []]) (errors @ [error_entry i code]) st
      | Inr None \<Rightarrow>
          let st' = st\<lparr>ms_uploads := ms_uploads st @ [row]\<rparr> in
          (case accepted_entry row of
             Inl e \<Rightarrow> (Inl e, st')
           | Inr entry \<Rightarrow> upload_rows U py_repr fs (Suc i) rows (results @ [entry]) errors st'))"

definition error_body :: "nat \<Rightarrow> pystr \<Rightarrow> string \<Rightarrow> json" where
  "error_body code message status =
     JObj [(lit ''error'', JObj [(lit ''code'', JInt (int code)), (lit ''message'', JStr message),
                                 (lit ''status'', JStr (lit status))])]"

definition upload_response :: "nat \<Rightarrow> json list \<Rightarrow> json list \<Rightarrow> json" where
  "upload_response n results errors =
     JObj ((lit ''results'', JArr results) #
       (if errors = [] then []
        else [(lit ''partialFailureError'', JObj
                 [(lit ''code'', JInt 3),
                  (lit ''message'', JStr (str_of_nat (length errors) @ lit '' of '' @ str_of_nat n @
                                         lit '' conversions failed'')),
                  (lit ''details'', JArr
                     [JObj [(lit ''@type'', JStr (lit ''type.googleapis.com/google.ads.googleads.errors.GoogleAdsFailure'')),
                            (lit ''errors'', JArr errors)]])])]))"

text \<open>
  The status and the body (\<open>None\<close>: not JSON), and for how long the handler slept first. A request
  body that is not JSON raises in \<open>request.json()\<close>.
\<close>

definition mock_upload ::
  "ucd \<Rightarrow> (json \<Rightarrow> pystr) \<Rightarrow> json option \<Rightarrow> (mock_state, exn, nat \<times> json option) se" where
  "mock_upload U py_repr request st0 =
     (case take_control (st0\<lparr>ms_request_count := ms_request_count st0 + 1\<rparr>) of
        (control, st) \<Rightarrow>
          (case mode_http_code (ctl_mode control) of
             Some code \<Rightarrow>
               (Inr (code, Some (error_body code (lit ''injected '' @ str_of_nat code)
                  (if code = 401 then ''UNAUTHENTICATED''
                   else if code = 429 then ''RESOURCE_EXHAUSTED'' else ''INTERNAL''))), st)
           | None \<Rightarrow>
               if ctl_mode control = MODE_MALFORMED then (Inr (200, None), st)
               else
                 (case request of
                    None \<Rightarrow> (Inl ValueError, st)
                  | Some body \<Rightarrow>
                      (case json_get body ''conversions'' JNull of
                         Inl e \<Rightarrow> (Inl e, st)
                       | Inr (JArr rows) \<Rightarrow>
                           (case upload_rows U py_repr (ctl_fail_rows control) 0 rows [] [] st of
                              (Inl e, st') \<Rightarrow> (Inl e, st')
                            | (Inr (results, errors), st') \<Rightarrow>
                                (Inr (200, Some (upload_response (length rows) results errors)), st'))
                       | Inr _ \<Rightarrow>
                           (Inr (400, Some (error_body 400 (lit ''conversions must be a list'') ''INVALID_ARGUMENT'')), st)))))"

definition upload_delay :: "mock_state \<Rightarrow> rat" where
  "upload_delay st =
     (let control = fst (take_control st) in if ctl_mode control = MODE_TIMEOUT then ctl_timeout_seconds control else 0)"

text \<open>What a client that waits for \<open>timeout\<close> seconds sees; a timeout does not undo the request.\<close>

definition mock_post ::
  "ucd \<Rightarrow> (json \<Rightarrow> pystr) \<Rightarrow> rat \<Rightarrow> json \<Rightarrow> mock_state \<Rightarrow> http_result \<times> mock_state" where
  "mock_post U py_repr timeout body st =
     (case mock_upload U py_repr (Some body) st of
        (r, st') \<Rightarrow>
          (if upload_delay st > timeout then HttpTimeout
           else (case r of Inl e \<Rightarrow> HttpResponse 500 None | Inr (status, answer) \<Rightarrow> HttpResponse status answer), st'))"

section \<open>The other endpoints\<close>

definition mock_create_app :: "pystr list \<Rightarrow> Mode \<Rightarrow> mock_state" where
  "mock_create_app known_actions initial_mode =
     \<lparr>ms_known_actions = (if known_actions \<noteq> [] then known_actions else [lit ''closed_won'', lit ''qualified_lead'']),
      ms_control = new_control\<lparr>ctl_mode := initial_mode\<rparr>, ms_uploads = [], ms_request_count = 0\<rparr>"

text \<open>\<open>pystr.split(",")\<close>, and the modes by their names; pydantic refuses any other.\<close>

fun split_comma :: "pystr \<Rightarrow> pystr list" where
  "split_comma [] = [[]]"
| "split_comma (c # s) =
     (if c = 44 then [] # split_comma s
      else case split_comma s of [] \<Rightarrow> [[c]] | part # parts \<Rightarrow> (c # part) # parts)"

definition mode_names :: "(pystr \<times> Mode) list" where
  "mode_names =
     [(lit ''ok'', MODE_OK), (lit ''http_401'', HTTP_401), (lit ''http_429'', HTTP_429), (lit ''http_500'', HTTP_500),
      (lit ''http_503'', HTTP_503), (lit ''timeout'', MODE_TIMEOUT), (lit ''malformed'', MODE_MALFORMED)]"

definition mock_create_app_from_env :: "(pystr \<rightharpoonup> pystr) \<Rightarrow> exn + mock_state" where
  "mock_create_app_from_env env =
     (let actions = filter (\<lambda>a. a \<noteq> []) (split_comma
            (case env (lit ''MOCK_KNOWN_CONVERSION_ACTIONS'') of
               None \<Rightarrow> lit ''closed_won,qualified_lead'' | Some v \<Rightarrow> v));
          mode = (case env (lit ''MOCK_MODE'') of None \<Rightarrow> lit ''ok'' | Some v \<Rightarrow> v)
      in case map_of mode_names mode of
           None \<Rightarrow> Inl ValueError
         | Some m \<Rightarrow> Inr (mock_create_app actions m))"

definition get_control :: "mock_state \<Rightarrow> Control \<times> mock_state" where
  "get_control st = (ms_control st, st)"

definition set_control :: "Control \<Rightarrow> mock_state \<Rightarrow> Control \<times> mock_state" where
  "set_control control st = (control, st\<lparr>ms_control := control\<rparr>)"

definition reset_control :: "mock_state \<Rightarrow> Control \<times> mock_state" where
  "reset_control st = (new_control, st\<lparr>ms_control := new_control\<rparr>)"

definition list_uploads :: "mock_state \<Rightarrow> json \<times> mock_state" where
  "list_uploads st =
     (JObj [(lit ''count'', JInt (int (length (ms_uploads st)))), (lit ''uploads'', JArr (ms_uploads st)),
            (lit ''requests'', JInt (int (ms_request_count st)))], st)"

definition clear_uploads :: "mock_state \<Rightarrow> json \<times> mock_state" where
  "clear_uploads st = (JObj [(lit ''count'', JInt 0)], st\<lparr>ms_uploads := [], ms_request_count := 0\<rparr>)"

definition mock_healthz :: "mock_state \<Rightarrow> json \<times> mock_state" where
  "mock_healthz st = (JObj [(lit ''status'', JStr (lit ''ok''))], st)"

section \<open>The rows of the gateway are acceptable\<close>

lemma re_match_anchored_items [simp]:
  "re_match (anchored items) s \<longleftrightarrow> matches items s \<or> (\<exists>t. s = t @ [10] \<and> matches items t)"
  using re_match_anchored [of "anchored items" s] by (simp add: anchored_def)

lemma matches_HEX64: "matches [exactly 64 hex_lower] s \<longleftrightarrow> is_hex64 s"
  by (auto simp: matches_exactly is_hex64_def hex_lower_def is_digit_def)

text \<open>The mock's digest check: a digest, or a digest and a line feed, because of \<open>$\<close>.\<close>

lemma re_match_HEX64: "re_match HEX64 s \<longleftrightarrow> is_hex64 s \<or> (\<exists>t. s = t @ [10] \<and> is_hex64 t)"
  by (simp add: HEX64_def matches_HEX64)

lemma decimal_digits: "c \<in> set (digits_of_nat n) \<Longrightarrow> decimal U c"
  using digits_of_nat_digits by (simp add: decimal_def char_decimal_digit)

lemma length_digits_of_nat: "n < 10 ^ Suc k \<Longrightarrow> length (digits_of_nat n) \<le> Suc k"
proof (induction k arbitrary: n)
  case 0
  then show ?case by (subst digits_of_nat.simps) simp
next
  case (Suc k)
  have "n div 10 < 10 ^ Suc k" using Suc.prems by (simp add: div_less_iff_less_mult)
  from Suc.IH [OF this] show ?case by (subst digits_of_nat.simps) simp
qed

lemma pad_digits_matches:
  assumes "n < 10 ^ w" and "0 < w"
  shows "length (pad_digits w n) = w" and "c \<in> set (pad_digits w n) \<Longrightarrow> decimal U c"
proof -
  obtain k where w: "w = Suc k" using assms(2) by (cases w) simp_all
  have "length (digits_of_nat n) \<le> w" using length_digits_of_nat [of n k] assms(1) w by simp
  then show "length (pad_digits w n) = w" by (rule length_pad_digits)
  have "decimal U 48" by (simp add: decimal_def char_decimal_def is_digit_def)
  then show "c \<in> set (pad_digits w n) \<Longrightarrow> decimal U c"
    by (auto simp: pad_digits_def Let_def decimal_digits)
qed

text \<open>A timestamp that Python can hold, with an offset.\<close>

definition datetime_ok :: "datetime \<Rightarrow> bool" where
  "datetime_ok t \<longleftrightarrow> dt_year t \<le> 9999 \<and> dt_month t \<le> 12 \<and> dt_day t \<le> 31 \<and> dt_hour t < 24 \<and>
     dt_minute t < 60 \<and> dt_second t < 60 \<and>
     (case dt_utcoffset t of None \<Rightarrow> False | Some m \<Rightarrow> \<bar>m\<bar> < 1440)"

lemma date_time_accepted:
  assumes "datetime_ok t"
  shows "re_match (DATE_TIME U) (format_conversion_time t)"
proof -
  obtain m where m: "dt_utcoffset t = Some m" "\<bar>m\<bar> < 1440"
    using assms by (auto simp: datetime_ok_def split: option.splits)
  have off: "nat (\<bar>m\<bar> div 60) < 10 ^ 2" "nat (\<bar>m\<bar> mod 60) < 10 ^ 2"
    using m(2) by (simp_all add: nat_less_iff)
  have sign: "(if m < 0 then lit ''-'' else lit ''+'') = [if m < 0 then 45 else 43]" by (simp add: lit_def)
  have "dt_year t < 10 ^ 4" "dt_month t < 10 ^ 2" "dt_day t < 10 ^ 2" "dt_hour t < 10 ^ 2"
    "dt_minute t < 10 ^ 2" "dt_second t < 10 ^ 2" using assms by (simp_all add: datetime_ok_def)
  then have "matches (exactly 4 (decimal U) # literally ''-'' @ exactly 2 (decimal U) # literally ''-'' @
               exactly 2 (decimal U) # literally '' '' @ exactly 2 (decimal U) # literally '':'' @
               exactly 2 (decimal U) # literally '':'' @ exactly 2 (decimal U) #
               once (\<lambda>c. c = 43 \<or> c = 45) # exactly 2 (decimal U) # literally '':'' @
               [exactly 2 (decimal U)]) (format_conversion_time t)"
    unfolding format_conversion_time_def format_offset_def m(1) option.case sign append_Cons append_Nil
    using off by (intro matches_intros) (auto simp: pad_digits_matches(1) elim!: pad_digits_matches(2) [rotated 2])
  then show ?thesis by (simp add: DATE_TIME_def)
qed

lemma conversion_action_accepted:
  assumes "cid \<noteq> []" "\<forall>c \<in> set cid. decimal U c" "a \<noteq> []" "\<forall>c \<in> set a. word_char c"
  shows "re_match (CONVERSION_ACTION U) (conversion_action_resource cid a)"
    and "action_name (conversion_action_resource cid a) = a"
proof -
  have "matches (literally ''customers/'' @ at_least 1 (decimal U) # literally ''/conversionActions/'' @
      [at_least 1 word_char]) (lit ''customers/'' @ cid @ lit ''/conversionActions/'' @ a)"
    using assms by (intro matches_intros) (auto simp: Suc_le_eq)
  then show "re_match (CONVERSION_ACTION U) (conversion_action_resource cid a)"
    by (simp add: CONVERSION_ACTION_def conversion_action_resource_def)
  have slash: "\<forall>c \<in> set (rev a). c \<noteq> 47"
    using assms(4) by (auto simp: word_char_def ascii_alnum_def ascii_isalpha_def is_digit_def)
  have "rev (conversion_action_resource cid a) = rev a @ 47 # rev (lit ''customers/'' @ cid @ lit ''/conversionActions'')"
    by (simp add: conversion_action_resource_def lit_def)
  then show "action_name (conversion_action_resource cid a) = a"
    using slash by (simp add: action_name_def takeWhile_append)
qed

lemma digests_ok_JObj:
  "(\<And>k v. k \<in> set keys \<Longrightarrow> map_of kvs (lit k) = Some v \<Longrightarrow> \<exists>s. v = JStr s \<and> is_hex64 s) \<Longrightarrow>
   digests_ok py_repr (JObj kvs) keys = Inr True"
proof (induction keys)
  case (Cons k keys)
  have IH: "digests_ok py_repr (JObj kvs) keys = Inr True" by (rule Cons.IH) (use Cons.prems in auto)
  show ?case
  proof (cases "map_of kvs (lit k)")
    case None
    with IH show ?thesis by (simp add: map_of_eq_None_iff)
  next
    case (Some v)
    then obtain s where "v = JStr s" "is_hex64 s" using Cons.prems by auto
    moreover have "lit k \<in> fst ` set kvs" using Some by (metis map_of_SomeD fst_conv image_eqI)
    ultimately show ?thesis using Some IH by (simp add: re_match_HEX64)
  qed
qed simp

lemma identifiers_ok_append:
  "identifiers_ok py_repr xs = Inr True \<Longrightarrow> identifiers_ok py_repr (xs @ ys) = identifiers_ok py_repr ys"
  by (induction xs) (auto simp: try_bind_eq_Inr split: if_splits)

lemma identifiers_accepted:
  assumes "hashed_ok h"
  shows "identifiers_ok py_repr (user_identifiers (Some h)) = Inr True"
proof -
  note hex = assms [unfolded hashed_ok_def, simplified]
  have email: "identifier_ok py_repr (JObj (json_entry ''hashedEmail'' (hashed_email h))) = Inr True"
    unfolding identifier_ok_def json.case
    by (subst digests_ok_JObj) (use hex in \<open>auto split: if_splits\<close>)
  have phone: "identifier_ok py_repr (JObj (json_entry ''hashedPhoneNumber'' (hashed_phone h))) = Inr True"
    unfolding identifier_ok_def json.case
    by (subst digests_ok_JObj) (use hex in \<open>auto split: if_splits\<close>)
  have "digests_ok py_repr (JObj (address_entries h))
      [''hashedFirstName'', ''hashedLastName'', ''hashedStreetAddress''] = Inr True"
    by (rule digests_ok_JObj) (use hex in \<open>auto simp: address_entries_def truthy_def split: option.splits if_splits\<close>)
  then have address: "identifier_ok py_repr (JObj [(lit ''addressInfo'', JObj (address_entries h))]) = Inr True"
    by (simp add: identifier_ok_def)
  show ?thesis
    unfolding user_identifiers_def option.case Let_def
    by (auto simp: identifiers_ok_append email phone address)
qed

text \<open>
  The conversion row of an event with digests that are digests and with consent passes, when the
  customer id is a number and the conversion action a known identifier.
\<close>

lemma gateway_row_accepted:
  assumes "build_conversion e cid = Inr c"
    and "ev_conversion_action e = Some a" "ev_conversion_time e = Some t"
    and "cid \<noteq> []" "\<forall>c \<in> set cid. decimal U c" "a \<in> set known" "a \<noteq> []" "\<forall>c \<in> set a. word_char c"
    and "datetime_ok t" and "consented e"
    and "ev_hashed_identifiers e = Some h" "hashed_ok h" "truthy (ev_click_id e) \<or> has_match_key h"
  shows "validate_row U py_repr known c = Inr None"
proof -
  obtain kvs where c: "c = JObj kvs" using assms(1-3) by (auto simp: build_conversion_def Let_def)
  note fields = build_conversion_fields [OF assms(1), unfolded c json_field.simps]
  let ?ids = "user_identifiers (Some h)"
  have consent: "?ids \<noteq> [] \<Longrightarrow> map_of kvs (lit ''consent'') = Some (JObj
      [(lit ''adUserData'', JStr (lit ''GRANTED'')), (lit ''adPersonalization'', JStr (lit ''GRANTED''))])"
    using assms(1-3,10,11)
    by (auto simp: build_conversion_def Let_def c consented_def json_of_option_def map_add_def
        split: option.splits)
  have known: "?ids \<noteq> [] \<longleftrightarrow> has_match_key h" by (rule user_identifiers_match_key [OF assms(12)])
  have gclid: "json_true (case map_of kvs (lit ''gclid'') of None \<Rightarrow> JNull | Some v \<Rightarrow> v) \<longleftrightarrow> truthy (ev_click_id e)"
    using fields(4) by (auto elim: truthyE)
  have "validate_identifiers py_repr c = Inr None"
  proof (cases "?ids = []")
    case True
    then have "map_of kvs (lit ''userIdentifiers'') = None" using fields(5) assms(11) by simp
    moreover have "truthy (ev_click_id e)" using True known assms(13) by blast
    ultimately show ?thesis using gclid by (simp add: validate_identifiers_def c Let_def)
  next
    case False
    then have "map_of kvs (lit ''userIdentifiers'') = Some (JArr ?ids)" using fields(5) assms(11) by simp
    with False consent show ?thesis
      by (simp add: validate_identifiers_def c Let_def identifiers_accepted [OF assms(12)] consent_ok_def
          json_or_empty_def)
  qed
  then show ?thesis
    using fields(1,2) conversion_action_accepted [OF assms(4,5,7,8)] date_time_accepted [OF assms(9)] assms(2,3,6)
    by (simp add: validate_row_def c matches_str_def)
qed

section \<open>The verdicts reach the client\<close>

text \<open>What the loop over the rows adds: a result per row, an error per rejected row, the accepted rows.\<close>

fun result_entries :: "json list \<Rightarrow> pystr option list \<Rightarrow> json list" where
  "result_entries (row # rows) (v # vs) =
     (case (v, accepted_entry row) of (None, Inr entry) \<Rightarrow> entry | _ \<Rightarrow> JObj []) # result_entries rows vs"
| "result_entries _ _ = []"

fun error_entries :: "nat \<Rightarrow> pystr option list \<Rightarrow> json list" where
  "error_entries i [] = []"
| "error_entries i (v # vs) =
     (case v of None \<Rightarrow> [] | Some code \<Rightarrow> [error_entry i code]) @ error_entries (Suc i) vs"

definition accepted_rows :: "json list \<Rightarrow> pystr option list \<Rightarrow> json list" where
  "accepted_rows rows vs = map fst (filter (\<lambda>(row, v). v = None) (zip rows vs))"

lemma validate_row_accepted:
  assumes "validate_row U py_repr known row = Inr None"
  shows "\<exists>a t g d. accepted_entry row = Inr (JObj [(lit ''gclid'', g), (lit ''conversionAction'', a),
    (lit ''conversionDateTime'', t), (lit ''orderId'', d)])"
proof -
  obtain kvs where row: "row = JObj kvs" using assms by (cases row) (auto simp: validate_row_def)
  have "map_of kvs (lit ''conversionAction'') \<noteq> None" "map_of kvs (lit ''conversionDateTime'') \<noteq> None"
    using assms by (auto simp: validate_row_def row matches_str_def split: option.splits if_splits)
  then show ?thesis by (auto simp: accepted_entry_def row)
qed

lemma row_verdict_accepted: "row_verdict U py_repr known fs i row = Inr None \<Longrightarrow>
    validate_row U py_repr known row = Inr None"
  by (auto simp: row_verdict_def elim: truthyE split: if_splits)

lemma upload_rows_run:
  assumes "length vs = length rows"
    and "\<forall>j < length rows. row_verdict U py_repr (ms_known_actions st) fs (i + j) (rows ! j) = Inr (vs ! j)"
  shows "upload_rows U py_repr fs i rows results errors st =
    (Inr (results @ result_entries rows vs, errors @ error_entries i vs),
     st\<lparr>ms_uploads := ms_uploads st @ accepted_rows rows vs\<rparr>)"
  using assms
proof (induction rows arbitrary: vs i results errors st)
  case Nil
  then show ?case by (simp add: accepted_rows_def)
next
  case (Cons row rows)
  obtain v vs' where vs: "vs = v # vs'" "length vs' = length rows" using Cons.prems(1) by (cases vs) auto
  have first: "row_verdict U py_repr (ms_known_actions st) fs i row = Inr v"
    using Cons.prems(2) vs by force
  have rest: "row_verdict U py_repr (ms_known_actions st) fs (Suc i + j) (rows ! j) = Inr (vs' ! j)"
    if "j < length rows" for j
    using Cons.prems(2) [rule_format, of "Suc j"] that vs by simp
  show ?case
  proof (cases v)
    case None
    then obtain entry where "accepted_entry row = Inr entry"
      using validate_row_accepted [OF row_verdict_accepted] first by blast
    with None first vs show ?thesis
      using Cons.IH [of vs' "st\<lparr>ms_uploads := ms_uploads st @ [row]\<rparr>" "Suc i"] rest
      by (simp add: accepted_rows_def)
  next
    case (Some code)
    with first vs show ?thesis
      using Cons.IH [of vs' st "Suc i"] rest by (simp add: accepted_rows_def)
  qed
qed

lemma length_result_entries [simp]:
  "length vs = length rows \<Longrightarrow> length (result_entries rows vs) = length rows"
  by (induction rows vs rule: result_entries.induct) auto

lemma result_entries_true:
  assumes "length vs = length rows" and "j < length rows"
    and "\<forall>j < length rows. vs ! j = None \<longrightarrow> validate_row U py_repr known (rows ! j) = Inr None"
  shows "json_true (result_entries rows vs ! j) \<longleftrightarrow> vs ! j = None"
  using assms
proof (induction rows vs arbitrary: j rule: result_entries.induct)
  case (1 row rows v vs)
  show ?case
  proof (cases j)
    case 0
    then show ?thesis
      using validate_row_accepted [of U py_repr known row] "1.prems"(3) [rule_format, of 0]
      by (cases v) (auto split: sum.splits)
  next
    case (Suc k)
    have "json_true (result_entries rows vs ! k) \<longleftrightarrow> vs ! k = None"
      using "1.prems" Suc by (intro "1.IH") auto
    with Suc show ?thesis by simp
  qed
qed auto

lemma add_error_entry:
  "add_error py_repr (error_entry i code) acc =
     Inr (acc(int i \<mapsto> (code, lit ''row '' @ str_of_nat i @ lit '': '' @ code)))"
  by (simp add: add_error_def row_index_def error_entry_def json_or_empty_def)

lemma collect_error_entries:
  "\<exists>errors. try_fold (add_error py_repr) (error_entries i vs) acc = Inr errors \<and>
     (\<forall>j < length vs. map_option fst (errors (int (i + j))) =
        (case vs ! j of None \<Rightarrow> map_option fst (acc (int (i + j))) | Some code \<Rightarrow> Some code)) \<and>
     (\<forall>k < int i. errors k = acc k)"
proof (induction vs arbitrary: i acc)
  case (Cons v vs)
  define acc' where "acc' = (case v of None \<Rightarrow> acc
    | Some code \<Rightarrow> acc(int i \<mapsto> (code, lit ''row '' @ str_of_nat i @ lit '': '' @ code)))"
  have step: "try_fold (add_error py_repr) (error_entries i (v # vs)) acc =
      try_fold (add_error py_repr) (error_entries (Suc i) vs) acc'"
    by (cases v) (simp_all add: acc'_def add_error_entry)
  obtain errors where IH: "try_fold (add_error py_repr) (error_entries (Suc i) vs) acc' = Inr errors"
      "\<forall>j < length vs. map_option fst (errors (int (Suc i + j))) =
        (case vs ! j of None \<Rightarrow> map_option fst (acc' (int (Suc i + j))) | Some code \<Rightarrow> Some code)"
      "\<forall>k < int (Suc i). errors k = acc' k"
    using Cons.IH by blast
  have other: "k \<noteq> int i \<Longrightarrow> acc' k = acc k" for k by (simp add: acc'_def split: option.split)
  have "map_option fst (errors (int (i + j))) =
      (case (v # vs) ! j of None \<Rightarrow> map_option fst (acc (int (i + j))) | Some code \<Rightarrow> Some code)"
    if "j < length (v # vs)" for j
  proof (cases j)
    case 0
    then have "errors (int (i + j)) = acc' (int i)" using IH(3) by simp
    with 0 show ?thesis by (simp add: acc'_def split: option.split)
  next
    case (Suc k)
    then show ?thesis
      using IH(2) [rule_format, of k] that other [of "int (Suc i + k)"] by (cases "vs ! k") simp_all
  qed
  moreover have "\<forall>k < int i. errors k = acc k" using IH(3) other by simp
  moreover have "try_fold (add_error py_repr) (error_entries i (v # vs)) acc = Inr errors"
    using step IH(1) by (rule trans)
  ultimately show ?case by (intro exI [of _ errors] conjI allI impI) blast+
qed simp

lemma collect_upload_response:
  "\<exists>errors. collect_errors py_repr (upload_response n results (error_entries 0 vs)) = Inr errors \<and>
     (\<forall>j < length vs. map_option fst (errors (int j)) = vs ! j)"
proof (cases "error_entries 0 vs = []")
  case True
  have "\<forall>j < length vs. vs ! j = None"
  proof -
    have "error_entries i ws = [] \<Longrightarrow> \<forall>w \<in> set ws. w = None" for i ws
      by (induction ws arbitrary: i) (auto split: option.splits)
    with True show ?thesis by (meson nth_mem)
  qed
  with True show ?thesis
    by (intro exI [of _ Map.empty]) (simp add: collect_errors_def upload_response_def json_or_empty_def)
next
  case False
  obtain errors where fold: "try_fold (add_error py_repr) (error_entries 0 vs) Map.empty = Inr errors"
      and codes: "\<forall>j < length vs. map_option fst (errors (int (0 + j))) =
        (case vs ! j of None \<Rightarrow> map_option fst (Map.empty (int (0 + j)) :: (pystr \<times> pystr) option)
         | Some code \<Rightarrow> Some code)"
    using collect_error_entries [of py_repr 0 vs Map.empty] by blast
  have "map_option fst (errors (int j)) = vs ! j" if "j < length vs" for j
    using codes [rule_format, OF that] by (cases "vs ! j") simp_all
  moreover have "collect_errors py_repr (upload_response n results (error_entries 0 vs)) =
      try_fold (add_error py_repr) (error_entries 0 vs) Map.empty"
  proof -
    have none: "try_fold f [] = Inr" for f :: "json \<Rightarrow> errors_by_index \<Rightarrow> exn + errors_by_index"
      by (rule ext) simp
    have right: "try_bind m Inr = m" for m :: "exn + errors_by_index"
      by (cases m) simp_all
    show ?thesis using False
      by (simp add: collect_errors_def upload_response_def json_or_empty_def none right)
  qed
  ultimately show ?thesis using fold by metis
qed

lemma parse_upload_response:
  assumes "length vs = length rows"
    and "\<forall>j < length rows. vs ! j = None \<longrightarrow> validate_row U py_repr known (rows ! j) = Inr None"
  shows "\<exists>result. parse_batch_response py_repr
      (upload_response (length rows) (result_entries rows vs) (error_entries 0 vs)) (length rows) = Inr result \<and>
    length (br_rows result) = length rows \<and>
    (\<forall>j < length rows. (rr_ok (br_rows result ! j) \<longleftrightarrow> vs ! j = None) \<and> rr_error_code (br_rows result ! j) = vs ! j)"
proof -
  let ?body = "upload_response (length rows) (result_entries rows vs) (error_entries 0 vs)"
  obtain errors where err: "collect_errors py_repr ?body = Inr errors"
      "\<forall>j < length vs. map_option fst (errors (int j)) = vs ! j"
    using collect_upload_response by blast
  have item: "json_item ?body ''results'' = Inr (JArr (result_entries rows vs))"
    by (simp add: upload_response_def)
  let ?r = "\<lparr>br_rows = enumerate_rows errors 0 (result_entries rows vs)\<rparr>"
  have parse: "parse_batch_response py_repr ?body (length rows) = Inr ?r"
    using assms(1) item err(1) by (simp add: parse_batch_response_Inr)
  have "rr_ok (br_rows ?r ! j) = (vs ! j = None) \<and> rr_error_code (br_rows ?r ! j) = vs ! j"
    if j: "j < length rows" for j
  proof -
    have t: "json_true (result_entries rows vs ! j) \<longleftrightarrow> vs ! j = None"
      using assms(1) j assms(2) by (rule result_entries_true)
    have e: "map_option fst (errors (int j)) = vs ! j" using err(2) assms(1) j by simp
    have "br_rows ?r ! j = row_result errors j (result_entries rows vs ! j)"
      using assms(1) j by (simp add: enumerate_rows_nth)
    with t e show ?thesis by (auto simp: row_result_def split: option.splits prod.splits)
  qed
  with parse assms(1) show ?thesis by (intro exI [of _ ?r]) simp
qed

lemma mock_upload_run:
  assumes "take_control (st\<lparr>ms_request_count := ms_request_count st + 1\<rparr>) = (control, st1)"
    and "ctl_mode control \<in> {MODE_OK, MODE_TIMEOUT}" and "length vs = length rows"
    and "\<forall>j < length rows.
      row_verdict U py_repr (ms_known_actions st) (ctl_fail_rows control) j (rows ! j) = Inr (vs ! j)"
  shows "mock_upload U py_repr (Some (upload_request rows)) st =
    (Inr (200, Some (upload_response (length rows) (result_entries rows vs) (error_entries 0 vs))),
     st1\<lparr>ms_uploads := ms_uploads st @ accepted_rows rows vs\<rparr>)"
proof -
  have st1: "ms_known_actions st1 = ms_known_actions st" "ms_uploads st1 = ms_uploads st"
    using assms(1) by (auto simp: take_control_def Let_def split: option.splits if_splits)
  have mode: "mode_http_code (ctl_mode control) = None" "ctl_mode control \<noteq> MODE_MALFORMED"
    using assms(2) by auto
  have "upload_rows U py_repr (ctl_fail_rows control) 0 rows [] [] st1 =
      (Inr (result_entries rows vs, error_entries 0 vs), st1\<lparr>ms_uploads := ms_uploads st1 @ accepted_rows rows vs\<rparr>)"
    using upload_rows_run [OF assms(3), of U py_repr st1 _ 0 "[]" "[]"] assms(4) st1(1) by simp
  then show ?thesis using assms(1) by (simp add: mock_upload_def mode upload_request_def st1(2))
qed

text \<open>The response of the platform through the client's parser: each row's verdict comes back.\<close>

lemma mock_round_trip:
  assumes "take_control (st\<lparr>ms_request_count := ms_request_count st + 1\<rparr>) = (control, st1)"
    and "ctl_mode control = MODE_OK" and "0 \<le> timeout" and "length vs = length rows"
    and "\<forall>j < length rows.
      row_verdict U py_repr (ms_known_actions st) (ctl_fail_rows control) j (rows ! j) = Inr (vs ! j)"
  obtains result where "http_upload py_repr (mock_post U py_repr timeout) rows st =
      (Inr result, st1\<lparr>ms_uploads := ms_uploads st @ accepted_rows rows vs\<rparr>)"
    and "length (br_rows result) = length rows"
    and "\<forall>j < length rows. (rr_ok (br_rows result ! j) \<longleftrightarrow> vs ! j = None) \<and>
      rr_error_code (br_rows result ! j) = vs ! j"
proof -
  let ?body = "upload_response (length rows) (result_entries rows vs) (error_entries 0 vs)"
  have run: "mock_upload U py_repr (Some (upload_request rows)) st =
      (Inr (200, Some ?body), st1\<lparr>ms_uploads := ms_uploads st @ accepted_rows rows vs\<rparr>)"
    using assms by (intro mock_upload_run) simp_all
  have "upload_delay st = 0"
    using assms(1,2) by (auto simp: upload_delay_def take_control_def Let_def new_control_def
        split: option.splits if_splits)
  then have post: "mock_post U py_repr timeout (upload_request rows) st =
      (HttpResponse 200 (Some ?body), st1\<lparr>ms_uploads := ms_uploads st @ accepted_rows rows vs\<rparr>)"
    using run assms(3) by (simp add: mock_post_def)
  have "\<forall>j < length rows. vs ! j = None \<longrightarrow> validate_row U py_repr (ms_known_actions st) (rows ! j) = Inr None"
    using assms(5) row_verdict_accepted by metis
  from parse_upload_response [OF assms(4) this] obtain result where
      "parse_batch_response py_repr ?body (length rows) = Inr result" "length (br_rows result) = length rows"
      "\<forall>j < length rows. (rr_ok (br_rows result ! j) \<longleftrightarrow> vs ! j = None) \<and> rr_error_code (br_rows result ! j) = vs ! j"
    by blast
  with post show ?thesis by (intro that [of result]) (simp_all add: http_upload_def)
qed

section \<open>Failure injection wears off\<close>

text \<open>The controls that the next requests see.\<close>

fun controls :: "nat \<Rightarrow> mock_state \<Rightarrow> Control list" where
  "controls 0 st = []"
| "controls (Suc n) st = (case take_control st of (control, st') \<Rightarrow> control # controls n st')"

lemma controls_reset: "ms_control st = new_control \<Longrightarrow> controls n st = replicate n new_control"
  by (induction n) (simp_all add: take_control_def new_control_def Let_def)

lemma controls_expire:
  assumes "ctl_times (ms_control st) = Some (int k)" and "k < n"
  shows "map ctl_mode (controls n st) = replicate k (ctl_mode (ms_control st)) @ replicate (n - k) MODE_OK \<and>
    map ctl_fail_rows (controls n st) = replicate k (ctl_fail_rows (ms_control st)) @ replicate (n - k) []"
  using assms
proof (induction n arbitrary: k st)
  case (Suc n)
  show ?case
  proof (cases k)
    case 0
    then have "take_control st = (new_control, st\<lparr>ms_control := new_control\<rparr>)"
      using Suc.prems(1) by (simp add: take_control_def Let_def)
    then show ?thesis using controls_reset [of "st\<lparr>ms_control := new_control\<rparr>" n] 0
      by (simp add: new_control_def)
  next
    case (Suc m)
    let ?st = "st\<lparr>ms_control := (ms_control st)\<lparr>ctl_times := Some (int m)\<rparr>\<rparr>"
    have "take_control st = (ms_control st, ?st)"
      using Suc.prems(1) Suc by (simp add: take_control_def Let_def)
    then show ?thesis using Suc.IH [of ?st m] Suc.prems(2) Suc by simp
  qed
qed simp

end
