(* ===== verification/Cycles.thy ===== *)
theory Cycles
  imports Progress MockAds
begin

text \<open>
  What one cycle of the uploader achieves. In a reachable state a claim commits and hands out every
  selected row with its conversion; the batcher returns a batch when it is full or due; and a batch
  that the platform answers is applied row by row and leaves the rest of the process alone.
\<close>

lemma reachable_distinct: "reachable U P w \<Longrightarrow> distinct_ids (w_db w)"
  using complete_reachable by (auto simp: complete_rows_def)

section \<open>Claiming commits\<close>

lemma store_fits_attempt:
  "store_fits db \<Longrightarrow> store_fits (update_event x (\<lambda>e. e\<lparr>ev_attempt_count := n e, ev_last_attempt_at := a\<rparr>) db)"
  by (rule store_fits_update) simp_all

lemma claim_row_fits:
  assumes "store_fits db" and "find_event db (ev_event_id e) = Some e" and "claim_row now e db = (r, db')"
  shows "store_fits db'"
proof (cases "ev_status e = UPLOADING")
  case True
  let ?db = "db\<lparr>transitions := transitions db @
    [\<lparr>tr_event_id = ev_event_id e, tr_from_status = Some UPLOADING, tr_to_status = UPLOADING,
      tr_reason = Some (lit ''reclaimed_stale''), tr_occurred_at = now\<rparr>]\<rparr>"
  have "length (ev_event_id e) \<le> 255" using store_fits_find [OF assms(1,2)] by (simp add: event_fits_def)
  then have "store_fits ?db" using assms(1) by (simp add: store_fits_def transition_fits_def)
  moreover have "db' = update_event (ev_event_id e)
      (\<lambda>e. e\<lparr>ev_attempt_count := ev_attempt_count e + 1, ev_last_attempt_at := Some now\<rparr>) ?db"
    using assms(3) True by (simp add: claim_row_def add_transition_def set_event_def se_bind_def)
  ultimately show ?thesis using store_fits_attempt by simp
next
  case False
  show ?thesis
  proof (cases "UPLOADING \<in> ALLOWED_TRANSITIONS (ev_status e)")
    case True
    have "store_fits (moved e UPLOADING None now db)"
      using assms(1,2) by (intro store_fits_moved) simp_all
    with True False assms(2,3) show ?thesis
      by (auto simp: claim_row_def transition_ok set_event_def se_bind_def intro: store_fits_attempt)
  next
    case no: False
    with False assms show ?thesis
      by (auto simp: claim_row_def transition_run se_bind_def)
  qed
qed

lemma claim_rows_fit:
  assumes "\<forall>e \<in> set es. find_event db (ev_event_id e) = Some e"
    and "distinct (map ev_event_id es)" and "store_fits db"
    and "se_foreach es (claim_row now) db = (Inr (), db')"
  shows "store_fits db'"
  using assms
proof (induction es arbitrary: db)
  case (Cons e es)
  from Cons.prems(4) obtain db1 where run: "claim_row now e db = (Inr (), db1)"
      "se_foreach es (claim_row now) db1 = (Inr (), db')"
    by (auto simp: se_bind_def split: prod.splits sum.splits)
  have "find_event db1 (ev_event_id a) = Some a" if "a \<in> set es" for a
  proof -
    have "ev_event_id a \<noteq> ev_event_id e" using that Cons.prems(2) by (metis distinct.simps(2) imageI list.set_map list.simps(9))
    from preservesD [OF other_claim_row [OF this] _ run(1)] Cons.prems(1) that show ?thesis by auto
  qed
  moreover have "store_fits db1" using Cons.prems(1,3) run(1) by (auto intro: claim_row_fits)
  ultimately show ?case using Cons.IH [OF _ _ _ run(2)] Cons.prems(2) by simp
qed simp

text \<open>What the uploader holds of a row that it has claimed.\<close>

definition row_conversion :: "pystr \<Rightarrow> event \<Rightarrow> json" where
  "row_conversion customer e = (case build_conversion e customer of Inr c \<Rightarrow> c | Inl _ \<Rightarrow> JNull)"

definition claimed_item :: "pystr \<Rightarrow> event \<Rightarrow> Claimed" where
  "claimed_item customer e =
     \<lparr>cl_event_id = ev_event_id e, cl_attempt_count = ev_attempt_count e,
      cl_conversion = row_conversion customer e\<rparr>"

lemma claimed_row_simps [simp]:
  "ev_event_id (claimed_row now e) = ev_event_id e"
  "ev_status (claimed_row now e) = UPLOADING"
  "ev_attempt_count (claimed_row now e) = ev_attempt_count e + 1"
  "ev_conversion_action (claimed_row now e) = ev_conversion_action e"
  "ev_conversion_time (claimed_row now e) = ev_conversion_time e"
  "ev_hashed_identifiers (claimed_row now e) = ev_hashed_identifiers e"
  "ev_click_id (claimed_row now e) = ev_click_id e"
  by (simp_all add: claimed_row_def)

lemma claim_items:
  assumes "\<forall>e \<in> set es. find_event (w_db w) (ev_event_id e) = Some e \<and> ev_attempt_count e \<le> up_max_row_attempts cfg \<and>
    ev_conversion_action e \<noteq> None \<and> ev_conversion_time e \<noteq> None"
  shows "se_fold (map ev_event_id es) (claim_item cfg now) acc w =
    (Inr (acc @ map (claimed_item (up_customer_id cfg)) es), w)"
  using assms
proof (induction es arbitrary: acc)
  case (Cons e es)
  then obtain c where c: "build_conversion e (up_customer_id cfg) = Inr c"
    using build_conversion_ok by (metis list.set_intros(1) not_None_eq)
  have "claim_item cfg now (ev_event_id e) acc w = (Inr (acc @ [claimed_item (up_customer_id cfg) e]), w)"
    using Cons.prems c on_db_the_event [of w "ev_event_id e" e]
    by (simp add: claim_item_def se_bind_def claimed_item_def row_conversion_def)
  with Cons show ?case by (simp add: se_bind_def)
qed simp

text \<open>The first half of a claim: the selected rows are UPLOADING, and have what a conversion needs.\<close>

lemma claim_selects:
  assumes "reachable U P w"
    and "es = select_for_upload (w_db w) locked now limit (up_row_retry_after cfg) (up_stale_after cfg)"
  obtains db' where "on_db (claim_for_upload locked now limit (up_row_retry_after cfg) (up_stale_after cfg)) w =
      (Inr (map ev_event_id es), w\<lparr>w_db := db'\<rparr>)"
    and "\<forall>x. find_event db' x = (if x \<in> ev_event_id ` set es then map_option (claimed_row now) (find_event (w_db w) x)
       else find_event (w_db w) x)"
    and "store_fits db'" and "distinct (map ev_event_id es)"
    and "\<forall>e \<in> set es. find_event (w_db w) (ev_event_id e) = Some e \<and>
      find_event db' (ev_event_id e) = Some (claimed_row now e) \<and>
      ev_conversion_action e \<noteq> None \<and> ev_conversion_time e \<noteq> None"
proof -
  note complete = complete_reachable [OF assms(1)] and fit = fits_reachable [OF assms(1)]
  have dist: "distinct (map ev_event_id (events (w_db w)))"
    using complete by (simp add: complete_rows_def distinct_ids_def)
  have rows: "find_event (w_db w) (ev_event_id e) = Some e"
      "claimable now (up_row_retry_after cfg) (up_stale_after cfg) e" if "e \<in> set es" for e
    using that select_for_upload_rows(1) [OF dist] select_for_upload_claimable unfolding assms(2) by blast+
  have ids: "distinct (map ev_event_id es)"
    unfolding assms(2) using dist by (rule select_for_upload_rows(2))
  obtain db' where fe: "se_foreach es (claim_row now) (w_db w) = (Inr (), db')"
      and found: "\<forall>x. find_event db' x = (if x \<in> ev_event_id ` set es
         then map_option (claimed_row now) (find_event (w_db w) x) else find_event (w_db w) x)"
    using claim_rows [OF _ ids, of "w_db w" now] rows by blast
  have fits: "store_fits db'" using claim_rows_fit [OF _ ids fit fe] rows(1) by blast
  have run: "on_db (claim_for_upload locked now limit (up_row_retry_after cfg) (up_stale_after cfg)) w =
      (Inr (map ev_event_id es), w\<lparr>w_db := db'\<rparr>)"
    using fe by (intro on_db_run) (simp add: claim_for_upload_def se_bind_def assms(2) [symmetric])
  have "ev_conversion_action e \<noteq> None \<and> ev_conversion_time e \<noteq> None" if e: "e \<in> set es" for e
  proof -
    have "row_complete e" using complete rows(1) [OF e] by (auto simp: complete_rows_def)
    moreover have "ev_status e \<noteq> REJECTED" using rows(2) [OF e] by (auto simp: claimable_def)
    ultimately show ?thesis by (simp add: row_complete_def)
  qed
  then show ?thesis using run found fits ids rows(1) by (intro that [of db']) simp_all
qed

text \<open>A claim of rows that are all within the attempt ceiling.\<close>

lemma claim_run:
  assumes "reachable U P w"
    and "es = select_for_upload (w_db w) locked now limit (up_row_retry_after cfg) (up_stale_after cfg)"
    and "\<forall>e \<in> set es. ev_attempt_count e < up_max_row_attempts cfg"
  obtains db' where "claim cfg locked now limit w =
      (Inr (map (\<lambda>e. claimed_item (up_customer_id cfg) (claimed_row now e)) es), w\<lparr>w_db := db'\<rparr>)"
    and "\<And>x. find_event db' x = (if x \<in> ev_event_id ` set es then map_option (claimed_row now) (find_event (w_db w) x)
       else find_event (w_db w) x)"
    and "reachable U P (w\<lparr>w_db := db'\<rparr>)"
proof -
  obtain db' where sel: "on_db (claim_for_upload locked now limit (up_row_retry_after cfg) (up_stale_after cfg)) w =
        (Inr (map ev_event_id es), w\<lparr>w_db := db'\<rparr>)"
      and found: "\<forall>x. find_event db' x = (if x \<in> ev_event_id ` set es
         then map_option (claimed_row now) (find_event (w_db w) x) else find_event (w_db w) x)"
      and fits: "store_fits db'"
      and rows: "\<forall>e \<in> set es. find_event (w_db w) (ev_event_id e) = Some e \<and>
         find_event db' (ev_event_id e) = Some (claimed_row now e) \<and>
         ev_conversion_action e \<noteq> None \<and> ev_conversion_time e \<noteq> None"
    by (rule claim_selects [OF assms(1,2)])
  let ?w = "w\<lparr>w_db := db'\<rparr>" and ?rows = "map (claimed_row now) es"
  have "\<forall>e \<in> set ?rows. find_event (w_db ?w) (ev_event_id e) = Some e \<and>
      ev_attempt_count e \<le> up_max_row_attempts cfg \<and>
      ev_conversion_action e \<noteq> None \<and> ev_conversion_time e \<noteq> None"
    using rows assms(3) by (simp add: Suc_le_eq)
  note items = claim_items [OF this, of now "[]"]
  have "map ev_event_id ?rows = map ev_event_id es" by simp
  with items have "se_fold (map ev_event_id es) (claim_item cfg now) [] ?w =
      (Inr (map (claimed_item (up_customer_id cfg)) ?rows), ?w)" by (simp only: append_Nil)
  then have run: "claim cfg locked now limit w =
      (Inr (map (\<lambda>e. claimed_item (up_customer_id cfg) (claimed_row now e)) es), ?w)"
    unfolding claim_def using sel fits by (intro transaction_commit) (simp_all add: se_bind_def comp_def)
  show ?thesis
    using found by (intro that [OF run _ reachable_step [OF assms(1) step.claim [OF run]]]) blast
qed

section \<open>Filling the batcher\<close>

lemma batcher_add_run:
  assumes "batcher_ok b"
  shows "Suc (length (b_items b)) < b_max_size b \<Longrightarrow>
      batcher_add x now b = (None, b\<lparr>b_items := b_items b @ [x],
        b_oldest_at := Some (case b_oldest_at b of None \<Rightarrow> now | Some t \<Rightarrow> t)\<rparr>)"
    and "Suc (length (b_items b)) = b_max_size b \<Longrightarrow>
      batcher_add x now b = (Some (b_items b @ [x]), b\<lparr>b_items := [], b_oldest_at := None\<rparr>)"
  using assms
  by (auto simp: batcher_add_def batcher_flush_def batcher_ok_def Let_def split: option.splits)

text \<open>Items that do not fill the batcher wait; as many as there is room for leave as a batch.\<close>

lemma add_all_waiting:
  assumes "batcher_ok (u_batcher w)" and "length (b_items (u_batcher w)) + length items < b_max_size (u_batcher w)"
    and "items \<noteq> []"
  shows "se_fold items (add_claimed now) batch w = (Inr batch, w\<lparr>u_batcher := (u_batcher w)
    \<lparr>b_items := b_items (u_batcher w) @ items,
     b_oldest_at := Some (case b_oldest_at (u_batcher w) of None \<Rightarrow> now | Some t \<Rightarrow> t)\<rparr>\<rparr>)"
  using assms
proof (induction items arbitrary: w)
  case (Cons x items)
  let ?b = "u_batcher w"
  let ?b1 = "?b\<lparr>b_items := b_items ?b @ [x], b_oldest_at := Some (case b_oldest_at ?b of None \<Rightarrow> now | Some t \<Rightarrow> t)\<rparr>"
  have "batcher_add x now ?b = (None, ?b1)"
    using Cons.prems(1,2) by (intro batcher_add_run(1)) simp_all
  then have one: "add_claimed now x batch w = (Inr batch, w\<lparr>u_batcher := ?b1\<rparr>)"
    by (simp add: add_claimed_def on_batcher_def se_bind_def)
  show ?case
  proof (cases "items = []")
    case True
    with one show ?thesis by (simp add: se_bind_def)
  next
    case False
    have "batcher_ok ?b1" using Cons.prems(1,2) by (simp add: batcher_ok_def)
    with Cons.IH [of "w\<lparr>u_batcher := ?b1\<rparr>"] Cons.prems(2) False one show ?thesis
      by (simp add: se_bind_def)
  qed
qed simp

lemma add_all_full:
  assumes "batcher_ok (u_batcher w)" and "length (b_items (u_batcher w)) + length items = b_max_size (u_batcher w)"
    and "items \<noteq> []"
  shows "se_fold items (add_claimed now) None w = (Inr (Some (b_items (u_batcher w) @ items)),
    w\<lparr>u_batcher := (u_batcher w)\<lparr>b_items := [], b_oldest_at := None\<rparr>\<rparr>)"
  using assms
proof (induction items arbitrary: w)
  case (Cons x items)
  let ?b = "u_batcher w"
  show ?case
  proof (cases "items = []")
    case True
    have "batcher_add x now ?b = (Some (b_items ?b @ [x]), ?b\<lparr>b_items := [], b_oldest_at := None\<rparr>)"
      using Cons.prems True by (intro batcher_add_run(2)) simp_all
    with True show ?thesis by (simp add: add_claimed_def on_batcher_def se_bind_def)
  next
    case False
    let ?b1 = "?b\<lparr>b_items := b_items ?b @ [x], b_oldest_at := Some (case b_oldest_at ?b of None \<Rightarrow> now | Some t \<Rightarrow> t)\<rparr>"
    have room: "Suc (length (b_items ?b)) < b_max_size ?b"
      using Cons.prems(2) False by (cases items) simp_all
    have "batcher_add x now ?b = (None, ?b1)"
      using Cons.prems(1) room by (rule batcher_add_run(1))
    then have one: "add_claimed now x None w = (Inr None, w\<lparr>u_batcher := ?b1\<rparr>)"
      by (simp add: add_claimed_def on_batcher_def se_bind_def)
    have "batcher_ok ?b1" using Cons.prems(1) room by (simp add: batcher_ok_def)
    with Cons.IH [of "w\<lparr>u_batcher := ?b1\<rparr>"] Cons.prems(2) False one show ?thesis
      by (simp add: se_bind_def)
  qed
qed simp

section \<open>Uploading a batch\<close>

text \<open>The parts of the process that the database and the metrics do not touch.\<close>

definition outside :: "('q, 'p) uploader_world \<Rightarrow> 'q \<times> Claimed batcher \<times> 'p" where
  "outside w = (w_queue w, u_batcher w, u_platform w)"

lemma outside_simps [simp]:
  "outside (w\<lparr>w_db := db\<rparr>) = outside w"
  "outside (w\<lparr>w_metrics := m\<rparr>) = outside w"
  "outside (w\<lparr>w_observed := n\<rparr>) = outside w"
  by (simp_all add: outside_def)

named_theorems outside_intro

lemma outside_on_db [outside_intro]: "preserves (\<lambda>w. outside w = x) (on_db m)"
  by (auto simp: preserves_def on_db_def split: prod.splits)

lemma outside_inc [outside_intro]: "preserves (\<lambda>w. outside w = x) (inc s)"
  by (simp add: preserves_def)

lemma outside_observe [outside_intro]: "preserves (\<lambda>w. outside w = x) (observe s v)"
  by (simp add: preserves_def)

lemma outside_set_gauge [outside_intro]: "preserves (\<lambda>w. outside w = x) (set_gauge s n)"
  by (simp add: preserves_def)

lemma outside_transaction [outside_intro]:
  "preserves (\<lambda>w. outside w = x) m \<Longrightarrow> preserves (\<lambda>w. outside w = x) (transaction m)"
  by (auto simp: preserves_def transaction_def split: prod.splits sum.splits)

lemma outside_dead_letter: "preserves (\<lambda>w. outside w = x) (dead_letter eid fc reason code msg payload now)"
  unfolding dead_letter_def by (intro preserves_intro outside_intro)

lemma outside_apply_rows: "preserves (\<lambda>w. outside w = x) (apply_rows now loaded cs rs report)"
  by (induction now loaded cs rs report rule: apply_rows.induct)
    (auto simp: apply_row_def dead_letter_def Let_def intro!: preserves_intro outside_intro)

lemma outside_apply_result: "preserves (\<lambda>w. outside w = x) (apply_result batch result now)"
  unfolding apply_result_def load_events_def
  by (intro preserves_intro outside_intro outside_apply_rows)

lemma outside_refresh: "preserves (\<lambda>w. outside w = x) refresh_dlq_depth"
  unfolding refresh_dlq_depth_def by (intro preserves_intro outside_intro)

text \<open>Applying a result changes no attempt count.\<close>

lemma attempts_primitives:
  "preserves (\<lambda>db. map_option ev_attempt_count (find_event db x) = n) (transition y to reason now)"
  "preserves (\<lambda>db. map_option ev_attempt_count (find_event db x) = n) (the_event y)"
  "preserves (\<lambda>db. map_option ev_attempt_count (find_event db x) = n) flush"
  "preserves (\<lambda>db. map_option ev_attempt_count (find_event db x) = n) (se_modify (add_dead_letter d))"
  by (auto simp: preserves_def transition_run the_event_run flush_run find_event_moved option.map_comp comp_def
      split: option.splits if_splits)

lemma attempts_apply_result:
  "preserves (\<lambda>w. map_option ev_attempt_count (find_event (w_db w) x) = n) (apply_result batch result now)"
proof -
  have "preserves (\<lambda>w. map_option ev_attempt_count (find_event (w_db w) x) = n) (apply_rows now loaded cs rs report)"
    for loaded cs rs report
    by (induction now loaded cs rs report rule: apply_rows.induct)
      (auto simp: apply_row_def dead_letter_def Let_def
        intro!: preserves_intro preserves_on_db [where I = "\<lambda>db. map_option ev_attempt_count (find_event db x) = n"]
          attempts_primitives)
  then show ?thesis
    unfolding apply_result_def load_events_def
    by (intro preserves_in_transaction [where I = "\<lambda>db. map_option ev_attempt_count (find_event db x) = n"]
        preserves_intro)
qed

lemma timed_upload_run:
  assumes "upload cs (u_platform w) = (Inr result, p)"
  shows "\<exists>v. timed_upload monotonic upload cs w = (Inr result, w\<lparr>u_platform := p,
    w_observed := (w_observed w)(upload_latency_seconds (lit ''ok'') :=
      w_observed w (upload_latency_seconds (lit ''ok'')) @ [v])\<rparr>)"
  using assms
  by (intro exI [of _ "monotonic p - monotonic (u_platform w)"])
    (simp add: timed_upload_def observe_latency_def se_bind_def se_try_def on_platform_def)

text \<open>A batch of claimed rows for which the client returned a result, at whatever attempt, is settled row by row.\<close>

lemma upload_batch_settled:
  assumes "call_with_retry tenacity (up_policy cfg) (timed_upload (ck_monotonic clock) upload (map cl_conversion batch))
      (on_retry (ck_now clock) (map cl_event_id batch)) w = (Inr result, w1)"
    and "reachable U P w1" and "length (br_rows result) = length batch" and "distinct (map cl_event_id batch)"
    and "\<forall>c \<in> set batch. map_option ev_status (find_event (w_db w1) (cl_event_id c)) = Some UPLOADING"
    and "codes_fit (br_rows result)"
  obtains w' where "upload_batch tenacity upload cfg clock batch now w =
      (Inr (fold count_row (br_rows result) no_report), w')"
    and "\<forall>i < length batch. map_option ev_status (find_event (w_db w') (cl_event_id (batch ! i))) =
      Some (row_target (br_rows result ! i))"
    and "\<forall>y. y \<notin> cl_event_id ` set batch \<longrightarrow> find_event (w_db w') y = find_event (w_db w1) y"
    and "outside w' = outside w1" and "reachable U P w'"
    and "\<forall>x. map_option ev_attempt_count (find_event (w_db w') x) = map_option ev_attempt_count (find_event (w_db w1) x)"
proof -
  obtain w' where run: "apply_result batch result now w1 = (Inr (fold count_row (br_rows result) no_report), w')"
      and moved: "\<forall>i < length batch. map_option ev_status (find_event (w_db w') (cl_event_id (batch ! i))) =
        Some (row_target (br_rows result ! i))"
      and others: "\<forall>y. y \<notin> cl_event_id ` set batch \<longrightarrow> find_event (w_db w') y = find_event (w_db w1) y"
    using apply_result_run [OF assms(3,4,5) fits_reachable [OF assms(2)] assms(6)] by blast
  have out: "outside w' = outside w1"
    using preservesD [OF outside_apply_result _ run] by blast
  have count: "\<forall>x. map_option ev_attempt_count (find_event (w_db w') x) = map_option ev_attempt_count (find_event (w_db w1) x)"
    using preservesD [OF attempts_apply_result refl run] by (rule allI)
  have "upload_batch tenacity upload cfg clock batch now w = (Inr (fold count_row (br_rows result) no_report), w')"
    using run assms(1) by (simp add: upload_batch_def)
  from that [OF this moved others out reachable_step [OF assms(2) step.result [OF run]] count] show ?thesis .
qed

lemma upload_batch_run:
  assumes "retry_contract tenacity" and "reachable U P w"
    and "upload (map cl_conversion batch) (u_platform w) = (Inr result, p)"
    and "length (br_rows result) = length batch" and "distinct (map cl_event_id batch)"
    and "\<forall>c \<in> set batch. map_option ev_status (find_event (w_db w) (cl_event_id c)) = Some UPLOADING"
    and "codes_fit (br_rows result)"
  obtains w' where "upload_batch tenacity upload cfg clock batch now w =
      (Inr (fold count_row (br_rows result) no_report), w')"
    and "\<forall>i < length batch. map_option ev_status (find_event (w_db w') (cl_event_id (batch ! i))) =
      Some (row_target (br_rows result ! i))"
    and "\<forall>y. y \<notin> cl_event_id ` set batch \<longrightarrow> find_event (w_db w') y = find_event (w_db w) y"
    and "outside w' = (w_queue w, u_batcher w, p)" and "reachable U P w'"
proof -
  obtain v where timed: "timed_upload (ck_monotonic clock) upload (map cl_conversion batch) w =
      (Inr result, w\<lparr>u_platform := p, w_observed := (w_observed w)(upload_latency_seconds (lit ''ok'') :=
         w_observed w (upload_latency_seconds (lit ''ok'')) @ [v])\<rparr>)" (is "_ = (_, ?w1)")
    using timed_upload_run [where upload = upload and w = w, OF assms(3)] by blast
  note call = call_with_retry_returned [where fn = "timed_upload (ck_monotonic clock) upload (map cl_conversion batch)"
      and s = w, OF assms(1) timed]
  have up: "\<forall>c \<in> set batch. map_option ev_status (find_event (w_db ?w1) (cl_event_id c)) = Some UPLOADING"
    using assms(6) by simp
  have reach: "reachable U P ?w1" by (rule reachable_step [OF assms(2) step.elsewhere]) simp
  obtain w' where "upload_batch tenacity upload cfg clock batch now w =
        (Inr (fold count_row (br_rows result) no_report), w')"
      "\<forall>i < length batch. map_option ev_status (find_event (w_db w') (cl_event_id (batch ! i))) =
        Some (row_target (br_rows result ! i))"
      "\<forall>y. y \<notin> cl_event_id ` set batch \<longrightarrow> find_event (w_db w') y = find_event (w_db ?w1) y"
      "outside w' = outside ?w1" "reachable U P w'"
    by (rule upload_batch_settled [OF call reach assms(4,5) up assms(7)])
  then show ?thesis by (intro that) (simp_all add: outside_def)
qed

section \<open>What the uploader does to the ledger\<close>

text \<open>
  The uploader works on the ledger by four primitives: it changes a row in place, appends a line to the
  log that does not queue an event, adds a dead letter, or does nothing. What these keep, every run of
  the uploader keeps, whatever the platform answers.
\<close>

locale row_work =
  fixes I :: "store \<Rightarrow> bool"
  assumes work_row: "I db \<Longrightarrow> (\<And>e. ev_event_id (f e) = ev_event_id e) \<Longrightarrow> I (update_event x f db)"
    and work_log: "I db \<Longrightarrow> tr_to_status t \<noteq> QUEUED \<Longrightarrow> I (db\<lparr>transitions := transitions db @ [t]\<rparr>)"
    and work_letter: "I db \<Longrightarrow> I (add_dead_letter d db)"
begin

lemma work_transition: "to \<noteq> QUEUED \<Longrightarrow> preserves I (transition x to reason now)"
proof -
  assume to: "to \<noteq> QUEUED"
  have "I (moved e to reason now db)" if "I db" for e db
    using work_log [OF work_row [OF that], where t = "\<lparr>tr_event_id = ev_event_id e,
        tr_from_status = Some (ev_status e), tr_to_status = to, tr_reason = reason, tr_occurred_at = now\<rparr>"] to
    by (simp add: moved_def)
  then show ?thesis by (auto simp: preserves_def transition_run split: option.splits if_splits)
qed

lemma work_set_event: "(\<And>e. ev_event_id (f e) = ev_event_id e) \<Longrightarrow> preserves I (set_event x f)"
  by (simp add: preserves_def set_event_def work_row)

lemma work_add_transition: "to \<noteq> QUEUED \<Longrightarrow> preserves I (add_transition x from_status to reason now)"
  by (simp add: preserves_def add_transition_def work_log)

lemma work_add_letter: "preserves I (se_modify (add_dead_letter d))"
  by (simp add: preserves_def work_letter)

lemma work_reads: "preserves I (the_event x)" "preserves I flush"
  by (auto simp: preserves_def the_event_run flush_run split: option.split)

lemmas work = work_transition work_set_event work_add_transition work_add_letter work_reads preserves_session

lemma work_claim_for_upload: "preserves I (claim_for_upload locked now limit ra sa)"
  unfolding claim_for_upload_def claim_row_def by (intro preserves_intro work) simp_all

lemma work_dead_letter: "preserves (\<lambda>w. I (w_db w)) (dead_letter eid fc reason code msg payload now)"
  unfolding dead_letter_def by (intro preserves_intro work) simp_all

lemma work_apply_row: "preserves (\<lambda>w. I (w_db w)) (apply_row now loaded c r report)"
  unfolding apply_row_def Let_def by (intro preserves_intro work work_dead_letter) simp_all

lemma work_apply_rows: "preserves (\<lambda>w. I (w_db w)) (apply_rows now loaded cs rs report)"
  by (induction now loaded cs rs report rule: apply_rows.induct)
    (auto intro!: preserves_intro work_apply_row)

lemma work_apply_result: "preserves (\<lambda>w. I (w_db w)) (apply_result batch result now)"
  unfolding apply_result_def load_events_def by (intro preserves_intro work work_apply_rows)

lemma work_dead_letter_all: "preserves (\<lambda>w. I (w_db w)) (dead_letter_all batch fc reason code msg now)"
  unfolding dead_letter_all_def load_events_def by (intro preserves_intro work work_dead_letter)

lemma work_on_retry: "preserves (\<lambda>w. I (w_db w)) (on_retry clock ids e k)"
  unfolding on_retry_def load_events_def record_retry_attempt_def by (intro preserves_intro work) simp_all

lemma work_upload_batch:
  assumes "retry_contract tenacity"
  shows "preserves (\<lambda>w. I (w_db w)) (upload_batch tenacity upload cfg clock batch now)"
proof (rule preservesI)
  fix w :: "('a, 'b) uploader_world" and r w'
  let ?m = "call_with_retry tenacity (up_policy cfg)
    (timed_upload (ck_monotonic clock) upload (map cl_conversion batch))
    (on_retry (ck_now clock) (map cl_event_id batch))"
  assume inv: "I (w_db w)" and run: "upload_batch tenacity upload cfg clock batch now w = (r, w')"
  obtain r1 w1 where call: "?m w = (r1, w1)" by fastforce
  have "preserves (\<lambda>w. I (w_db w)) ?m"
    by (intro preserves_call_with_retry [OF assms] preserves_timed_upload work_on_retry)
  then have inv1: "I (w_db w1)" using inv call by (rule preservesD)
  show "I (w_db w')"
    using run call inv1 preservesD [OF work_apply_result inv1] preservesD [OF work_dead_letter_all inv1]
    by (auto simp: upload_batch_def split: sum.splits exn.splits)
qed

lemma work_claim: "preserves (\<lambda>w. I (w_db w)) (claim cfg locked now limit)"
  unfolding claim_def claim_item_def
  by (intro preserves_intro work work_claim_for_upload work_dead_letter)

lemma work_run_once:
  assumes "retry_contract tenacity"
  shows "preserves (\<lambda>w. I (w_db w)) (run_once tenacity upload cfg locked clock now)"
  unfolding run_once_def collect_batch_def add_claimed_def refresh_dlq_depth_def
  by (intro preserves_intro work_claim work_upload_batch [OF assms])

lemma work_uploader_run:
  assumes "retry_contract tenacity"
  shows "preserves (\<lambda>w. I (w_db w)) (uploader_run tenacity upload cfg cycles)"
  by (induction cycles) (auto split: prod.split intro!: preserves_intro work_run_once [OF assms])

end

section \<open>The rows of the ledger are found by their ids\<close>

text \<open>Claims and results change rows in place: the list of ids stays.\<close>

definition event_ids :: "store \<Rightarrow> pystr list" where
  "event_ids db = map ev_event_id (events db)"

interpretation ids: row_work "\<lambda>db. event_ids db = xs" for xs
  by unfold_locales (simp_all add: event_ids_def event_ids_update)

lemma events_by_id:
  assumes "distinct_ids db"
  shows "events db = map (\<lambda>x. the (find_event db x)) (event_ids db)"
proof -
  have "find_event db (ev_event_id e) = Some e" if "e \<in> set (events db)" for e
    using that assms by (auto simp: distinct_ids_def intro: find_event_distinct)
  then show ?thesis by (simp add: event_ids_def map_idI)
qed

text \<open>The rows that wait for an upload, oldest first.\<close>

definition backlog :: "store \<Rightarrow> event list" where
  "backlog db = sort_key ev_received_at (filter (\<lambda>e. ev_status e = PROCESSED) (events db))"

text \<open>No row is on its way: neither claimed nor waiting for another attempt.\<close>

definition quiet :: "store \<Rightarrow> bool" where
  "quiet db \<longleftrightarrow> (\<forall>e \<in> set (events db). ev_status e \<notin> {UPLOADING, FAILED_RETRYABLE})"

lemma quiet_found:
  assumes "distinct_ids db"
  shows "quiet db \<longleftrightarrow> (\<forall>x e. find_event db x = Some e \<longrightarrow> ev_status e \<notin> {UPLOADING, FAILED_RETRYABLE})"
  using assms unfolding quiet_def distinct_ids_def by (metis find_event_distinct find_event_in)

lemma set_backlog: "set (backlog db) = {e \<in> set (events db). ev_status e = PROCESSED}"
  by (auto simp: backlog_def)

lemma distinct_backlog: "distinct_ids db \<Longrightarrow> distinct (map ev_event_id (backlog db))"
  using distinct_map_filter_key [of ev_event_id "events db" "\<lambda>e. ev_status e = PROCESSED"]
  by (simp add: backlog_def distinct_ids_def distinct_map)

lemma backlog_found:
  "distinct_ids db \<Longrightarrow> e \<in> set (backlog db) \<Longrightarrow> find_event db (ev_event_id e) = Some e \<and> ev_status e = PROCESSED"
  by (auto simp: set_backlog distinct_ids_def intro: find_event_distinct)

lemma select_quiet:
  assumes "quiet db" and "\<forall>e \<in> set (backlog db). ev_event_id e \<notin> locked"
  shows "select_for_upload db locked now limit ra sa = take limit (backlog db)"
proof -
  have "(claimable now ra sa e \<and> ev_event_id e \<notin> locked) = (ev_status e = PROCESSED)"
    if "e \<in> set (events db)" for e
    using that assms by (auto simp: claimable_def quiet_def set_backlog)
  then have "filter (\<lambda>e. claimable now ra sa e \<and> ev_event_id e \<notin> locked) (events db) =
      filter (\<lambda>e. ev_status e = PROCESSED) (events db)"
    by (rule filter_cong [OF refl])
  then show ?thesis by (simp add: select_for_upload_def backlog_def)
qed

lemma drop_distinct_filter:
  "distinct (map f xs) \<Longrightarrow> filter (\<lambda>x. f x \<notin> f ` set (take n xs)) xs = drop n xs"
proof (induction xs arbitrary: n)
  case (Cons x xs)
  show ?case
  proof (cases n)
    case (Suc m)
    have "(f y \<notin> f ` set (take n (x # xs))) = (f y \<notin> f ` set (take m xs))" if "y \<in> set xs" for y
      using that Cons.prems Suc by (auto simp: image_iff)
    then have "filter (\<lambda>y. f y \<notin> f ` set (take n (x # xs))) xs = filter (\<lambda>y. f y \<notin> f ` set (take m xs)) xs"
      by (rule filter_cong [OF refl])
    then show ?thesis using Cons Suc by simp
  qed (simp add: filter_True)
qed simp

text \<open>When the rows of \<open>xs\<close> have left PROCESSED and the others are as they were.\<close>

lemma backlog_after:
  assumes "distinct_ids db" and "distinct_ids db'" and "event_ids db' = event_ids db"
    and "\<forall>y. y \<notin> S \<longrightarrow> find_event db' y = find_event db y"
    and "\<forall>y \<in> S. map_option ev_status (find_event db' y) \<noteq> Some PROCESSED"
  shows "backlog db' = filter (\<lambda>e. ev_event_id e \<notin> S) (backlog db)"
proof -
  have found: "find_event db (ev_event_id e) = Some e" if "e \<in> set (events db)" for e
    using that assms(1) by (auto simp: distinct_ids_def intro: find_event_distinct)
  have new: "events db' = map (\<lambda>e. the (find_event db' (ev_event_id e))) (events db)"
    using events_by_id [OF assms(2), unfolded assms(3)] by (simp add: event_ids_def comp_def)
  have row: "ev_event_id e \<in> S \<Longrightarrow> ev_status (the (find_event db' (ev_event_id e))) \<noteq> PROCESSED"
      "ev_event_id e \<notin> S \<Longrightarrow> the (find_event db' (ev_event_id e)) = e" if e: "e \<in> set (events db)" for e
  proof -
    have "ev_event_id e \<in> set (event_ids db')" using e assms(3) by (simp add: event_ids_def)
    then obtain e' where "find_event db' (ev_event_id e) = Some e'"
      using assms(2) unfolding event_ids_def distinct_ids_def by (metis find_event_distinct imageE list.set_map)
    with assms(5) show "ev_event_id e \<in> S \<Longrightarrow> ev_status (the (find_event db' (ev_event_id e))) \<noteq> PROCESSED"
      by auto
    show "ev_event_id e \<notin> S \<Longrightarrow> the (find_event db' (ev_event_id e)) = e"
      using assms(4) found [OF e] by simp
  qed
  have "filter (\<lambda>e. ev_status e = PROCESSED) (map (\<lambda>e. the (find_event db' (ev_event_id e))) es) =
      filter (\<lambda>e. ev_event_id e \<notin> S) (filter (\<lambda>e. ev_status e = PROCESSED) es)"
    if "set es \<subseteq> set (events db)" for es
    using that row by (induction es) auto
  from this [OF order.refl] show ?thesis by (simp add: backlog_def new filter_sort)
qed

section \<open>A client that accepts everything\<close>

text \<open>
  The contract of a platform in order: in a state that is \<open>serving\<close>, a batch of rows that are all
  \<open>good\<close> is accepted, every row of it, and recorded in \<open>received\<close>.
\<close>

locale accepting_client = upload_client upload
  for upload :: "json list \<Rightarrow> ('p, exn, BatchResult) se" +
  fixes serving :: "'p \<Rightarrow> bool" and good :: "json \<Rightarrow> bool" and received :: "'p \<Rightarrow> json list"
  assumes upload_accepts: "serving p \<Longrightarrow> \<forall>c \<in> set cs. good c \<Longrightarrow>
    \<exists>result p'. upload cs p = (Inr result, p') \<and> serving p' \<and> received p' = received p @ cs \<and>
      (\<forall>r \<in> set (br_rows result). rr_ok r \<and> rr_error_code r = None)"
begin

lemma accepted_batch:
  assumes "serving p" and "\<forall>c \<in> set cs. good c"
  obtains result p' where "upload cs p = (Inr result, p')" and "serving p'" and "received p' = received p @ cs"
    and "length (br_rows result) = length cs" and "codes_fit (br_rows result)"
    and "\<forall>i < length cs. row_target (br_rows result ! i) = UPLOADED"
proof -
  obtain result p' where up: "upload cs p = (Inr result, p')" "serving p'" "received p' = received p @ cs"
      "\<forall>r \<in> set (br_rows result). rr_ok r \<and> rr_error_code r = None"
    using upload_accepts [OF assms] by blast
  moreover have len: "length (br_rows result) = length cs" using up(1) by (rule upload_length)
  moreover have "codes_fit (br_rows result)"
    using up(4) by (auto simp: codes_fit_def row_code_def)
  moreover have "\<forall>i < length cs. row_target (br_rows result ! i) = UPLOADED"
    using up(4) len by (simp add: row_target_def)
  ultimately show ?thesis by (intro that [of result p'])
qed

text \<open>A batch of claimed rows is uploaded, and the gauge is refreshed.\<close>

lemma batch_uploaded:
  assumes "retry_contract tenacity" and "reachable U P w" and "serving (u_platform w)"
    and "\<forall>c \<in> set batch. good (cl_conversion c)" and "distinct (map cl_event_id batch)"
    and "\<forall>c \<in> set batch. map_option ev_status (find_event (w_db w) (cl_event_id c)) = Some UPLOADING"
    and "batch \<noteq> []"
  obtains report w' where "(case Some batch of None \<Rightarrow> se_return no_report
      | Some b \<Rightarrow> if b = [] then se_return no_report
          else se_bind (upload_batch tenacity upload cfg clock b now) (\<lambda>report.
            se_bind refresh_dlq_depth (\<lambda>_. se_return report))) w = (Inr report, w')"
    and "reachable U P w'" and "event_ids (w_db w') = event_ids (w_db w)"
    and "\<forall>c \<in> set batch. map_option ev_status (find_event (w_db w') (cl_event_id c)) = Some UPLOADED"
    and "\<forall>y. y \<notin> cl_event_id ` set batch \<longrightarrow> find_event (w_db w') y = find_event (w_db w) y"
    and "w_queue w' = w_queue w" and "u_batcher w' = u_batcher w" and "serving (u_platform w')"
    and "received (u_platform w') = received (u_platform w) @ map cl_conversion batch"
proof -
  obtain result p where up: "upload (map cl_conversion batch) (u_platform w) = (Inr result, p)" "serving p"
      "received p = received (u_platform w) @ map cl_conversion batch"
      "length (br_rows result) = length batch" "codes_fit (br_rows result)"
      "\<forall>i < length batch. row_target (br_rows result ! i) = UPLOADED"
    using accepted_batch [OF assms(3), of "map cl_conversion batch"] assms(4) by auto
  obtain w1 where run: "upload_batch tenacity upload cfg clock batch now w =
        (Inr (fold count_row (br_rows result) no_report), w1)"
      and moved: "\<forall>i < length batch. map_option ev_status (find_event (w_db w1) (cl_event_id (batch ! i))) =
        Some (row_target (br_rows result ! i))"
      and others: "\<forall>y. y \<notin> cl_event_id ` set batch \<longrightarrow> find_event (w_db w1) y = find_event (w_db w) y"
      and out: "outside w1 = (w_queue w, u_batcher w, p)" and reach: "reachable U P w1"
    using upload_batch_run [where upload = upload and w = w, OF assms(1,2) up(1,4) assms(5,6) up(5)] by blast
  obtain w' where refresh: "refresh_dlq_depth w1 = (Inr (), w')" "w_db w' = w_db w1"
    using refresh_dlq_depth_run by blast
  have out': "outside w' = outside w1" using preservesD [OF outside_refresh _ refresh(1)] by blast
  have "event_ids (w_db w1) = event_ids (w_db w)"
    using ids.work_upload_batch [OF assms(1)] run by (blast dest: preservesD)
  moreover have "reachable U P w'" using refresh(2) by (intro reachable_step [OF reach step.elsewhere])
  moreover have "\<forall>c \<in> set batch. map_option ev_status (find_event (w_db w') (cl_event_id c)) = Some UPLOADED"
    using moved up(6) refresh(2) by (metis in_set_conv_nth)
  ultimately show ?thesis
    using assms(7) run refresh others out out' up(2,3)
    by (intro that [of "fold count_row (br_rows result) no_report" w']) (auto simp: se_bind_def outside_def)
qed

end

end
