(* ===== verification/Resend.thy ===== *)
theory Resend
  imports Cycles
begin

text \<open>
  What is sent twice is the same. The uploader may send a row again: after a crash, a timeout or a
  retryable error. A row keeps its digests from the moment it leaves QUEUED until something puts it
  back there (\<open>requeued\<close>, a replay by an operator), and the columns of ingest never change, so the
  conversion row of a re-sent event is the one that the platform already knows by its \<open>orderId\<close>.
\<close>

section \<open>Digests are kept outside the queue\<close>

text \<open>The audit log since \<open>db0\<close> has a line that moves the event to QUEUED.\<close>

definition requeued :: "store \<Rightarrow> store \<Rightarrow> pystr \<Rightarrow> bool" where
  "requeued db0 db x \<longleftrightarrow>
     (\<exists>t \<in> set (drop (length (transitions db0)) (transitions db)). tr_event_id t = x \<and> tr_to_status t = QUEUED)"

definition same_digests :: "event \<Rightarrow> event \<Rightarrow> bool" where
  "same_digests e0 e \<longleftrightarrow> ev_hashed_identifiers e = ev_hashed_identifiers e0 \<and> ev_status e \<noteq> QUEUED"

definition digests_kept :: "store \<Rightarrow> store \<Rightarrow> bool" where
  "digests_kept db0 db \<longleftrightarrow>
     (\<forall>x e0. find_event db0 x = Some e0 \<and> ev_status e0 \<noteq> QUEUED \<longrightarrow>
        requeued db0 db x \<or> (\<exists>e. find_event db x = Some e \<and> same_digests e0 e))"

definition resendable :: "store \<Rightarrow> store \<Rightarrow> bool" where
  "resendable db0 db \<longleftrightarrow> distinct_ids db \<and> evolves db0 db \<and> digests_kept db0 db"

lemma resendable_refl: "distinct_ids db \<Longrightarrow> resendable db db"
  by (simp add: resendable_def evolves_refl digests_kept_def same_digests_def)

lemma requeued_append:
  assumes "evolves db0 db" and "transitions db' = transitions db @ ts"
  shows "requeued db0 db' x \<longleftrightarrow>
    requeued db0 db x \<or> (\<exists>t \<in> set ts. tr_event_id t = x \<and> tr_to_status t = QUEUED)"
proof -
  have "length (transitions db0) \<le> length (transitions db)"
    using assms(1) prefix_length_le unfolding evolves_def by blast
  then show ?thesis by (auto simp: requeued_def assms(2))
qed

text \<open>A change keeps the digests if it does so for the rows that are not queued, or says so in the log.\<close>

lemma digests_kept_step:
  assumes "resendable db0 db" and "transitions db' = transitions db @ ts"
    and "\<And>x e. find_event db x = Some e \<Longrightarrow> ev_status e \<noteq> QUEUED \<Longrightarrow>
      (\<exists>t \<in> set ts. tr_event_id t = x \<and> tr_to_status t = QUEUED) \<or>
      (\<exists>e'. find_event db' x = Some e' \<and> same_digests e e')"
  shows "digests_kept db0 db'"
  unfolding digests_kept_def
proof (intro allI impI)
  fix x e0 assume e0: "find_event db0 x = Some e0 \<and> ev_status e0 \<noteq> QUEUED"
  have req: "requeued db0 db' x \<longleftrightarrow>
      requeued db0 db x \<or> (\<exists>t \<in> set ts. tr_event_id t = x \<and> tr_to_status t = QUEUED)"
    using assms(1,2) by (intro requeued_append) (simp add: resendable_def)
  show "requeued db0 db' x \<or> (\<exists>e. find_event db' x = Some e \<and> same_digests e0 e)"
  proof (cases "requeued db0 db x")
    case False
    then obtain e where "find_event db x = Some e" "same_digests e0 e"
      using assms(1) e0 unfolding resendable_def digests_kept_def by blast
    then show ?thesis using req assms(3) [of x e] by (auto simp: same_digests_def)
  qed (simp add: req)
qed

lemma digests_kept_update:
  assumes "resendable db0 db" and "\<And>e. ev_event_id (f e) = ev_event_id e" and "\<And>e. same_digests e e \<Longrightarrow> same_digests e (f e)"
  shows "digests_kept db0 (update_event eid f db)"
proof (rule digests_kept_step [OF assms(1)])
  show "transitions (update_event eid f db) = transitions db @ []" by simp
  show "(\<exists>t \<in> set []. tr_event_id t = x \<and> tr_to_status t = QUEUED) \<or>
      (\<exists>e'. find_event (update_event eid f db) x = Some e' \<and> same_digests e e')"
    if "find_event db x = Some e" "ev_status e \<noteq> QUEUED" for x e
    using that assms(2,3) by (auto simp: find_event_update same_digests_def)
qed

lemma digests_kept_moved:
  assumes "resendable db0 db" and "find_event db (ev_event_id e) = Some e"
  shows "digests_kept db0 (moved e to reason now db)"
proof (rule digests_kept_step [OF assms(1)])
  show "transitions (moved e to reason now db) = transitions db @
      [\<lparr>tr_event_id = ev_event_id e, tr_from_status = Some (ev_status e), tr_to_status = to,
        tr_reason = reason, tr_occurred_at = now\<rparr>]"
    by (simp add: moved_def)
qed (use assms(2) in \<open>auto simp: find_event_moved same_digests_def\<close>)

lemma digests_kept_created:
  assumes "resendable db0 db" and "find_event db (ev_event_id row) = None"
  shows "digests_kept db0 (created row now db)"
proof (rule digests_kept_step [OF assms(1)])
  show "transitions (created row now db) = transitions db @
      [\<lparr>tr_event_id = ev_event_id row, tr_from_status = None, tr_to_status = RECEIVED,
        tr_reason = None, tr_occurred_at = now\<rparr>]"
    by (simp add: created_def)
qed (use assms(2) in \<open>auto simp: find_event_created same_digests_def\<close>)

lemma digests_kept_logged:
  "resendable db0 db \<Longrightarrow> digests_kept db0 (db\<lparr>transitions := transitions db @ ts\<rparr>)"
  by (erule digests_kept_step) (auto simp: same_digests_def)

lemma digests_kept_letters [simp]:
  "digests_kept db0 (add_dead_letter d db) \<longleftrightarrow> digests_kept db0 db"
  "digests_kept db0 (update_dead_letter i g db) \<longleftrightarrow> digests_kept db0 db"
  by (simp_all add: digests_kept_def requeued_def)

text \<open>The worker stores digests on a queued row only, so it touches no kept one.\<close>

lemma digests_kept_processed:
  assumes "resendable db0 db" and "find_event db (ev_event_id e) = Some e" and "ev_status e = QUEUED"
  shows "digests_kept db0 (moved e PROCESSED None now
    (update_event (ev_event_id e) (\<lambda>e. e\<lparr>ev_hashed_identifiers := Some h\<rparr>) db))"
proof (rule digests_kept_step [OF assms(1)])
  show "transitions (moved e PROCESSED None now
      (update_event (ev_event_id e) (\<lambda>e. e\<lparr>ev_hashed_identifiers := Some h\<rparr>) db)) = transitions db @
      [\<lparr>tr_event_id = ev_event_id e, tr_from_status = Some (ev_status e), tr_to_status = PROCESSED,
        tr_reason = None, tr_occurred_at = now\<rparr>]"
    by (simp add: moved_def)
qed (use assms(2,3) in \<open>auto simp: find_event_moved find_event_update same_digests_def\<close>)

interpretation resent: ledger_steps "resendable db0" "\<lambda>_ _. True" for db0
proof (unfold_locales, goal_cases)
  case (1 db)
  then show ?case by (simp add: resendable_def distinct_ids_def)
next
  case (2 db e to reason now)
  then show ?case
    using history.inv_move [of db db0] digests_kept_moved by (simp add: resendable_def)
next
  case (3 db1 db t eid n a)
  then show ?case
    using history.inv_attempt [of db1 db0 db t eid n a] digests_kept_update by (simp add: resendable_def same_digests_def)
next
  case (4 db eid c)
  then show ?case
    using history.inv_correlation [of db db0] digests_kept_update by (simp add: resendable_def same_digests_def)
next
  case (5 db eid e now)
  then show ?case
    using history.inv_reclaim [of db db0] digests_kept_logged by (simp add: resendable_def)
next
  case (6 db e h now)
  then show ?case
    using history.inv_processed [of db db0] digests_kept_processed by (simp add: resendable_def)
next
  case (7 db e d reason now)
  then show ?case
    using history.inv_dead_letter [of db db0] digests_kept_moved by (simp add: resendable_def)
next
  case (8 db e i d now reason)
  then show ?case
    using history.inv_replay [of db db0] digests_kept_moved by (simp add: resendable_def)
next
  case (9 db row now)
  then show ?case
    using history.inv_create [of db db0] digests_kept_created by (simp add: resendable_def)
qed

interpretation resent: worker_invariant "resendable db0" "\<lambda>_ _. True" for db0
  by unfold_locales simp_all

section \<open>So the conversion row is the same\<close>

lemma facts_columns:
  assumes "facts e = facts e0"
  shows "ev_event_id e = ev_event_id e0" and "ev_conversion_action e = ev_conversion_action e0"
    and "ev_conversion_time e = ev_conversion_time e0" and "ev_conversion_value e = ev_conversion_value e0"
    and "ev_currency e = ev_currency e0" and "ev_click_id e = ev_click_id e0"
    and "ev_consent_ad_user_data e = ev_consent_ad_user_data e0"
    and "ev_consent_ad_personalization e = ev_consent_ad_personalization e0"
  using assms by (cases e; cases e0, simp add: facts_def)+

lemma build_conversion_facts:
  assumes "facts e = facts e0" and "ev_hashed_identifiers e = ev_hashed_identifiers e0"
  shows "build_conversion e customer = build_conversion e0 customer"
  unfolding build_conversion_def facts_columns [OF assms(1)] assms(2) by (rule refl)

lemma conversion_kept:
  assumes "resendable db0 db" and "find_event db0 x = Some e0" and "ev_status e0 \<noteq> QUEUED"
    and "\<not> requeued db0 db x"
  obtains e where "find_event db x = Some e" and "ev_status e \<noteq> QUEUED"
    and "build_conversion e customer = build_conversion e0 customer"
proof -
  obtain e where e: "find_event db x = Some e" "same_digests e0 e"
    using assms unfolding resendable_def digests_kept_def by blast
  obtain e' where "find_event db x = Some e'" "later_row e0 e'"
    using assms(1,2) unfolding resendable_def evolves_def by blast
  with e(1) have "facts e = facts e0" by (simp add: later_row_def)
  from build_conversion_facts [OF this] e(2) [unfolded same_digests_def]
  have "build_conversion e customer = build_conversion e0 customer" by simp
  with e show ?thesis by (intro that [of e]) (simp_all add: same_digests_def)
qed

section \<open>The uploader queues nothing\<close>

text \<open>Since \<open>db0\<close>, no line of the log has queued an event; so none was queued by a run of the uploader.\<close>

definition none_requeued :: "store \<Rightarrow> store \<Rightarrow> bool" where
  "none_requeued db0 db \<longleftrightarrow>
     length (transitions db0) \<le> length (transitions db) \<and>
     (\<forall>t \<in> set (drop (length (transitions db0)) (transitions db)). tr_to_status t \<noteq> QUEUED)"

interpretation unqueued: row_work "none_requeued db0" for db0
  by unfold_locales (auto simp: none_requeued_def)

lemma uploader_never_requeues:
  assumes "retry_contract tenacity" and "uploader_run tenacity upload cfg cycles w = (r, w')"
  shows "\<not> requeued (w_db w) (w_db w') x"
proof -
  have "none_requeued (w_db w) (w_db w)" by (simp add: none_requeued_def)
  from preservesD [OF unqueued.work_uploader_run [OF assms(1)] this assms(2)]
  show ?thesis by (auto simp: none_requeued_def requeued_def)
qed

text \<open>What a run of the uploader does to the ledger is a run of the gateway.\<close>

lemma uploader_keeps_conversions:
  assumes "retry_contract tenacity" and "uploader_run tenacity upload cfg cycles w = (r, w')"
    and "distinct_ids (w_db w)"
  shows "resendable (w_db w) (w_db w')"
  using preservesD [OF resent.preserves_uploader_run [OF assms(1)] resendable_refl [OF assms(3)] assms(2)] .

lemma uploader_keeps_digests:
  assumes "retry_contract tenacity" and "uploader_run tenacity upload cfg cycles w = (r, w')"
    and "distinct_ids (w_db w)"
    and "find_event (w_db w) x = Some e0" and "ev_status e0 \<noteq> QUEUED" and "find_event (w_db w') x = Some e"
  shows "ev_hashed_identifiers e = ev_hashed_identifiers e0"
  using uploader_keeps_conversions [OF assms(1-3)] uploader_never_requeues [OF assms(1,2), of x] assms(4-6)
  unfolding resendable_def digests_kept_def same_digests_def by fastforce

end
