(* ===== verification/Backlog.thy ===== *)
theory Backlog
  imports Resend
begin

text \<open>
  The uploader empties its backlog. With a client that accepts everything (\<open>accepting_client\<close>, the
  mock platform in order is one), full batches leave at once, oldest rows first, the last rows wait
  in the batcher until they are due, and in the end every row is UPLOADED and was sent exactly once.
\<close>

section \<open>A cycle at a time\<close>

lemma row_conversion_claimed [simp]: "row_conversion customer (claimed_row now e) = row_conversion customer e"
proof -
  have "facts (claimed_row now e) = facts e" by (simp add: claimed_row_def facts_def)
  from build_conversion_facts [OF this, of customer] show ?thesis by (simp add: row_conversion_def)
qed

text \<open>Nothing is on its way, the batcher is empty, and every waiting row may be sent.\<close>

definition uploader_ready :: "uploader_config \<Rightarrow> (json \<Rightarrow> bool) \<Rightarrow> ('q, 'p) uploader_world \<Rightarrow> bool" where
  "uploader_ready cfg good w \<longleftrightarrow>
     quiet (w_db w) \<and> 0 < b_max_size (u_batcher w) \<and> b_items (u_batcher w) = [] \<and>
     b_oldest_at (u_batcher w) = None \<and>
     (\<forall>e \<in> set (backlog (w_db w)). ev_attempt_count e < up_max_row_attempts cfg \<and>
        good (row_conversion (up_customer_id cfg) e))"

definition unlocked :: "store \<Rightarrow> pystr set \<Rightarrow> bool" where
  "unlocked db locked \<longleftrightarrow> (\<forall>e \<in> set (backlog db). ev_event_id e \<notin> locked)"

lemma batcher_emptied:
  "b_items b = [] \<Longrightarrow> b_oldest_at b = None \<Longrightarrow> b\<lparr>b_items := [], b_oldest_at := None\<rparr> = b"
  by (cases b) simp

text \<open>The claim of a cycle on an empty batcher.\<close>

lemma ready_claim:
  assumes "reachable U P w" and "uploader_ready cfg good w" and "unlocked (w_db w) locked"
  obtains db' where "claim cfg locked now (b_max_size (u_batcher w)) w =
      (Inr (map (\<lambda>e. claimed_item (up_customer_id cfg) (claimed_row now e))
         (take (b_max_size (u_batcher w)) (backlog (w_db w)))), w\<lparr>w_db := db'\<rparr>)"
    and "\<And>x. find_event db' x =
      (if x \<in> ev_event_id ` set (take (b_max_size (u_batcher w)) (backlog (w_db w)))
       then map_option (claimed_row now) (find_event (w_db w) x) else find_event (w_db w) x)"
    and "reachable U P (w\<lparr>w_db := db'\<rparr>)" and "event_ids db' = event_ids (w_db w)"
proof -
  let ?es = "take (b_max_size (u_batcher w)) (backlog (w_db w))"
  have es: "?es = select_for_upload (w_db w) locked now (b_max_size (u_batcher w)) (up_row_retry_after cfg)
      (up_stale_after cfg)"
    using assms(2,3) by (intro select_quiet [symmetric]) (simp_all add: uploader_ready_def unlocked_def)
  have low: "\<forall>e \<in> set ?es. ev_attempt_count e < up_max_row_attempts cfg"
    using assms(2) by (auto simp: uploader_ready_def dest: in_set_takeD)
  obtain db' where run: "claim cfg locked now (b_max_size (u_batcher w)) w =
        (Inr (map (\<lambda>e. claimed_item (up_customer_id cfg) (claimed_row now e)) ?es), w\<lparr>w_db := db'\<rparr>)"
      and found: "\<And>x. find_event db' x = (if x \<in> ev_event_id ` set ?es
         then map_option (claimed_row now) (find_event (w_db w) x) else find_event (w_db w) x)"
      and reach: "reachable U P (w\<lparr>w_db := db'\<rparr>)"
    using claim_run [OF assms(1) es low] by blast
  have "event_ids (w_db (w\<lparr>w_db := db'\<rparr>)) = event_ids (w_db w)"
    by (rule preservesD [OF ids.work_claim refl run])
  then show ?thesis using run found reach by (intro that [of db']) simp_all
qed

text \<open>The rows \<open>es\<close> were claimed at \<open>since\<close> and wait in the batcher; nothing else is left to claim.\<close>

definition batch_waiting ::
  "uploader_config \<Rightarrow> (json \<Rightarrow> bool) \<Rightarrow> time \<Rightarrow> event list \<Rightarrow> ('q, 'p) uploader_world \<Rightarrow> bool" where
  "batch_waiting cfg good since es w \<longleftrightarrow>
     b_items (u_batcher w) = map (\<lambda>e. claimed_item (up_customer_id cfg) (claimed_row since e)) es \<and>
     b_oldest_at (u_batcher w) = Some since \<and> es \<noteq> [] \<and> length es < b_max_size (u_batcher w) \<and>
     distinct (map ev_event_id es) \<and> (\<forall>e \<in> set es. good (row_conversion (up_customer_id cfg) e)) \<and>
     (\<forall>e \<in> set es. find_event (w_db w) (ev_event_id e) \<noteq> None) \<and>
     (\<forall>x e. find_event (w_db w) x = Some e \<longrightarrow>
        (if x \<in> ev_event_id ` set es then ev_status e = UPLOADING \<and> ev_last_attempt_at e = Some since
         else ev_status e \<notin> {PROCESSED, UPLOADING, FAILED_RETRYABLE}))"

lemma nothing_to_claim:
  assumes "distinct_ids (w_db w)" and "batch_waiting cfg good since es w" and "now < since + up_stale_after cfg"
  shows "select_for_upload (w_db w) locked now limit (up_row_retry_after cfg) (up_stale_after cfg) = []"
proof -
  have "\<not> claimable now (up_row_retry_after cfg) (up_stale_after cfg) e" if e: "e \<in> set (events (w_db w))" for e
  proof -
    have "find_event (w_db w) (ev_event_id e) = Some e"
      using e assms(1) by (auto simp: distinct_ids_def intro: find_event_distinct)
    with assms(2) have "if ev_event_id e \<in> ev_event_id ` set es
        then ev_status e = UPLOADING \<and> ev_last_attempt_at e = Some since
        else ev_status e \<notin> {PROCESSED, UPLOADING, FAILED_RETRYABLE}"
      unfolding batch_waiting_def by blast
    with assms(3) show ?thesis by (auto simp: claimable_def due_def split: if_splits)
  qed
  then show ?thesis by (simp add: select_for_upload_def filter_empty_conv)
qed

lemma last_attempt_claimed [simp]: "ev_last_attempt_at (claimed_row now e) = Some now"
  by (simp add: claimed_row_def)

context accepting_client
begin

text \<open>With at least a full batch waiting, a cycle uploads the oldest rows and nothing else changes.\<close>

lemma full_cycle:
  assumes "retry_contract tenacity" and "reachable U P w" and "uploader_ready cfg good w"
    and "unlocked (w_db w) locked" and "serving (u_platform w)"
    and "b_max_size (u_batcher w) = n" and "n \<le> length (backlog (w_db w))"
  obtains report w' where "run_once tenacity upload cfg locked clock now w = (Inr report, w')"
    and "reachable U P w'" and "uploader_ready cfg good w'"
    and "backlog (w_db w') = drop n (backlog (w_db w))"
    and "\<forall>e \<in> set (take n (backlog (w_db w))).
      map_option ev_status (find_event (w_db w') (ev_event_id e)) = Some UPLOADED"
    and "\<forall>y. y \<notin> ev_event_id ` set (take n (backlog (w_db w))) \<longrightarrow>
      find_event (w_db w') y = find_event (w_db w) y"
    and "w_queue w' = w_queue w" and "u_batcher w' = u_batcher w" and "serving (u_platform w')"
    and "received (u_platform w') = received (u_platform w) @
      map (row_conversion (up_customer_id cfg)) (take n (backlog (w_db w)))"
proof -
  let ?es = "take n (backlog (w_db w))" and ?item = "\<lambda>e. claimed_item (up_customer_id cfg) (claimed_row now e)"
  note dist = reachable_distinct [OF assms(2)]
  have b: "b_items (u_batcher w) = []" "b_oldest_at (u_batcher w) = None" "0 < n" "batcher_ok (u_batcher w)"
    using assms(3,6) by (auto simp: uploader_ready_def batcher_ok_def)
  obtain db1 where claim: "claim cfg locked now n w = (Inr (map ?item ?es), w\<lparr>w_db := db1\<rparr>)"
      and found: "\<And>x. find_event db1 x = (if x \<in> ev_event_id ` set ?es
         then map_option (claimed_row now) (find_event (w_db w) x) else find_event (w_db w) x)"
      and reach: "reachable U P (w\<lparr>w_db := db1\<rparr>)" and ids: "event_ids db1 = event_ids (w_db w)"
    using ready_claim [OF assms(2,3,4), where now = now, unfolded assms(6)] by blast
  let ?w1 = "w\<lparr>w_db := db1\<rparr>"
  have len: "length (map ?item ?es) = n" using assms(7) by simp
  then have "map ?item ?es \<noteq> []" using b(3) by (metis length_0_conv less_numeral_extra(3))
  note full = add_all_full [where w = ?w1 and now = now and items = "map ?item ?es"]
  have add: "se_fold (map ?item ?es) (add_claimed now) None ?w1 = (Inr (Some (map ?item ?es)), ?w1)"
    using full b len \<open>map ?item ?es \<noteq> []\<close> assms(6) batcher_emptied [OF b(1,2)] by simp
  have row: "find_event (w_db w) (ev_event_id e) = Some e \<and> ev_status e = PROCESSED" if "e \<in> set ?es" for e
    using that backlog_found [OF dist] by (auto dest: in_set_takeD)
  have up: "\<forall>c \<in> set (map ?item ?es). map_option ev_status (find_event (w_db ?w1) (cl_event_id c)) = Some UPLOADING"
    using row by (auto simp: claimed_item_def found)
  have good: "\<forall>c \<in> set (map ?item ?es). good (cl_conversion c)"
    using assms(3) by (auto simp: claimed_item_def uploader_ready_def dest: in_set_takeD)
  have keys: "map cl_event_id (map ?item ?es) = map ev_event_id ?es" by (simp add: claimed_item_def)
  have distinct: "distinct (map cl_event_id (map ?item ?es))"
    unfolding keys using distinct_backlog [OF dist] by (simp add: take_map [symmetric] distinct_take)
  have serving: "serving (u_platform ?w1)" using assms(5) by simp
  obtain report w' where run: "(case Some (map ?item ?es) of None \<Rightarrow> se_return no_report
        | Some b \<Rightarrow> if b = [] then se_return no_report
            else se_bind (upload_batch tenacity upload cfg clock b now) (\<lambda>report.
              se_bind refresh_dlq_depth (\<lambda>_. se_return report))) ?w1 = (Inr report, w')"
      and reach': "reachable U P w'" and ids': "event_ids (w_db w') = event_ids (w_db ?w1)"
      and fin: "\<forall>c \<in> set (map ?item ?es). map_option ev_status (find_event (w_db w') (cl_event_id c)) = Some UPLOADED"
      and others: "\<forall>y. y \<notin> cl_event_id ` set (map ?item ?es) \<longrightarrow> find_event (w_db w') y = find_event (w_db ?w1) y"
      and rest: "w_queue w' = w_queue ?w1" "u_batcher w' = u_batcher ?w1" "serving (u_platform w')"
      "received (u_platform w') = received (u_platform ?w1) @ map cl_conversion (map ?item ?es)"
    by (rule batch_uploaded [OF assms(1) reach serving good distinct up \<open>map ?item ?es \<noteq> []\<close>])
  have S: "cl_event_id ` set (map ?item ?es) = ev_event_id ` set ?es"
    using arg_cong [OF keys, of set] by (simp only: set_map)
  have uploaded: "\<forall>e \<in> set ?es. map_option ev_status (find_event (w_db w') (ev_event_id e)) = Some UPLOADED"
    using fin by (simp add: claimed_item_def)
  have others': "\<forall>y. y \<notin> ev_event_id ` set ?es \<longrightarrow> find_event (w_db w') y = find_event (w_db w) y"
    using others found unfolding S by simp
  have "backlog (w_db w') = filter (\<lambda>e. ev_event_id e \<notin> ev_event_id ` set ?es) (backlog (w_db w))"
    using dist reachable_distinct [OF reach'] ids ids' others' uploaded
    by (intro backlog_after) auto
  then have left: "backlog (w_db w') = drop n (backlog (w_db w))"
    using drop_distinct_filter [OF distinct_backlog [OF dist]] by simp
  have "quiet (w_db w')"
    unfolding quiet_found [OF reachable_distinct [OF reach']]
  proof (intro allI impI)
    fix x e assume e: "find_event (w_db w') x = Some e"
    show "ev_status e \<notin> {UPLOADING, FAILED_RETRYABLE}"
    proof (cases "x \<in> ev_event_id ` set ?es")
      case True
      with uploaded e show ?thesis by auto
    next
      case False
      with others' e assms(3) quiet_found [OF dist] show ?thesis by (auto simp: uploader_ready_def)
    qed
  qed
  then have "uploader_ready cfg good w'"
    using assms(3) left rest(2) by (auto simp: uploader_ready_def dest: in_set_dropD)
  moreover have "run_once tenacity upload cfg locked clock now w = (Inr report, w')"
    using claim add run b assms(6) by (simp add: run_once_def collect_batch_def se_bind_def)
  ultimately show ?thesis
    using reach' left uploaded others' rest
    by (intro that) (simp_all add: claimed_item_def comp_def)
qed

text \<open>Nothing to do: a cycle changes nothing.\<close>

lemma idle_cycle:
  assumes "reachable U P w" and "uploader_ready cfg good w" and "backlog (w_db w) = []"
  obtains w' where "run_once tenacity upload cfg locked clock now w = (Inr no_report, w')"
    and "reachable U P w'" and "uploader_ready cfg good w'" and "backlog (w_db w') = []"
    and "find_event (w_db w') = find_event (w_db w)" and "outside w' = outside w"
proof -
  have "unlocked (w_db w) locked" using assms(3) by (simp add: unlocked_def)
  note ready = ready_claim [OF assms(1,2) this, where now = now, unfolded assms(3) take_Nil list.map list.set image_empty
      empty_iff if_False]
  obtain db1 where claim: "claim cfg locked now (b_max_size (u_batcher w)) w = (Inr [], w\<lparr>w_db := db1\<rparr>)"
      and found: "\<And>x. find_event db1 x = find_event (w_db w) x"
      and reach: "reachable U P (w\<lparr>w_db := db1\<rparr>)" and ids: "event_ids db1 = event_ids (w_db w)"
    using ready by blast
  have eq: "find_event db1 = find_event (w_db w)" using found by (rule ext)
  have dist: "distinct_ids (w_db w)" "distinct_ids db1"
    using reachable_distinct [OF assms(1)] reachable_distinct [OF reach] by simp_all
  have left: "backlog db1 = []"
    using backlog_after [OF dist ids, of "{}"] found assms(3) by simp
  have "quiet db1" using assms(2) quiet_found [OF dist(1)] quiet_found [OF dist(2)] eq
    by (simp add: uploader_ready_def)
  then have "uploader_ready cfg good (w\<lparr>w_db := db1\<rparr>)"
    using assms(2) left by (simp add: uploader_ready_def)
  moreover have "run_once tenacity upload cfg locked clock now w = (Inr no_report, w\<lparr>w_db := db1\<rparr>)"
    using claim assms(2)
    by (simp add: run_once_def collect_batch_def se_bind_def on_batcher_def batcher_flush_if_due_def
        uploader_ready_def)
  ultimately show ?thesis using reach left eq by (intro that [of "w\<lparr>w_db := db1\<rparr>"]) simp_all
qed

text \<open>Fewer rows than a batch: they are claimed and wait.\<close>

lemma waiting_cycle:
  assumes "reachable U P w" and "uploader_ready cfg good w"
    and "unlocked (w_db w) locked" and "backlog (w_db w) \<noteq> []"
    and "length (backlog (w_db w)) < b_max_size (u_batcher w)" and "0 < b_max_wait (u_batcher w)"
  obtains w' where "run_once tenacity upload cfg locked clock now w = (Inr no_report, w')"
    and "reachable U P w'" and "batch_waiting cfg good now (backlog (w_db w)) w'"
    and "\<forall>y. y \<notin> ev_event_id ` set (backlog (w_db w)) \<longrightarrow> find_event (w_db w') y = find_event (w_db w) y"
    and "b_max_size (u_batcher w') = b_max_size (u_batcher w)"
    and "b_max_wait (u_batcher w') = b_max_wait (u_batcher w)"
    and "w_queue w' = w_queue w" and "u_platform w' = u_platform w"
proof -
  let ?es = "backlog (w_db w)" and ?item = "\<lambda>e. claimed_item (up_customer_id cfg) (claimed_row now e)"
  let ?n = "b_max_size (u_batcher w)"
  note dist = reachable_distinct [OF assms(1)]
  have b: "b_items (u_batcher w) = []" "b_oldest_at (u_batcher w) = None" "0 < ?n" "batcher_ok (u_batcher w)"
    using assms(2) by (auto simp: uploader_ready_def batcher_ok_def)
  have all: "take ?n ?es = ?es" using assms(5) by simp
  obtain db1 where claim: "claim cfg locked now ?n w = (Inr (map ?item ?es), w\<lparr>w_db := db1\<rparr>)"
      and found: "\<And>x. find_event db1 x = (if x \<in> ev_event_id ` set ?es
         then map_option (claimed_row now) (find_event (w_db w) x) else find_event (w_db w) x)"
      and reach: "reachable U P (w\<lparr>w_db := db1\<rparr>)"
    using ready_claim [OF assms(1,2,3), where now = now, unfolded all] by blast
  let ?w1 = "w\<lparr>w_db := db1\<rparr>"
  let ?w' = "?w1\<lparr>u_batcher := (u_batcher w)\<lparr>b_items := map ?item ?es, b_oldest_at := Some now\<rparr>\<rparr>"
  note wait = add_all_waiting [where w = ?w1 and now = now and items = "map ?item ?es" and batch = None]
  have add: "se_fold (map ?item ?es) (add_claimed now) None ?w1 = (Inr None, ?w')"
    using wait b assms(4,5) by simp
  have run: "run_once tenacity upload cfg locked clock now w = (Inr no_report, ?w')"
    using claim add b assms(6)
    by (simp add: run_once_def collect_batch_def se_bind_def on_batcher_def batcher_flush_if_due_def)
  have row: "find_event (w_db w) (ev_event_id e) = Some e" if "e \<in> set ?es" for e
    using that backlog_found [OF dist] by blast
  have others: "ev_status e \<notin> {PROCESSED, UPLOADING, FAILED_RETRYABLE}"
    if "find_event (w_db w) x = Some e" "x \<notin> ev_event_id ` set ?es" for x e
  proof -
    have "ev_status e \<noteq> PROCESSED"
      using that find_event_in [OF that(1)] find_event_id [OF that(1)] by (auto simp: set_backlog)
    then show ?thesis
      using that(1) assms(2) quiet_found [OF dist] by (auto simp: uploader_ready_def)
  qed
  have wait': "batch_waiting cfg good now ?es ?w'"
    using assms(2,4,5) distinct_backlog [OF dist] row others
    by (auto simp: batch_waiting_def uploader_ready_def found split: if_splits)
  have "reachable U P ?w'" by (rule reachable_step [OF reach step.elsewhere]) simp
  then show ?thesis using run wait' found by (intro that [of ?w']) simp_all
qed

text \<open>When they are due, the next cycle uploads them.\<close>

lemma due_cycle:
  assumes "retry_contract tenacity" and "reachable U P w" and "batch_waiting cfg good since es w"
    and "serving (u_platform w)" and "since + b_max_wait (u_batcher w) \<le> now" and "now < since + up_stale_after cfg"
  obtains report w' where "run_once tenacity upload cfg locked clock now w = (Inr report, w')"
    and "reachable U P w'" and "uploader_ready cfg good w'" and "backlog (w_db w') = []"
    and "\<forall>e \<in> set es. map_option ev_status (find_event (w_db w') (ev_event_id e)) = Some UPLOADED"
    and "\<forall>y. y \<notin> ev_event_id ` set es \<longrightarrow> find_event (w_db w') y = find_event (w_db w) y"
    and "b_max_size (u_batcher w') = b_max_size (u_batcher w)"
    and "w_queue w' = w_queue w" and "serving (u_platform w')"
    and "received (u_platform w') = received (u_platform w) @ map (row_conversion (up_customer_id cfg)) es"
proof -
  let ?item = "\<lambda>e. claimed_item (up_customer_id cfg) (claimed_row since e)"
  let ?room = "b_max_size (u_batcher w) - length es"
  have w: "b_items (u_batcher w) = map ?item es" "b_oldest_at (u_batcher w) = Some since" "es \<noteq> []"
      "length es < b_max_size (u_batcher w)" "distinct (map ev_event_id es)"
    using assms(3) by (simp_all add: batch_waiting_def)
  have none: "[] = select_for_upload (w_db w) locked now ?room (up_row_retry_after cfg) (up_stale_after cfg)"
    using nothing_to_claim [OF reachable_distinct [OF assms(2)] assms(3,6)] by simp
  from claim_run [OF assms(2) none] obtain db1 where claim: "claim cfg locked now ?room w = (Inr [], w\<lparr>w_db := db1\<rparr>)"
      and found: "find_event db1 = find_event (w_db w)" and reach: "reachable U P (w\<lparr>w_db := db1\<rparr>)"
    by (auto simp: fun_eq_iff)
  let ?b = "(u_batcher w)\<lparr>b_items := [], b_oldest_at := None\<rparr>"
  let ?w1 = "w\<lparr>w_db := db1, u_batcher := ?b\<rparr>"
  have reach1: "reachable U P ?w1" by (rule reachable_step [OF reach step.elsewhere]) simp
  have collect: "collect_batch cfg locked now w = (Inr (Some (map ?item es)), ?w1)"
    using claim w assms(5)
    by (simp add: collect_batch_def se_bind_def on_batcher_def batcher_flush_if_due_def batcher_flush_def)
  have up: "\<forall>c \<in> set (map ?item es). map_option ev_status (find_event (w_db ?w1) (cl_event_id c)) = Some UPLOADING"
  proof
    fix c assume "c \<in> set (map ?item es)"
    then obtain e where e: "e \<in> set es" "c = ?item e" by auto
    then obtain r where "find_event (w_db w) (ev_event_id e) = Some r"
      using assms(3) unfolding batch_waiting_def by blast
    moreover from this e assms(3) have "ev_status r = UPLOADING"
      unfolding batch_waiting_def by (metis imageI)
    ultimately show "map_option ev_status (find_event (w_db ?w1) (cl_event_id c)) = Some UPLOADING"
      using e by (simp add: claimed_item_def found)
  qed
  have good: "\<forall>c \<in> set (map ?item es). good (cl_conversion c)"
    using assms(3) by (simp add: claimed_item_def batch_waiting_def)
  have keys: "map cl_event_id (map ?item es) = map ev_event_id es" by (simp add: claimed_item_def)
  have distinct: "distinct (map cl_event_id (map ?item es))" unfolding keys by (rule w(5))
  have nonempty: "map ?item es \<noteq> []" using w(3) by simp
  have serving: "serving (u_platform ?w1)" using assms(4) by simp
  obtain report w' where run: "(case Some (map ?item es) of None \<Rightarrow> se_return no_report
        | Some b \<Rightarrow> if b = [] then se_return no_report
            else se_bind (upload_batch tenacity upload cfg clock b now) (\<lambda>report.
              se_bind refresh_dlq_depth (\<lambda>_. se_return report))) ?w1 = (Inr report, w')"
      and reach': "reachable U P w'" and "event_ids (w_db w') = event_ids (w_db ?w1)"
      and fin: "\<forall>c \<in> set (map ?item es). map_option ev_status (find_event (w_db w') (cl_event_id c)) = Some UPLOADED"
      and others: "\<forall>y. y \<notin> cl_event_id ` set (map ?item es) \<longrightarrow> find_event (w_db w') y = find_event (w_db ?w1) y"
      and rest: "w_queue w' = w_queue ?w1" "u_batcher w' = u_batcher ?w1" "serving (u_platform w')"
      "received (u_platform w') = received (u_platform ?w1) @ map cl_conversion (map ?item es)"
    by (rule batch_uploaded [OF assms(1) reach1 serving good distinct up nonempty])
  have S: "cl_event_id ` set (map ?item es) = ev_event_id ` set es"
    using arg_cong [OF keys, of set] by (simp only: set_map)
  have uploaded: "\<forall>e \<in> set es. map_option ev_status (find_event (w_db w') (ev_event_id e)) = Some UPLOADED"
    using fin by (simp add: claimed_item_def)
  have others': "\<forall>y. y \<notin> ev_event_id ` set es \<longrightarrow> find_event (w_db w') y = find_event (w_db w) y"
    using others found unfolding S by simp
  have status: "ev_status e \<notin> {PROCESSED, UPLOADING, FAILED_RETRYABLE}" if e: "find_event (w_db w') x = Some e" for x e
  proof (cases "x \<in> ev_event_id ` set es")
    case True
    with uploaded e show ?thesis by auto
  next
    case False
    with others' e have "find_event (w_db w) x = Some e" by simp
    with False assms(3) show ?thesis unfolding batch_waiting_def by presburger
  qed
  have left: "backlog (w_db w') = []"
  proof (rule ccontr)
    assume "backlog (w_db w') \<noteq> []"
    then obtain e where "e \<in> set (backlog (w_db w'))" by (meson list.set_sel(1))
    from backlog_found [OF reachable_distinct [OF reach'] this] status show False by blast
  qed
  have "quiet (w_db w')"
    using status unfolding quiet_found [OF reachable_distinct [OF reach']] by blast
  then have "uploader_ready cfg good w'"
    using left rest(2) w(4) by (simp add: uploader_ready_def)
  moreover have "run_once tenacity upload cfg locked clock now w = (Inr report, w')"
    using run unfolding run_once_def se_bind_def collect by simp
  ultimately show ?thesis
    using reach' left uploaded others' rest
    by (intro that) (simp_all add: claimed_item_def comp_def)
qed

section \<open>The whole backlog\<close>

text \<open>What is achieved when the rows \<open>es\<close> have gone to the platform, in this order and nothing else.\<close>

definition all_uploaded ::
  "pystr \<Rightarrow> event list \<Rightarrow> ('q, 'p) uploader_world \<Rightarrow> ('q, 'p) uploader_world \<Rightarrow> bool" where
  "all_uploaded customer es w w' \<longleftrightarrow>
     (\<forall>e \<in> set es. map_option ev_status (find_event (w_db w') (ev_event_id e)) = Some UPLOADED) \<and>
     (\<forall>y. y \<notin> ev_event_id ` set es \<longrightarrow> find_event (w_db w') y = find_event (w_db w) y) \<and>
     w_queue w' = w_queue w \<and>
     received (u_platform w') = received (u_platform w) @ map (row_conversion customer) es"

lemma all_uploaded_append:
  assumes "all_uploaded customer es w w1" and "all_uploaded customer fs w1 w2"
    and "distinct (map ev_event_id (es @ fs))"
  shows "all_uploaded customer (es @ fs) w w2"
  using assms unfolding all_uploaded_def by (fastforce simp: image_iff)

text \<open>The full batches, one per cycle.\<close>

lemma full_cycles:
  assumes "retry_contract tenacity" and "reachable U P w" and "uploader_ready cfg good w"
    and "\<forall>(locked, clock, now) \<in> set cycles. unlocked (w_db w) locked" and "serving (u_platform w)"
    and "b_max_size (u_batcher w) = n" and "n * length cycles \<le> length (backlog (w_db w))"
  obtains w' where "uploader_run tenacity upload cfg cycles w = (Inr (), w')"
    and "reachable U P w'" and "uploader_ready cfg good w'" and "serving (u_platform w')"
    and "backlog (w_db w') = drop (n * length cycles) (backlog (w_db w))" and "u_batcher w' = u_batcher w"
    and "all_uploaded (up_customer_id cfg) (take (n * length cycles) (backlog (w_db w))) w w'"
  using assms
proof (induction cycles arbitrary: w thesis)
  case Nil
  then show ?case by (simp add: all_uploaded_def)
next
  case (Cons cycle cycles)
  obtain locked clock now where cycle: "cycle = (locked, clock, now)" by (cases cycle) auto
  let ?log = "backlog (w_db w)" and ?k = "n * length cycles"
  have free: "unlocked (w_db w) locked" and many: "n \<le> length ?log" using Cons.prems(5,8) cycle by auto
  obtain report w1 where run: "run_once tenacity upload cfg locked clock now w = (Inr report, w1)"
    and w1: "reachable U P w1" "uploader_ready cfg good w1" "backlog (w_db w1) = drop n ?log"
      "\<forall>e \<in> set (take n ?log). map_option ev_status (find_event (w_db w1) (ev_event_id e)) = Some UPLOADED"
      "\<forall>y. y \<notin> ev_event_id ` set (take n ?log) \<longrightarrow> find_event (w_db w1) y = find_event (w_db w) y"
      "w_queue w1 = w_queue w" "u_batcher w1 = u_batcher w" "serving (u_platform w1)"
      "received (u_platform w1) = received (u_platform w) @ map (row_conversion (up_customer_id cfg)) (take n ?log)"
    by (rule full_cycle [OF Cons.prems(2-4) free Cons.prems(6,7) many])
  have first: "all_uploaded (up_customer_id cfg) (take n ?log) w w1"
    using w1(4-6,9) by (simp add: all_uploaded_def)
  have free1: "\<forall>(locked, clock, now) \<in> set cycles. unlocked (w_db w1) locked"
    using Cons.prems(5) by (auto simp: unlocked_def w1(3) dest!: in_set_dropD)
  have size1: "b_max_size (u_batcher w1) = n" and room1: "?k \<le> length (backlog (w_db w1))"
    using Cons.prems(7,8) w1(3,7) by auto
  obtain w' where rest: "uploader_run tenacity upload cfg cycles w1 = (Inr (), w')"
      "reachable U P w'" "uploader_ready cfg good w'" "serving (u_platform w')"
      "backlog (w_db w') = drop ?k (backlog (w_db w1))" "u_batcher w' = u_batcher w1"
      "all_uploaded (up_customer_id cfg) (take ?k (backlog (w_db w1))) w1 w'"
    by (rule Cons.IH [OF _ Cons.prems(2) w1(1,2) free1 w1(8) size1 room1])
  have split: "take n ?log @ take ?k (drop n ?log) = take (n * length (cycle # cycles)) ?log"
    by (simp add: take_add)
  have "distinct (map ev_event_id (take (n * length (cycle # cycles)) ?log))"
    using distinct_backlog [OF reachable_distinct [OF Cons.prems(3)]] by (simp add: take_map [symmetric] distinct_take)
  then have "all_uploaded (up_customer_id cfg) (take (n * length (cycle # cycles)) ?log) w w'"
    using all_uploaded_append [OF first rest(7) [unfolded w1(3)]] unfolding split by blast
  moreover have "uploader_run tenacity upload cfg (cycle # cycles) w = (Inr (), w')"
    using run rest(1) by (simp add: cycle se_bind_def)
  moreover have "backlog (w_db w') = drop (n * length (cycle # cycles)) ?log"
    using rest(5) w1(3) by (simp add: add.commute)
  ultimately show ?case using rest(2-4,6) w1(7) by (intro Cons.prems(1)) simp_all
qed

text \<open>And the rest of the rows: claimed by one cycle, sent by the next when they are due.\<close>

lemma last_cycles:
  assumes "retry_contract tenacity" and "reachable U P w" and "uploader_ready cfg good w"
    and "unlocked (w_db w) l1" and "serving (u_platform w)" and "0 < b_max_wait (u_batcher w)"
    and "length (backlog (w_db w)) < b_max_size (u_batcher w)"
    and "t1 + b_max_wait (u_batcher w) \<le> t2" and "t2 < t1 + up_stale_after cfg"
  obtains w' where "uploader_run tenacity upload cfg [(l1, k1, t1), (l2, k2, t2)] w = (Inr (), w')"
    and "reachable U P w'" and "uploader_ready cfg good w'" and "serving (u_platform w')"
    and "backlog (w_db w') = []" and "all_uploaded (up_customer_id cfg) (backlog (w_db w)) w w'"
proof (cases "backlog (w_db w) = []")
  case True
  obtain w1 where w1: "run_once tenacity upload cfg l1 k1 t1 w = (Inr no_report, w1)"
      "reachable U P w1" "uploader_ready cfg good w1" "backlog (w_db w1) = []"
      "find_event (w_db w1) = find_event (w_db w)" "outside w1 = outside w"
    by (rule idle_cycle [OF assms(2,3) True])
  obtain w2 where w2: "run_once tenacity upload cfg l2 k2 t2 w1 = (Inr no_report, w2)"
      "reachable U P w2" "uploader_ready cfg good w2" "backlog (w_db w2) = []"
      "find_event (w_db w2) = find_event (w_db w1)" "outside w2 = outside w1"
    by (rule idle_cycle [OF w1(2-4)])
  have "uploader_run tenacity upload cfg [(l1, k1, t1), (l2, k2, t2)] w = (Inr (), w2)"
    using w1(1) w2(1) by (simp add: se_bind_def)
  moreover have "find_event (w_db w2) = find_event (w_db w)" using w1(5) w2(5) by simp
  moreover have "w_queue w2 = w_queue w \<and> u_platform w2 = u_platform w"
    using w1(6) w2(6) by (simp add: outside_def)
  ultimately show ?thesis
    using w2(2-4) assms(5) by (intro that [of w2]) (simp_all add: all_uploaded_def True)
next
  case False
  obtain w1 where w1: "run_once tenacity upload cfg l1 k1 t1 w = (Inr no_report, w1)"
      "reachable U P w1" "batch_waiting cfg good t1 (backlog (w_db w)) w1"
      "\<forall>y. y \<notin> ev_event_id ` set (backlog (w_db w)) \<longrightarrow> find_event (w_db w1) y = find_event (w_db w) y"
      "b_max_size (u_batcher w1) = b_max_size (u_batcher w)" "b_max_wait (u_batcher w1) = b_max_wait (u_batcher w)"
      "w_queue w1 = w_queue w" "u_platform w1 = u_platform w"
    by (rule waiting_cycle [OF assms(2-4) False assms(7,6)])
  have serving: "serving (u_platform w1)" and due: "t1 + b_max_wait (u_batcher w1) \<le> t2"
    using assms(5,8) w1(6,8) by simp_all
  obtain report w2 where w2: "run_once tenacity upload cfg l2 k2 t2 w1 = (Inr report, w2)"
      "reachable U P w2" "uploader_ready cfg good w2" "backlog (w_db w2) = []"
      "\<forall>e \<in> set (backlog (w_db w)). map_option ev_status (find_event (w_db w2) (ev_event_id e)) = Some UPLOADED"
      "\<forall>y. y \<notin> ev_event_id ` set (backlog (w_db w)) \<longrightarrow> find_event (w_db w2) y = find_event (w_db w1) y"
      "b_max_size (u_batcher w2) = b_max_size (u_batcher w1)" "w_queue w2 = w_queue w1" "serving (u_platform w2)"
      "received (u_platform w2) = received (u_platform w1) @ map (row_conversion (up_customer_id cfg)) (backlog (w_db w))"
    by (rule due_cycle [OF assms(1) w1(2,3) serving due assms(9)])
  have "uploader_run tenacity upload cfg [(l1, k1, t1), (l2, k2, t2)] w = (Inr (), w2)"
    using w1(1) w2(1) by (simp add: se_bind_def)
  then show ?thesis
    using w1(4,7,8) w2 by (intro that) (simp_all add: all_uploaded_def)
qed

lemma uploader_run_append:
  "uploader_run tenacity upload cfg (xs @ ys) w =
     (case uploader_run tenacity upload cfg xs w of
        (Inl e, w') \<Rightarrow> (Inl e, w') | (Inr u, w') \<Rightarrow> uploader_run tenacity upload cfg ys w')"
  by (induction xs arbitrary: w) (auto simp: se_bind_def split: prod.splits sum.splits)

lemma empties_backlog:
  assumes "retry_contract tenacity" and "reachable U P w" and "uploader_ready cfg good w"
    and "\<forall>(locked, clock, now) \<in> set (cycles @ [(l1, k1, t1)]). unlocked (w_db w) locked"
    and "serving (u_platform w)" and "0 < b_max_wait (u_batcher w)"
    and "length cycles = length (backlog (w_db w)) div b_max_size (u_batcher w)"
    and "t1 + b_max_wait (u_batcher w) \<le> t2" and "t2 < t1 + up_stale_after cfg"
  obtains w' where
    "uploader_run tenacity upload cfg (cycles @ [(l1, k1, t1), (l2, k2, t2)]) w = (Inr (), w')"
    and "reachable U P w'" and "uploader_ready cfg good w'" and "serving (u_platform w')"
    and "backlog (w_db w') = []" and "all_uploaded (up_customer_id cfg) (backlog (w_db w)) w w'"
proof -
  let ?n = "b_max_size (u_batcher w)" and ?log = "backlog (w_db w)"
  let ?k = "?n * length cycles"
  have n: "0 < ?n" using assms(3) by (simp add: uploader_ready_def)
  have k: "?k \<le> length ?log" "length ?log - ?k < ?n"
    using n assms(7) by (simp_all add: minus_mult_div_eq_mod)
  have free: "\<forall>(locked, clock, now) \<in> set cycles. unlocked (w_db w) locked" using assms(4) by simp
  obtain w1 where w1: "uploader_run tenacity upload cfg cycles w = (Inr (), w1)"
      "reachable U P w1" "uploader_ready cfg good w1" "serving (u_platform w1)"
      "backlog (w_db w1) = drop ?k ?log" "u_batcher w1 = u_batcher w"
      "all_uploaded (up_customer_id cfg) (take ?k ?log) w w1"
    by (rule full_cycles [OF assms(1-3) free assms(5) refl k(1)])
  have free1: "unlocked (w_db w1) l1" using assms(4) by (auto simp: unlocked_def w1(5) dest: in_set_dropD)
  have few: "length (backlog (w_db w1)) < b_max_size (u_batcher w1)" "0 < b_max_wait (u_batcher w1)"
      "t1 + b_max_wait (u_batcher w1) \<le> t2"
    using k(2) assms(6,8) w1(5,6) by simp_all
  obtain w' where w': "uploader_run tenacity upload cfg [(l1, k1, t1), (l2, k2, t2)] w1 = (Inr (), w')"
      "reachable U P w'" "uploader_ready cfg good w'" "serving (u_platform w')" "backlog (w_db w') = []"
      "all_uploaded (up_customer_id cfg) (backlog (w_db w1)) w1 w'"
    by (rule last_cycles [OF assms(1) w1(2,3) free1 w1(4) few(2,1,3) assms(9)])
  have "distinct (map ev_event_id (take ?k ?log @ drop ?k ?log))"
    using distinct_backlog [OF reachable_distinct [OF assms(2)]] by simp
  then have "all_uploaded (up_customer_id cfg) ?log w w'"
    using all_uploaded_append [OF w1(7) w'(6) [unfolded w1(5)]] by simp
  moreover have "uploader_run tenacity upload cfg (cycles @ [(l1, k1, t1), (l2, k2, t2)]) w = (Inr (), w')"
    unfolding uploader_run_append w1(1) prod.case sum.case by (rule w'(1))
  ultimately show ?thesis using w'(2-5) by (intro that)
qed

end

section \<open>The mock platform in order\<close>

text \<open>
  The configured conversion actions, a client that waits, and, for the next request, mode ok and no
  injected row failures: the control says so, or it has run out and is reset by the request.
\<close>

definition mock_serving :: "pystr list \<Rightarrow> rat \<Rightarrow> mock_state \<Rightarrow> bool" where
  "mock_serving known timeout st \<longleftrightarrow>
     0 \<le> timeout \<and> ms_known_actions st = known \<and> ctl_mode (fst (take_control st)) = MODE_OK \<and>
     ctl_fail_rows (fst (take_control st)) = []"

text \<open>The control that answers a request does not depend on the counters, and stays in order.\<close>

lemma take_control_serving:
  assumes "mock_serving known timeout st"
    and "take_control (st\<lparr>ms_request_count := n\<rparr>) = (control, st1)"
  shows "ctl_mode control = MODE_OK" and "ctl_fail_rows control = []" and "mock_serving known timeout st1"
  using assms
  by (auto simp: mock_serving_def take_control_def new_control_def Let_def split: option.splits if_splits)

lemma mock_serving_uploads: "mock_serving known timeout st \<Longrightarrow> mock_serving known timeout (st\<lparr>ms_uploads := us\<rparr>)"
  by (auto simp: mock_serving_def take_control_def Let_def split: option.splits if_splits)

interpretation mock: accepting_client
  "http_upload py_repr (mock_post U py_repr timeout)" "mock_serving known timeout"
  "\<lambda>c. validate_row U py_repr known c = Inr None" ms_uploads
  for U :: ucd and py_repr :: "json \<Rightarrow> pystr" and timeout :: rat and known :: "pystr list"
proof unfold_locales
  fix st :: mock_state and cs :: "json list"
  assume st: "mock_serving known timeout st" and good: "\<forall>c \<in> set cs. validate_row U py_repr known c = Inr None"
  let ?st = "st\<lparr>ms_request_count := ms_request_count st + 1\<rparr>" and ?vs = "replicate (length cs) (None :: pystr option)"
  obtain control st1 where take: "take_control ?st = (control, st1)" by fastforce
  note c = take_control_serving [OF st take]
  have verdicts: "\<forall>j < length cs. row_verdict U py_repr (ms_known_actions st) (ctl_fail_rows control) j (cs ! j) = Inr (?vs ! j)"
    using st good c(2) by (simp add: mock_serving_def row_verdict_def injected_code_def)
  have wait: "0 \<le> timeout" and len: "length ?vs = length cs" using st by (simp_all add: mock_serving_def)
  obtain result where result: "http_upload py_repr (mock_post U py_repr timeout) cs st =
        (Inr result, st1\<lparr>ms_uploads := ms_uploads st @ accepted_rows cs ?vs\<rparr>)"
      "length (br_rows result) = length cs"
      "\<forall>j < length cs. (rr_ok (br_rows result ! j) \<longleftrightarrow> ?vs ! j = None) \<and> rr_error_code (br_rows result ! j) = ?vs ! j"
    by (rule mock_round_trip [OF take c(1) wait len verdicts])
  have all: "accepted_rows rows (replicate (length rows) None) = rows" for rows
    by (induction rows) (simp_all add: accepted_rows_def)
  have "\<forall>r \<in> set (br_rows result). rr_ok r \<and> rr_error_code r = None"
    using result(2,3) by (metis in_set_conv_nth nth_replicate)
  then show "\<exists>result st'. http_upload py_repr (mock_post U py_repr timeout) cs st = (Inr result, st') \<and>
      mock_serving known timeout st' \<and> ms_uploads st' = ms_uploads st @ cs \<and>
      (\<forall>r \<in> set (br_rows result). rr_ok r \<and> rr_error_code r = None)"
    using result(1) mock_serving_uploads [OF c(3)] by (intro exI conjI) (auto simp: all)
qed

text \<open>The platform starts in order when the environment says nothing, for the two actions of the CRMs.\<close>

lemma mock_serving_default:
  assumes "0 \<le> timeout"
  shows "\<exists>st. mock_create_app_from_env Map.empty = Inr st \<and> ms_uploads st = [] \<and>
    mock_serving [lit ''closed_won'', lit ''qualified_lead''] timeout st"
  using assms
  by (simp add: mock_create_app_from_env_def mock_create_app_def mode_names_def mock_serving_def new_control_def
    take_control_def Let_def lit_def)

end
