(* ===== verification/Journey.thy ===== *)
theory Journey
  imports Backlog
begin

text \<open>
  The way of one webhook through the whole gateway: accepted by the API, processed by the worker,
  sent by the uploader, stored by the platform; and what the CRM sees when it delivers it again.
\<close>

section \<open>The API\<close>

definition webhook_message :: "CanonicalLeadEvent \<Rightarrow> time \<Rightarrow> pystr \<Rightarrow> QueueMessage" where
  "webhook_message event now corr =
     \<lparr>qm_event_id = ce_event_id event, qm_identifiers = ce_identifiers event, qm_enqueued_at = now,
      qm_correlation_id = Some corr\<rparr>"

text \<open>The webhook of an event that the ledger does not have.\<close>

lemma webhook_accepted:
  assumes "source_or_404 source = Some src"
    and "verify U (secret_for cfg src) th sh body clock (webhook_timestamp_tolerance_seconds cfg) = Inr None"
    and "json_loads V body = Some payload" and "parse_and_map U V src payload = Inr event"
    and "find_event (w_db w) (ce_event_id event) = None" and "store_fits (w_db w)"
    and "event_fits (validated_row (event\<lparr>ce_correlation_id := Some corr\<rparr>) now)"
  shows "\<exists>m. post_webhook U V cfg (mq_publish C) source th sh body clock now corr w =
    (Inr (AcceptedResponse 202 (ce_event_id event) QUEUED corr),
     w\<lparr>w_db := recorded (validated_row (event\<lparr>ce_correlation_id := Some corr\<rparr>) now) now (w_db w), w_metrics := m,
       w_queue := (w_queue w)\<lparr>mq_ready := mq_ready (w_queue w) @ [(to_bytes C (webhook_message event now corr), 1)]\<rparr>\<rparr>)"
proof -
  let ?event = "event\<lparr>ce_correlation_id := Some corr\<rparr>"
  have "find_event (w_db w) (ce_event_id ?event) = None" using assms(5) by simp
  from accept_event_new [OF this assms(7,6), of corr] show ?thesis
    using assms(1-4)
    by (simp add: post_webhook_def ingest_body_def se_bind_def se_try_def on_queue_def mq_publish_def
        webhook_message_def Let_def) (rule exI, rule refl)
qed

text \<open>The webhook of an event that it has.\<close>

lemma webhook_redelivered:
  assumes "source_or_404 source = Some src"
    and "verify U (secret_for cfg src) th sh body clock (webhook_timestamp_tolerance_seconds cfg) = Inr None"
    and "json_loads V body = Some payload" and "parse_and_map U V src payload = Inr event"
    and "find_event (w_db w) (ce_event_id event) = Some e" and "store_fits (w_db w)"
    and "event_fits (validated_row (event\<lparr>ce_correlation_id := Some corr\<rparr>) now)"
  shows "post_webhook U V cfg publish source th sh body clock now corr w =
    (Inr (AcceptedResponse 200 (ce_event_id event) (ev_status e)
       (if truthy (ev_correlation_id e) then the (ev_correlation_id e) else corr)), w)"
proof -
  let ?event = "event\<lparr>ce_correlation_id := Some corr\<rparr>"
  have "find_event (w_db w) (ce_event_id ?event) = Some e" using assms(5) by simp
  from accept_event_duplicate [OF this assms(7,6), of corr] show ?thesis
    using assms(1-4) by (simp add: post_webhook_def ingest_body_def se_bind_def Let_def)
qed

section \<open>The worker\<close>

text \<open>One message for an event that the gate and the normalisers let through.\<close>

lemma single_message_processed:
  assumes "mq_ok C uuid (w_queue w)" and "mq_ready (w_queue w) = [(to_bytes C m, n)]" and "store_fits (w_db w)"
    and "find_event (w_db w) (qm_event_id m) = Some e" and "ev_status e = QUEUED"
    and "consent_from_row e = Inr signals" and "decide U P e signals (qm_identifiers m) = Accept h"
    and "0 < batch"
  obtains now q where "worker_run U P (mq_receive C uuid) mq_ack mq_nack batch clock 1 w =
      (Inr (), w\<lparr>w_db := apply_verdict e now (Accept h) (w_db w), w_queue := q\<rparr>)"
    and "mq_ready q = []"
proof -
  obtain r q where rec: "mq_receive C uuid batch (w_queue w) = (r, q)" by fastforce
  obtain ds where ds: "r = Inr ds" "map d_message ds = [mq_message C (to_bytes C m, n)]" "mq_ready q = []"
    using mq_receive_front [OF assms(1) rec] assms(2,8) by (cases batch) auto
  have "mq_message C (to_bytes C m, n) = m"
    using assms(1) by (simp add: mq_message_def mq_ok_def codec_ok_def)
  with ds(2) obtain d where d: "ds = [d]" "d_message d = m" by (cases ds) auto
  let ?w = "w\<lparr>w_queue := q\<rparr>" and ?db = "apply_verdict e (clock d) (Accept h) (w_db w)"
  have found: "find_event (w_db ?w) (qm_event_id (d_message d)) = Some e" using assms(4) d(2) by simp
  have fits: "store_fits ?db"
    using assms(3,4) find_event_id [OF assms(4)] by (intro apply_verdict_fits) simp_all
  have "process_message U P (d_message d) (clock d) ?w = (Inr OUT_PROCESSED, ?w\<lparr>w_db := ?db\<rparr>)"
    using process_queued [OF found assms(5,6), of U P "clock d"] assms(7) d(2) by (simp add: Let_def)
  then have "transaction (process_message U P (d_message d) (clock d)) ?w = (Inr OUT_PROCESSED, ?w\<lparr>w_db := ?db\<rparr>)"
    using fits by (intro transaction_commit [where m = "process_message U P (d_message d) (clock d)"]) simp_all
  moreover have "mq_ack d (w_queue (?w\<lparr>w_db := ?db\<rparr>)) =
      (Inr (), q\<lparr>mq_inflight := AList.delete (d_ack_id d) (mq_inflight q)\<rparr>)"
    by (simp add: mq_ack_def)
  ultimately have "handle_delivery U P mq_ack mq_nack d (clock d) ?w = (Inr (Some OUT_PROCESSED),
      ?w\<lparr>w_db := ?db, w_queue := q\<lparr>mq_inflight := AList.delete (d_ack_id d) (mq_inflight q)\<rparr>\<rparr>)"
    by (rule handle_delivery_committed)
  then have "worker_run U P (mq_receive C uuid) mq_ack mq_nack batch clock 1 w =
      (Inr (), w\<lparr>w_db := ?db, w_queue := q\<lparr>mq_inflight := AList.delete (d_ack_id d) (mq_inflight q)\<rparr>\<rparr>)"
    using on_queue_run [where m = "mq_receive C uuid batch", OF rec] ds(1) d(1)
    by (simp add: worker_iteration_def se_bind_def)
  then show ?thesis
    using ds(3) by (intro that [where now = "clock d" and q = "q\<lparr>mq_inflight := AList.delete (d_ack_id d) (mq_inflight q)\<rparr>"]) simp_all
qed

section \<open>The uploader\<close>

text \<open>A row past the worker is good for the mock platform.\<close>

lemma past_worker_good:
  assumes "reachable U P w" and "find_event (w_db w) x = Some e" and "past_worker (ev_status e)"
    and "customer \<noteq> []" and "\<forall>d \<in> set customer. decimal U d"
    and "ev_conversion_action e = Some a" and "a \<in> set known" and "a \<noteq> []" and "\<forall>d \<in> set a. word_char d"
    and "ev_conversion_time e = Some t" and "datetime_ok t"
  shows "validate_row U py_repr known (row_conversion customer e) = Inr None"
proof -
  have "gated (w_db w)" using assms(1) empty_store_ok(2) by (rule gate.inv_reachable)
  then have "row_gated e" using assms(2) by (simp add: gated_def)
  then obtain h where h: "consented e" "ev_hashed_identifiers e = Some h" "hashed_ok h"
      "truthy (ev_click_id e) \<or> has_match_key h"
    using assms(3) by (auto simp: row_gated_def usable_def)
  obtain kvs where "build_conversion e customer = Inr (JObj kvs)"
    using build_conversion_ok assms(6,10) by blast
  from gateway_row_accepted [OF this assms(6,10,4,5,7,8,9,11) h] this show ?thesis
    by (simp add: row_conversion_def)
qed

text \<open>When one row is all there is, it is the backlog.\<close>

lemma backlog_single:
  assumes "distinct_ids db" and "find_event db x = Some e" and "ev_status e = PROCESSED"
    and "\<And>y e'. find_event db y = Some e' \<Longrightarrow> y \<noteq> x \<Longrightarrow> ev_status e' \<noteq> PROCESSED"
  shows "backlog db = [e]"
proof -
  have "set (backlog db) = {e}"
  proof (intro equalityI subsetI)
    fix e' assume "e' \<in> set (backlog db)"
    then have e': "find_event db (ev_event_id e') = Some e'" "ev_status e' = PROCESSED"
      using backlog_found [OF assms(1)] by blast+
    with assms(4) have "ev_event_id e' = x" by blast
    with e'(1) assms(2) show "e' \<in> {e}" by simp
  next
    fix e' assume "e' \<in> {e}"
    then show "e' \<in> set (backlog db)" using assms(2,3) find_event_in by (auto simp: set_backlog)
  qed
  moreover have "distinct (backlog db)"
    using distinct_backlog [OF assms(1)] by (simp add: distinct_map)
  ultimately show ?thesis by (cases "backlog db" rule: remdups_adj.cases) auto
qed

section \<open>From the webhook to the platform\<close>

text \<open>The row of an accepted event, and as the worker leaves it.\<close>

definition accepted_row :: "CanonicalLeadEvent \<Rightarrow> pystr \<Rightarrow> time \<Rightarrow> event" where
  "accepted_row event corr now = queued_row (validated_row (event\<lparr>ce_correlation_id := Some corr\<rparr>) now)"

definition sent_row :: "CanonicalLeadEvent \<Rightarrow> pystr \<Rightarrow> time \<Rightarrow> HashedIdentifiers \<Rightarrow> event" where
  "sent_row event corr now h = (accepted_row event corr now)
     \<lparr>ev_hashed_identifiers := Some h, ev_status := PROCESSED, ev_status_reason := None\<rparr>"

lemma accepted_row_simps [simp]:
  "ev_event_id (accepted_row event corr now) = ce_event_id event"
  "ev_status (accepted_row event corr now) = QUEUED"
  "ev_attempt_count (accepted_row event corr now) = 0"
  "ev_click_id (accepted_row event corr now) = ce_click_id event"
  "ev_hashed_identifiers (accepted_row event corr now) = None"
  "ev_conversion_action (accepted_row event corr now) = Some (ce_conversion_action event)"
  "ev_conversion_time (accepted_row event corr now) = Some (ce_conversion_time event)"
  by (simp_all add: accepted_row_def queued_row_def validated_row_def stored_row_def)

lemma sent_row_simps [simp]:
  "ev_event_id (sent_row event corr now h) = ce_event_id event"
  "ev_status (sent_row event corr now h) = PROCESSED"
  "ev_attempt_count (sent_row event corr now h) = 0"
  "ev_conversion_action (sent_row event corr now h) = Some (ce_conversion_action event)"
  "ev_conversion_time (sent_row event corr now h) = Some (ce_conversion_time event)"
  by (simp_all add: sent_row_def)

lemma accepted_consent: "consent_from_row (accepted_row event corr now) = Inr (ce_consent event)"
  by (simp add: accepted_row_def queued_row_def validated_row_def stored_row_def consent_from_row_def)

text \<open>The gate is open, and the normalisers have nothing to reject.\<close>

definition passes_gate :: "ucd \<Rightarrow> 'n phonelib \<Rightarrow> CanonicalLeadEvent \<Rightarrow> bool" where
  "passes_gate U P event \<longleftrightarrow>
     ad_user_data (ce_consent event) = Some GRANTED \<and> ad_personalization (ce_consent event) = Some GRANTED \<and>
     (\<forall>r \<in> set (rejections (build_user_identifiers U P (ce_identifiers event))).
        truthy (ce_click_id event) \<and> rej_reason r = NO_MATCH_KEY)"

lemma gate_passed:
  assumes "passes_gate U P event"
  shows "decide U P (accepted_row event corr now) (ce_consent event) (ce_identifiers event) =
    Accept (identifiers (build_user_identifiers U P (ce_identifiers event)))"
proof -
  have "decision_reason (evaluate_consent (ce_consent event)) = None"
    using assms by (simp add: decision_reason_None_iff permitted_iff passes_gate_def)
  moreover have "relevant_rejections (accepted_row event corr now)
      (rejections (build_user_identifiers U P (ce_identifiers event))) = []"
    using assms by (auto simp: passes_gate_def relevant_rejections_def filter_empty_conv)
  ultimately show ?thesis by (auto simp: decide_def Let_def split: bool.split)
qed

lemma processed_found:
  assumes "find_event db (ce_event_id event) = None"
  shows "find_event (apply_verdict (accepted_row event corr now) later (Accept h)
      (recorded (validated_row (event\<lparr>ce_correlation_id := Some corr\<rparr>) now) now db)) x =
    (if x = ce_event_id event then Some (sent_row event corr now h) else find_event db x)"
proof -
  have "ev_event_id (validated_row (event\<lparr>ce_correlation_id := Some corr\<rparr>) now) = ce_event_id event"
    by (simp add: validated_row_def)
  with assms show ?thesis
    by (simp add: find_event_moved find_event_update find_event_recorded sent_row_def accepted_row_def [symmetric])
qed

text \<open>
  The gateway at rest: nothing on the queue, nothing to upload, and a batcher that is empty and holds
  more than one row.
\<close>

definition at_rest :: "'b codec \<Rightarrow> (nat \<Rightarrow> pystr) \<Rightarrow> ('b memory_queue, 'p) uploader_world \<Rightarrow> bool" where
  "at_rest C uuid w \<longleftrightarrow>
     mq_ok C uuid (w_queue w) \<and> mq_ready (w_queue w) = [] \<and> quiet (w_db w) \<and> backlog (w_db w) = [] \<and>
     b_items (u_batcher w) = [] \<and> b_oldest_at (u_batcher w) = None \<and> 1 < b_max_size (u_batcher w) \<and>
     0 < b_max_wait (u_batcher w)"

text \<open>What the platform asks of the settings and of the event.\<close>

definition sendable :: "ucd \<Rightarrow> pystr list \<Rightarrow> pystr \<Rightarrow> CanonicalLeadEvent \<Rightarrow> bool" where
  "sendable U known customer event \<longleftrightarrow>
     customer \<noteq> [] \<and> (\<forall>d \<in> set customer. decimal U d) \<and>
     ce_conversion_action event \<in> set known \<and> ce_conversion_action event \<noteq> [] \<and>
     (\<forall>c \<in> set (ce_conversion_action event). word_char c) \<and> datetime_ok (ce_conversion_time event)"

text \<open>What the platform asks of the settings and of the row that is sent.\<close>

definition row_sendable :: "ucd \<Rightarrow> pystr list \<Rightarrow> pystr \<Rightarrow> event \<Rightarrow> bool" where
  "row_sendable U known customer e \<longleftrightarrow>
     customer \<noteq> [] \<and> (\<forall>d \<in> set customer. decimal U d) \<and>
     (\<exists>a t. ev_conversion_action e = Some a \<and> a \<in> set known \<and> a \<noteq> [] \<and> (\<forall>c \<in> set a. word_char c) \<and>
        ev_conversion_time e = Some t \<and> datetime_ok t)"

lemma sendable_row: "sendable U known customer event \<Longrightarrow> row_sendable U known customer (sent_row event corr now h)"
  by (simp add: sendable_def row_sendable_def)

text \<open>
  From a gateway at rest, one row has come to PROCESSED and nothing else has changed: it is all
  that waits, and the uploader may send it.
\<close>

lemma one_row_ready:
  assumes "reachable U P w" and "at_rest C uuid w"
    and "reachable U P w2" and "u_batcher w2 = u_batcher w"
    and "\<And>y. find_event (w_db w2) y = (if y = x then Some e else find_event (w_db w) y)"
    and "ev_status e = PROCESSED" and "ev_attempt_count e < up_max_row_attempts ucfg"
    and "row_sendable U known (up_customer_id ucfg) e"
  shows "backlog (w_db w2) = [e]"
    and "uploader_ready ucfg (\<lambda>c. validate_row U py_repr known c = Inr None) w2"
proof -
  note dist = reachable_distinct [OF assms(1)] and dist2 = reachable_distinct [OF assms(3)]
  have old: "ev_status e' \<notin> {PROCESSED, UPLOADING, FAILED_RETRYABLE}" if "find_event (w_db w) y = Some e'" for y e'
  proof -
    have "ev_status e' \<noteq> PROCESSED"
      using that find_event_in assms(2) set_backlog [of "w_db w"] by (auto simp: at_rest_def)
    moreover have "ev_status e' \<notin> {UPLOADING, FAILED_RETRYABLE}"
      using that assms(2) quiet_found [OF dist] by (auto simp: at_rest_def)
    ultimately show ?thesis by simp
  qed
  show log: "backlog (w_db w2) = [e]"
    using old assms(5,6) by (intro backlog_single [OF dist2]) auto
  have "quiet (w_db w2)"
    unfolding quiet_found [OF dist2] using old assms(5,6) by auto
  moreover have "validate_row U py_repr known (row_conversion (up_customer_id ucfg) e) = Inr None"
    using assms(5,6,8)
    by (auto simp: row_sendable_def past_worker_def intro!: past_worker_good [OF assms(3), of x])
  ultimately show "uploader_ready ucfg (\<lambda>c. validate_row U py_repr known c = Inr None) w2"
    using assms(2,4,7) log by (auto simp: uploader_ready_def at_rest_def)
qed

text \<open>And two cycles of the uploader, the second when the row is due, send it to the mock in order.\<close>

lemma one_row_sent:
  assumes "retry_contract tenacity" and "reachable U P w" and "at_rest C uuid w"
    and "mock_serving known timeout (u_platform w)"
    and "reachable U P w2" and "u_batcher w2 = u_batcher w" and "u_platform w2 = u_platform w"
    and "\<And>y. find_event (w_db w2) y = (if y = x then Some e else find_event (w_db w) y)"
    and "ev_status e = PROCESSED" and "ev_attempt_count e < up_max_row_attempts ucfg"
    and "row_sendable U known (up_customer_id ucfg) e"
    and "x \<notin> l1" and "t1 + b_max_wait (u_batcher w) \<le> t2" and "t2 < t1 + up_stale_after ucfg"
  obtains w3 e3 where "uploader_run tenacity (http_upload py_repr (mock_post U py_repr timeout)) ucfg
      [(l1, k1, t1), (l2, k2, t2)] w2 = (Inr (), w3)"
    and "reachable U P w3" and "find_event (w_db w3) x = Some e3" and "ev_status e3 = UPLOADED"
    and "ms_uploads (u_platform w3) = ms_uploads (u_platform w) @ [row_conversion (up_customer_id ucfg) e]"
    and "\<And>y. y \<noteq> x \<Longrightarrow> find_event (w_db w3) y = find_event (w_db w) y"
proof -
  note ready = one_row_ready [OF assms(2,3,5,6,8-11)]
  have id: "ev_event_id e = x" using assms(8) [of x] find_event_id by simp
  have rest: "\<forall>(locked, clock, now) \<in> set ([] @ [(l1, k1, t1)]). unlocked (w_db w2) locked"
      "mock_serving known timeout (u_platform w2)" "0 < b_max_wait (u_batcher w2)"
      "length [] = length (backlog (w_db w2)) div b_max_size (u_batcher w2)"
      "t1 + b_max_wait (u_batcher w2) \<le> t2"
    using ready(1) id assms(3,4,6,7,12,13) by (simp_all add: unlocked_def at_rest_def)
  obtain w3 where w3: "uploader_run tenacity (http_upload py_repr (mock_post U py_repr timeout)) ucfg
        ([] @ [(l1, k1, t1), (l2, k2, t2)]) w2 = (Inr (), w3)" "reachable U P w3"
      "mock.all_uploaded (up_customer_id ucfg) (backlog (w_db w2)) w2 w3"
    using mock.empties_backlog [OF assms(1,5) ready(2) rest assms(14)] by metis
  obtain e3 where "find_event (w_db w3) x = Some e3" "ev_status e3 = UPLOADED"
    using w3(3) ready(1) id by (auto simp: mock.all_uploaded_def)
  then show ?thesis
    using w3 ready(1) id assms(7,8) unfolding append_Nil
    by (intro that [of w3 e3]) (simp_all add: mock.all_uploaded_def)
qed

text \<open>The webhook and one iteration of the worker.\<close>

lemma webhook_processed:
  assumes "reachable U P w" and "at_rest C uuid w"
    and "source_or_404 source = Some src" and "json_loads V body = Some payload"
    and "parse_and_map U V src payload = Inr event"
    and "verify U (secret_for cfg src) th sh body clock (webhook_timestamp_tolerance_seconds cfg) = Inr None"
    and "event_fits (validated_row (event\<lparr>ce_correlation_id := Some corr\<rparr>) now)"
    and "find_event (w_db w) (ce_event_id event) = None" and "passes_gate U P event" and "0 < batch"
  obtains w1 w2 h where
    "post_webhook U V cfg (mq_publish C) source th sh body clock now corr w =
      (Inr (AcceptedResponse 202 (ce_event_id event) QUEUED corr), w1)"
    and "worker_run U P (mq_receive C uuid) mq_ack mq_nack batch wclock 1 w1 = (Inr (), w2)"
    and "reachable U P w2" and "u_batcher w2 = u_batcher w" and "u_platform w2 = u_platform w"
    and "\<And>x. find_event (w_db w2) x =
      (if x = ce_event_id event then Some (sent_row event corr now h) else find_event (w_db w) x)"
proof -
  let ?h = "identifiers (build_user_identifiers U P (ce_identifiers event))"
  let ?e = "accepted_row event corr now" and ?m = "webhook_message event now corr"
  obtain m where api: "post_webhook U V cfg (mq_publish C) source th sh body clock now corr w =
      (Inr (AcceptedResponse 202 (ce_event_id event) QUEUED corr),
       w\<lparr>w_db := recorded (validated_row (event\<lparr>ce_correlation_id := Some corr\<rparr>) now) now (w_db w), w_metrics := m,
         w_queue := (w_queue w)\<lparr>mq_ready := mq_ready (w_queue w) @ [(to_bytes C ?m, 1)]\<rparr>\<rparr>)" (is "_ = (_, ?w1)")
    using webhook_accepted [OF assms(3,6,4,5,8) fits_reachable [OF assms(1)] assms(7)] by blast
  note reach1 = reachable_step [OF assms(1) step.webhook [OF api]]
  have queue: "mq_ok C uuid (w_queue ?w1)" "mq_ready (w_queue ?w1) = [(to_bytes C ?m, 1)]"
    using assms(2) by (auto simp: at_rest_def mq_ok_def)
  have found1: "find_event (w_db ?w1) (qm_event_id ?m) = Some ?e"
    using assms(8) by (simp add: webhook_message_def find_event_recorded accepted_row_def validated_row_def)
  have verdict: "decide U P ?e (ce_consent event) (qm_identifiers ?m) = Accept ?h"
    using gate_passed [OF assms(9)] by (simp add: webhook_message_def)
  obtain later q where worker: "worker_run U P (mq_receive C uuid) mq_ack mq_nack batch wclock 1 ?w1 =
      (Inr (), ?w1\<lparr>w_db := apply_verdict ?e later (Accept ?h) (w_db ?w1), w_queue := q\<rparr>)" (is "_ = (_, ?w2)")
    by (rule single_message_processed [OF queue fits_reachable [OF reach1] found1 _ accepted_consent verdict assms(10)])
      simp_all
  have "reachable U P ?w2"
    using worker_run_drains [OF reach1 queue(1), of batch wclock 1] worker by auto
  moreover have "find_event (w_db ?w2) x =
      (if x = ce_event_id event then Some (sent_row event corr now ?h) else find_event (w_db w) x)" for x
    using processed_found [OF assms(8), of corr now later ?h x] by simp
  ultimately show ?thesis by (intro that [OF api worker]) simp_all
qed

text \<open>And the conversion row that is sent for it carries the event id.\<close>

lemma sent_order_id:
  "json_field ''orderId'' (row_conversion customer (sent_row event corr now h)) = Some (JStr (ce_event_id event))"
proof -
  obtain kvs where c: "build_conversion (sent_row event corr now h) customer = Inr (JObj kvs)"
    using build_conversion_ok [of "sent_row event corr now h" "ce_conversion_action event"
        "ce_conversion_time event" customer] by auto
  then show ?thesis using build_conversion_fields(3) [OF c] by (simp add: row_conversion_def)
qed

end
