(* ===== verification/Replay.thy ===== *)
theory Replay
  imports Journey Cli
begin

text \<open>
  The way of a dead-lettered event back to the platform: an operator replays its record, the worker
  takes the digests that the ledger has kept, and the uploader sends the same conversion row again.
\<close>

section \<open>The replay\<close>

text \<open>An open record is one of an event that is DEAD_LETTERED.\<close>

lemma open_letter_dead:
  assumes "letters_ok db" and "find_dead_letter db i = Some d" and "dl_replayed_at d = None"
  obtains e where "find_event db (dl_event_id d) = Some e" and "ev_status e = DEAD_LETTERED"
proof -
  have "d \<in> set (open_letters db (dl_event_id d))"
    using assms(2,3) by (auto simp: open_letters_def find_dead_letter_def dest: find_SomeD)
  then have "length (open_letters db (dl_event_id d)) \<noteq> 0" by auto
  with assms(1) have "is_dead db (dl_event_id d)" by (auto simp: letters_ok_def split: if_splits)
  then show ?thesis by (auto simp: is_dead_def intro: that)
qed

text \<open>The row of a replayed event, and as the worker leaves it.\<close>

definition requeued_row :: "nat \<Rightarrow> event \<Rightarrow> event" where
  "requeued_row i e = e\<lparr>ev_status := QUEUED, ev_status_reason := Some (lit ''replayed:dlq:'' @ str_of_nat i),
     ev_attempt_count := 0, ev_last_attempt_at := None\<rparr>"

definition revived_row :: "event \<Rightarrow> event" where
  "revived_row e = e\<lparr>ev_status := PROCESSED, ev_status_reason := None, ev_attempt_count := 0,
     ev_last_attempt_at := None\<rparr>"

lemma requeued_row_simps [simp]:
  "ev_event_id (requeued_row i e) = ev_event_id e"
  "ev_status (requeued_row i e) = QUEUED"
  "ev_hashed_identifiers (requeued_row i e) = ev_hashed_identifiers e"
  by (simp_all add: requeued_row_def)

lemma revived_row_simps [simp]:
  "ev_event_id (revived_row e) = ev_event_id e"
  "ev_status (revived_row e) = PROCESSED"
  "ev_attempt_count (revived_row e) = 0"
  "ev_hashed_identifiers (revived_row e) = ev_hashed_identifiers e"
  by (simp_all add: revived_row_def)

lemma find_event_replayed:
  assumes "find_event db x = Some e"
  shows "find_event (replayed e i now db) y = (if y = x then Some (requeued_row i e) else find_event db y)"
  using assms find_event_id [OF assms]
  by (auto simp: replayed_def find_event_update find_event_moved requeued_row_def)

lemma store_fits_replayed:
  assumes "store_fits db" and "find_event db x = Some e" and "i < 2 ^ 31"
  shows "store_fits (replayed e i now db)"
proof -
  have "length (str_of_nat i) \<le> Suc 9"
    unfolding str_of_nat_def using assms(3) by (intro length_digits_of_nat) simp
  then have "store_fits (moved e QUEUED (Some (lit ''replayed:dlq:'' @ str_of_nat i)) now db)"
    using assms(1,2) find_event_id [OF assms(2)] by (intro store_fits_moved) simp_all
  then have "store_fits (update_event (ev_event_id e) (\<lambda>e. e\<lparr>ev_attempt_count := 0, ev_last_attempt_at := None\<rparr>)
      (moved e QUEUED (Some (lit ''replayed:dlq:'' @ str_of_nat i)) now db))" (is "store_fits ?db")
    by (rule store_fits_attempt)
  moreover have "dead_letter_fits (d\<lparr>dl_replayed_at := a, dl_replay_count := n\<rparr>) = dead_letter_fits d" for d a n
    by (simp add: dead_letter_fits_def)
  ultimately show ?thesis
    by (auto simp: replayed_def store_fits_def update_dead_letter_def list_all_iff)
qed

text \<open>One record replayed by \<open>dlq replay\<close> on the in-memory queue.\<close>

lemma replay_candidate_run:
  assumes "find_dead_letter (w_db w) i = Some d" and "dl_replayed_at d = None"
    and "find_event (w_db w) (dl_event_id d) = Some e" and "ev_status e = DEAD_LETTERED"
    and "store_fits (w_db w)" and "i < 2 ^ 31"
  shows "\<exists>out. replay_candidate (mq_publish C) now i w =
    (Inr True, w\<lparr>w_db := replayed e i now (w_db w), w_out := out,
       w_queue := (w_queue w)\<lparr>mq_ready := mq_ready (w_queue w) @ [(to_bytes C (replay_message e now), 1)]\<rparr>\<rparr>)"
proof -
  have "replay (mq_publish C) i now w = (Inr True, w\<lparr>w_db := replayed e i now (w_db w),
       w_queue := (w_queue w)\<lparr>mq_ready := mq_ready (w_queue w) @ [(to_bytes C (replay_message e now), 1)]\<rparr>\<rparr>)"
    using assms(1-4) by (simp add: replay_run mq_publish_def)
  moreover have "store_fits (replayed e i now (w_db w))"
    using assms(3,5,6) by (intro store_fits_replayed)
  ultimately show ?thesis
    using assms(1) unfolding replay_candidate_def
    by (intro exI [of _ "w_out w @ lit ''replayed '' @ str_of_nat (dl_id d) @ lit '' '' @ dl_event_id d @ NEWLINE"]
        transaction_commit) (simp_all add: se_bind_def on_db_gets out_write_def)
qed

section \<open>The worker\<close>

text \<open>Consent still holds and the digests are there: the gate lets them through as they are.\<close>

lemma stored_digests_accepted:
  assumes "consented e" and "ev_hashed_identifiers e = Some h"
  obtains signals where "consent_from_row e = Inr signals" and "decide U P e signals no_identifiers = Accept h"
proof -
  let ?signals = "\<lparr>ad_user_data = Some GRANTED, ad_personalization = Some GRANTED\<rparr>"
  have "consent_of_column (Some (consent_value GRANTED)) = Inr (Some GRANTED)"
    using consent_of_column_written [of "Some GRANTED"] by (simp add: consent_column_def)
  then have "consent_from_row e = Inr ?signals"
    using assms(1) by (simp add: consent_from_row_def consented_def del: consent_value.simps)
  moreover have "decision_reason (evaluate_consent ?signals) = None"
    by (simp add: decision_reason_None_iff permitted_iff)
  then have "decide U P e ?signals no_identifiers = Accept h" using assms(2) by (simp add: decide_def)
  ultimately show ?thesis by (rule that)
qed

lemma revived_found:
  assumes "find_event db x = Some e" and "ev_hashed_identifiers e = Some h"
  shows "find_event (apply_verdict (requeued_row i e) later (Accept h) (replayed e i now db)) y =
    (if y = x then Some (revived_row e) else find_event db y)"
  using assms find_event_id [OF assms(1)] find_event_replayed [OF assms(1), of i now]
  by (auto simp: find_event_moved find_event_update revived_row_def requeued_row_def)

lemma conversion_revived: "row_conversion customer (revived_row e) = row_conversion customer e"
proof -
  have "facts (revived_row e) = facts e" by (simp add: revived_row_def facts_def)
  from build_conversion_facts [OF this] show ?thesis by (simp add: row_conversion_def)
qed

lemma sendable_revived: "row_sendable U known customer e \<Longrightarrow> row_sendable U known customer (revived_row e)"
  by (simp add: row_sendable_def revived_row_def)

text \<open>The replay and one iteration of the worker.\<close>

lemma replay_processed:
  assumes "reachable U P w" and "at_rest C uuid w"
    and "find_dead_letter (w_db w) i = Some d" and "dl_replayed_at d = None" and "i < 2 ^ 31" and "0 < batch"
  obtains e w1 w2 where "find_event (w_db w) (dl_event_id d) = Some e" and "ev_status e = DEAD_LETTERED"
    and "replay_candidate (mq_publish C) now i w = (Inr True, w1)"
    and "worker_run U P (mq_receive C uuid) mq_ack mq_nack batch wclock 1 w1 = (Inr (), w2)"
    and "reachable U P w2" and "u_batcher w2 = u_batcher w" and "u_platform w2 = u_platform w"
    and "\<And>y. find_event (w_db w2) y = (if y = dl_event_id d then Some (revived_row e) else find_event (w_db w) y)"
proof -
  let ?x = "dl_event_id d"
  have letters: "letters_ok (w_db w)" using assms(1) empty_store_ok(3) by (rule letters.inv_reachable)
  obtain e where e: "find_event (w_db w) ?x = Some e" "ev_status e = DEAD_LETTERED"
    by (rule open_letter_dead [OF letters assms(3,4)])
  have "gated (w_db w)" using assms(1) empty_store_ok(2) by (rule gate.inv_reachable)
  then have "row_gated e" using e(1) by (simp add: gated_def)
  then obtain h where gate: "consented e" "ev_hashed_identifiers e = Some h"
    using e(2) by (auto simp: row_gated_def past_worker_def)
  obtain out where op: "replay_candidate (mq_publish C) now i w =
      (Inr True, w\<lparr>w_db := replayed e i now (w_db w), w_out := out,
         w_queue := (w_queue w)\<lparr>mq_ready := mq_ready (w_queue w) @ [(to_bytes C (replay_message e now), 1)]\<rparr>\<rparr>)"
      (is "_ = (_, ?w1)")
    using replay_candidate_run [OF assms(3,4) e fits_reachable [OF assms(1)] assms(5)] by blast
  note reach1 = reachable_step [OF assms(1) step.operator [OF op]]
  have queue: "mq_ok C uuid (w_queue ?w1)" "mq_ready (w_queue ?w1) = [(to_bytes C (replay_message e now), 1)]"
    using assms(2) by (auto simp: at_rest_def mq_ok_def)
  have id: "qm_event_id (replay_message e now) = ?x" "qm_identifiers (replay_message e now) = no_identifiers"
    using find_event_id [OF e(1)] by (simp_all add: replay_message_def)
  have found1: "find_event (w_db ?w1) (qm_event_id (replay_message e now)) = Some (requeued_row i e)"
    using find_event_replayed [OF e(1)] id(1) by simp
  have "consented (requeued_row i e)" using gate(1) by (simp add: consented_def requeued_row_def)
  moreover have "ev_hashed_identifiers (requeued_row i e) = Some h" using gate(2) by simp
  ultimately obtain signals where verdict: "consent_from_row (requeued_row i e) = Inr signals"
      "decide U P (requeued_row i e) signals (qm_identifiers (replay_message e now)) = Accept h"
    unfolding id(2) by (rule stored_digests_accepted)
  obtain later q where worker: "worker_run U P (mq_receive C uuid) mq_ack mq_nack batch wclock 1 ?w1 =
      (Inr (), ?w1\<lparr>w_db := apply_verdict (requeued_row i e) later (Accept h) (w_db ?w1), w_queue := q\<rparr>)"
      (is "_ = (_, ?w2)")
    by (rule single_message_processed [OF queue fits_reachable [OF reach1] found1 _ verdict assms(6)]) simp_all
  have "reachable U P ?w2"
    using worker_run_drains [OF reach1 queue(1), of batch wclock 1] worker by auto
  moreover have "find_event (w_db ?w2) y = (if y = ?x then Some (revived_row e) else find_event (w_db w) y)" for y
    using revived_found [OF e(1) gate(2), of i later now y] by simp
  ultimately show ?thesis by (intro that [OF e op worker]) simp_all
qed

end
