(* ===== verification/Lease.thy ===== *)
theory Lease
  imports Cycles
begin

text \<open>
  A claimed row is leased. Status, attempt count and last attempt of a row never change without a
  line in the audit log, whatever the processes do in whatever order; so a row that one uploader has
  claimed is not handed out again before it is stale unless the log shows what happened to it.
\<close>

section \<open>Nothing changes silently\<close>

text \<open>The log has a line about the event that it did not have at \<open>db0\<close>.\<close>

definition logged_since :: "store \<Rightarrow> store \<Rightarrow> pystr \<Rightarrow> bool" where
  "logged_since db0 db x \<longleftrightarrow>
     (\<exists>t \<in> set (drop (length (transitions db0)) (transitions db)). tr_event_id t = x)"

definition same_lease :: "event \<Rightarrow> event \<Rightarrow> bool" where
  "same_lease e0 e \<longleftrightarrow> ev_status e = ev_status e0 \<and> ev_attempt_count e = ev_attempt_count e0 \<and>
     ev_last_attempt_at e = ev_last_attempt_at e0"

definition unmoved :: "store \<Rightarrow> store \<Rightarrow> bool" where
  "unmoved db0 db \<longleftrightarrow>
     (\<forall>x e0. find_event db0 x = Some e0 \<longrightarrow>
        logged_since db0 db x \<or> (\<exists>e. find_event db x = Some e \<and> same_lease e0 e))"

definition leased :: "store \<Rightarrow> store \<Rightarrow> bool" where
  "leased db0 db \<longleftrightarrow> distinct_ids db \<and> evolves db0 db \<and> unmoved db0 db"

lemma leased_refl: "distinct_ids db \<Longrightarrow> leased db db"
  by (simp add: leased_def evolves_refl unmoved_def same_lease_def)

lemma logged_since_append:
  assumes "evolves db0 db" and "transitions db' = transitions db @ ts"
  shows "logged_since db0 db' x \<longleftrightarrow> logged_since db0 db x \<or> (\<exists>t \<in> set ts. tr_event_id t = x)"
proof -
  have "length (transitions db0) \<le> length (transitions db)"
    using assms(1) prefix_length_le unfolding evolves_def by blast
  then show ?thesis by (auto simp: logged_since_def assms(2))
qed

text \<open>A change of the ledger says in the log which leases it touches.\<close>

lemma unmoved_step:
  assumes "leased db0 db" and "transitions db' = transitions db @ ts"
    and "\<And>x e. find_event db x = Some e \<Longrightarrow> \<forall>t \<in> set ts. tr_event_id t \<noteq> x \<Longrightarrow>
      \<exists>e'. find_event db' x = Some e' \<and> same_lease e e'"
  shows "unmoved db0 db'"
  unfolding unmoved_def
proof (intro allI impI)
  fix x e0 assume e0: "find_event db0 x = Some e0"
  have log: "logged_since db0 db' x \<longleftrightarrow> logged_since db0 db x \<or> (\<exists>t \<in> set ts. tr_event_id t = x)"
    using assms(1,2) by (intro logged_since_append) (simp add: leased_def)
  show "logged_since db0 db' x \<or> (\<exists>e. find_event db' x = Some e \<and> same_lease e0 e)"
  proof (cases "logged_since db0 db' x")
    case False
    then obtain e where "find_event db x = Some e" "same_lease e0 e"
      using assms(1) e0 log unfolding leased_def unmoved_def by blast
    moreover from False log have "\<forall>t \<in> set ts. tr_event_id t \<noteq> x" by blast
    ultimately show ?thesis using assms(3) [of x e] by (auto simp: same_lease_def)
  qed simp
qed

lemma unmoved_moved:
  assumes "leased db0 db" and "find_event db (ev_event_id e) = Some e"
  shows "unmoved db0 (moved e to reason now db)"
proof (rule unmoved_step [OF assms(1)])
  show "transitions (moved e to reason now db) = transitions db @
      [\<lparr>tr_event_id = ev_event_id e, tr_from_status = Some (ev_status e), tr_to_status = to,
        tr_reason = reason, tr_occurred_at = now\<rparr>]"
    by (simp add: moved_def)
qed (use assms(2) in \<open>auto simp: find_event_moved same_lease_def\<close>)

lemma unmoved_processed:
  assumes "leased db0 db" and "find_event db (ev_event_id e) = Some e"
  shows "unmoved db0 (moved e PROCESSED None now
    (update_event (ev_event_id e) (\<lambda>e. e\<lparr>ev_hashed_identifiers := Some h\<rparr>) db))"
proof (rule unmoved_step [OF assms(1)])
  show "transitions (moved e PROCESSED None now
      (update_event (ev_event_id e) (\<lambda>e. e\<lparr>ev_hashed_identifiers := Some h\<rparr>) db)) = transitions db @
      [\<lparr>tr_event_id = ev_event_id e, tr_from_status = Some (ev_status e), tr_to_status = PROCESSED,
        tr_reason = None, tr_occurred_at = now\<rparr>]"
    by (simp add: moved_def)
qed (use assms(2) in \<open>auto simp: find_event_moved find_event_update same_lease_def\<close>)

text \<open>The attempt columns are written after the line of the same event.\<close>

lemma unmoved_attempt:
  assumes "leased db0 db1" and "leased db0 db" and "transitions db = transitions db1 @ [t]"
  shows "unmoved db0 (update_event (tr_event_id t) (\<lambda>e. e\<lparr>ev_attempt_count := n e, ev_last_attempt_at := a\<rparr>) db)"
    (is "unmoved db0 ?db")
  unfolding unmoved_def
proof (intro allI impI)
  fix x e0 assume e0: "find_event db0 x = Some e0"
  show "logged_since db0 ?db x \<or> (\<exists>e. find_event ?db x = Some e \<and> same_lease e0 e)"
  proof (cases "x = tr_event_id t")
    case True
    have "transitions ?db = transitions db1 @ [t]" using assms(3) by simp
    then show ?thesis
      using assms(1) True logged_since_append [of db0 db1 ?db "[t]" x] by (simp add: leased_def)
  next
    case False
    then show ?thesis
      using assms(2) e0 unfolding leased_def unmoved_def by (simp add: find_event_update logged_since_def)
  qed
qed

lemma unmoved_created:
  assumes "leased db0 db" and "find_event db (ev_event_id row) = None"
  shows "unmoved db0 (created row now db)"
proof (rule unmoved_step [OF assms(1)])
  show "transitions (created row now db) = transitions db @
      [\<lparr>tr_event_id = ev_event_id row, tr_from_status = None, tr_to_status = RECEIVED,
        tr_reason = None, tr_occurred_at = now\<rparr>]"
    by (simp add: created_def)
qed (use assms(2) in \<open>auto simp: find_event_created same_lease_def\<close>)

lemma unmoved_letters [simp]:
  "unmoved db0 (add_dead_letter d db) \<longleftrightarrow> unmoved db0 db"
  "unmoved db0 (update_dead_letter i g db) \<longleftrightarrow> unmoved db0 db"
  by (simp_all add: unmoved_def logged_since_def)

interpretation lease: ledger_steps "leased db0" "\<lambda>_ _. True" for db0
proof (unfold_locales, goal_cases)
  case (1 db)
  then show ?case by (simp add: leased_def distinct_ids_def)
next
  case (2 db e to reason now)
  then show ?case using history.inv_move [of db db0] unmoved_moved by (simp add: leased_def)
next
  case (3 db1 db t eid n a)
  then show ?case
    using history.inv_attempt [of db1 db0 db t eid n a] unmoved_attempt [of db0 db1 db t n a]
    by (simp add: leased_def)
next
  case (4 db eid c)
  have "unmoved db0 (update_event eid (\<lambda>e. e\<lparr>ev_correlation_id := c\<rparr>) db)"
    by (rule unmoved_step [OF 4, of _ "[]"]) (auto simp: find_event_update same_lease_def)
  with 4 show ?case using history.inv_correlation [of db db0] by (simp add: leased_def)
next
  case (5 db eid e now)
  have "unmoved db0 (db\<lparr>transitions := transitions db @ ts\<rparr>)" for ts
    by (rule unmoved_step [OF 5(1), of _ ts]) (auto simp: same_lease_def)
  with 5 show ?case using history.inv_reclaim [of db db0] by (simp add: leased_def)
next
  case (6 db e h now)
  then show ?case using history.inv_processed [of db db0] unmoved_processed by (simp add: leased_def)
next
  case (7 db e d reason now)
  then show ?case using history.inv_dead_letter [of db db0] unmoved_moved by (simp add: leased_def)
next
  case (8 db e i d now reason)
  then show ?case using history.inv_replay [of db db0] unmoved_moved by (simp add: leased_def)
next
  case (9 db row now)
  then show ?case using history.inv_create [of db db0] unmoved_created by (simp add: leased_def)
qed

interpretation lease: worker_invariant "leased db0" "\<lambda>_ _. True" for db0
  by unfold_locales simp_all

section \<open>What a claim hands out\<close>

lemma other_dead_letter:
  "x \<noteq> eid \<Longrightarrow> preserves (\<lambda>w. find_event (w_db w) x = v) (dead_letter eid fc reason code msg payload now)"
proof -
  assume ne: "x \<noteq> eid"
  have reads: "preserves (\<lambda>db. find_event db x = v) flush" "preserves (\<lambda>db. find_event db x = v) (the_event eid)"
      "preserves (\<lambda>db. find_event db x = v) (se_modify (add_dead_letter d))" for d
    by (auto simp: preserves_def flush_run the_event_run split: option.split)
  show ?thesis
    unfolding dead_letter_def by (intro preserves_intro preserves_on_db other_transition ne reads)
qed

text \<open>An item carries the attempt count of its row, and it is within the ceiling.\<close>

definition item_of :: "uploader_config \<Rightarrow> store \<Rightarrow> Claimed \<Rightarrow> bool" where
  "item_of cfg db c \<longleftrightarrow> cl_attempt_count c \<le> up_max_row_attempts cfg \<and>
     map_option ev_attempt_count (find_event db (cl_event_id c)) = Some (cl_attempt_count c)"

lemma claim_item_run:
  assumes "claim_item cfg now eid acc w = (Inr acc', w')"
  shows "(\<forall>x. x \<noteq> eid \<longrightarrow> find_event (w_db w') x = find_event (w_db w) x) \<and>
    (acc' = acc \<or> (w' = w \<and> (\<exists>c. acc' = acc @ [c] \<and> cl_event_id c = eid \<and> item_of cfg (w_db w) c)))"
proof -
  obtain e where "find_event (w_db w) eid = Some e"
    using assms by (auto simp: claim_item_def se_bind_def on_db_def the_event_run split: option.splits prod.splits)
  moreover from this assms obtain conversion where "build_conversion e (up_customer_id cfg) = Inr conversion"
    by (auto simp: claim_item_def se_bind_def on_db_def the_event_run split: sum.splits)
  moreover have "find_event (w_db w1) x = find_event (w_db w) x"
    if "dead_letter eid fc reason code msg payload now w = (r, w1)" "x \<noteq> eid" for fc reason code msg payload r w1 x
    using preservesD [OF other_dead_letter [OF that(2)] refl that(1)] .
  ultimately show ?thesis
    using assms
    by (auto simp: claim_item_def se_bind_def on_db_def the_event_run item_of_def split: if_splits prod.splits sum.splits)
qed

lemma claim_items_out:
  assumes "se_fold ids (claim_item cfg now) acc w = (Inr items, w')" and "distinct ids"
    and "set ids \<inter> cl_event_id ` set acc = {}" and "c \<in> set items"
  shows "c \<in> set acc \<or> cl_event_id c \<in> set ids"
    and "find_event (w_db w') (cl_event_id c) = find_event (w_db w) (cl_event_id c)"
    and "c \<in> set acc \<or> item_of cfg (w_db w) c"
proof -
  have "(c \<in> set acc \<or> cl_event_id c \<in> set ids \<and> item_of cfg (w_db w) c) \<and>
      find_event (w_db w') (cl_event_id c) = find_event (w_db w) (cl_event_id c)"
    using assms
  proof (induction ids arbitrary: acc w)
    case (Cons eid ids)
    from Cons.prems(1) obtain acc1 w1 where one: "claim_item cfg now eid acc w = (Inr acc1, w1)"
        and rest: "se_fold ids (claim_item cfg now) acc1 w1 = (Inr items, w')"
      by (auto simp: se_bind_eq_Inr)
    note out = claim_item_run [OF one]
    have "cl_event_id ` set acc1 \<subseteq> insert eid (cl_event_id ` set acc)" using out by auto
    with Cons.prems(2,3) have "set ids \<inter> cl_event_id ` set acc1 = {}" by auto
    from Cons.IH [OF rest _ this Cons.prems(4)] Cons.prems(2)
    have IH: "c \<in> set acc1 \<or> cl_event_id c \<in> set ids \<and> item_of cfg (w_db w1) c"
        "find_event (w_db w') (cl_event_id c) = find_event (w_db w1) (cl_event_id c)" by simp_all
    have "find_event (w_db w1) (cl_event_id c) = find_event (w_db w) (cl_event_id c)"
    proof (cases "cl_event_id c = eid")
      case True
      then have "c \<in> set acc1" using IH(1) Cons.prems(2) by auto
      moreover have "c \<notin> set acc" using True Cons.prems(3) by auto
      ultimately show ?thesis using out by auto
    next
      case False
      then show ?thesis using out by blast
    qed
    with IH out show ?case by (auto simp: item_of_def)
  qed auto
  then show "c \<in> set acc \<or> cl_event_id c \<in> set ids"
    and "find_event (w_db w') (cl_event_id c) = find_event (w_db w) (cl_event_id c)"
    and "c \<in> set acc \<or> item_of cfg (w_db w) c" by auto
qed

text \<open>
  claim_for_upload always succeeds; it returns at most limit ids, each once, of rows that are
  unlocked and eligible (PROCESSED, or FAILED_RETRYABLE and due, or UPLOADING and stale); every
  returned row becomes UPLOADING with its attempt count raised by one and its last attempt set to
  now, and every other row is left alone.
\<close>

lemma claim_takes_ready_rows:
  assumes "distinct_ids db"
  shows "\<exists>ids db'. claim_for_upload locked now limit ra sa db = (Inr ids, db') \<and> length ids \<le> limit \<and>
    distinct ids \<and>
    (\<forall>x \<in> set ids. x \<notin> locked \<and> (\<exists>e e'. find_event db x = Some e \<and> claimable now ra sa e \<and>
       find_event db' x = Some e' \<and> ev_status e' = UPLOADING \<and>
       ev_attempt_count e' = ev_attempt_count e + 1 \<and> ev_last_attempt_at e' = Some now)) \<and>
    (\<forall>x. x \<notin> set ids \<longrightarrow> find_event db' x = find_event db x)"
proof -
  let ?es = "select_for_upload db locked now limit ra sa"
  have dis: "distinct (map ev_event_id (events db))" using assms by (simp add: distinct_ids_def)
  obtain db' where run: "claim_for_upload locked now limit ra sa db = (Inr (map ev_event_id ?es), db')"
      "\<forall>x. find_event db' x = (if x \<in> ev_event_id ` set ?es
         then map_option (claimed_row now) (find_event db x) else find_event db x)"
    using claim_for_upload_run [OF dis] by blast
  have "length ?es \<le> limit" by (simp add: select_for_upload_def)
  moreover have "ev_event_id e \<notin> locked \<and> find_event db (ev_event_id e) = Some e \<and> claimable now ra sa e \<and>
      find_event db' (ev_event_id e) = Some (claimed_row now e)" if "e \<in> set ?es" for e
    using that select_for_upload_rows(1) [OF dis that] select_for_upload_claimable [OF that] run(2) by auto
  ultimately show ?thesis
    using run select_for_upload_rows(2) [OF dis, of locked now limit ra sa]
    by (intro exI [of _ "map ev_event_id ?es"] exI [of _ db'])
      (auto simp: claimed_row_def intro!: bexI)
qed

text \<open>Every item of a claim is a claimable row, UPLOADING since now when the claim has committed.\<close>

lemma claim_hands_out:
  assumes "claim cfg locked now limit w = (Inr items, w')" and "distinct_ids (w_db w)" and "c \<in> set items"
  obtains e where "find_event (w_db w) (cl_event_id c) = Some e"
    and "claimable now (up_row_retry_after cfg) (up_stale_after cfg) e"
    and "find_event (w_db w') (cl_event_id c) = Some (claimed_row now e)"
    and "item_of cfg (w_db w') c"
proof -
  let ?es = "select_for_upload (w_db w) locked now limit (up_row_retry_after cfg) (up_stale_after cfg)"
  have dist: "distinct (map ev_event_id (events (w_db w)))" using assms(2) by (simp add: distinct_ids_def)
  obtain db1 where sel: "claim_for_upload locked now limit (up_row_retry_after cfg) (up_stale_after cfg) (w_db w) =
        (Inr (map ev_event_id ?es), db1)"
      and found: "\<forall>x. find_event db1 x = (if x \<in> ev_event_id ` set ?es
         then map_option (claimed_row now) (find_event (w_db w) x) else find_event (w_db w) x)"
    using claim_for_upload_run [OF dist] by blast
  have "se_fold (map ev_event_id ?es) (claim_item cfg now) [] (w\<lparr>w_db := db1\<rparr>) = (Inr items, w')"
    using assms(1) on_db_run [where m = "claim_for_upload locked now limit (up_row_retry_after cfg) (up_stale_after cfg)",
        OF sel]
    by (simp add: claim_def transaction_Inr se_bind_def)
  from claim_items_out [OF this _ _ assms(3)] select_for_upload_rows(2) [OF dist]
  have out: "cl_event_id c \<in> ev_event_id ` set ?es" "find_event (w_db w') (cl_event_id c) = find_event db1 (cl_event_id c)"
      "item_of cfg db1 c"
    by auto
  then obtain e where "e \<in> set ?es" "cl_event_id c = ev_event_id e" by auto
  with select_for_upload_rows(1) [OF dist] select_for_upload_claimable found out show ?thesis
    by (intro that [of e]) (auto simp: item_of_def)
qed

text \<open>A leased row that has not been touched is not handed out before it is stale.\<close>

lemma lease_respected:
  assumes "find_event db0 x = Some e0" and "ev_status e0 = UPLOADING" and "ev_last_attempt_at e0 = Some since"
    and "leased db0 (w_db w)" and "\<not> logged_since db0 (w_db w) x"
    and "claim cfg locked now limit w = (Inr items, w')" and "now < since + up_stale_after cfg"
  shows "x \<notin> cl_event_id ` set items"
proof
  assume "x \<in> cl_event_id ` set items"
  then obtain c where c: "c \<in> set items" "x = cl_event_id c" by blast
  have "distinct_ids (w_db w)" using assms(4) by (simp add: leased_def)
  from claim_hands_out [OF assms(6) this c(1)] obtain e where
      e: "find_event (w_db w) x = Some e" "claimable now (up_row_retry_after cfg) (up_stale_after cfg) e"
    using c(2) by metis
  obtain e' where "find_event (w_db w) x = Some e'" "same_lease e0 e'"
    using assms(1,4,5) unfolding leased_def unmoved_def by blast
  with e(1) have "ev_status e = UPLOADING" "ev_last_attempt_at e = Some since"
    using assms(2,3) by (simp_all add: same_lease_def)
  with e(2) assms(7) show False by (simp add: claimable_def due_def)
qed

text \<open>In particular two claims in a row hand out different rows.\<close>

lemma consecutive_claims_disjoint:
  assumes "reachable U P w" and "claim cfg locked now limit w = (Inr items, w1)"
    and "claim cfg' locked' now' limit' w1 = (Inr items', w2)" and "now' < now + up_stale_after cfg'"
  shows "cl_event_id ` set items \<inter> cl_event_id ` set items' = {}"
proof -
  have dist: "distinct_ids (w_db w)" "distinct_ids (w_db w1)"
    using reachable_distinct [OF assms(1)] reachable_distinct [OF reachable_step [OF assms(1) step.claim [OF assms(2)]]]
    by simp_all
  have "x \<notin> cl_event_id ` set items'" if x: "x \<in> cl_event_id ` set items" for x
  proof -
    from x obtain c where c: "c \<in> set items" "x = cl_event_id c" by blast
    from claim_hands_out [OF assms(2) dist(1) c(1)] obtain e where
        "find_event (w_db w1) x = Some (claimed_row now e)" unfolding c(2) by blast
    then show ?thesis
      by (rule lease_respected [OF _ _ _ leased_refl [OF dist(2)] _ assms(3,4)])
        (simp_all add: claimed_row_def logged_since_def)
  qed
  then show ?thesis by blast
qed

text \<open>And so do two claims in sessions of their own.\<close>

lemma claim_for_upload_disjoint:
  assumes "distinct_ids db" and "claim_for_upload locked now limit ra sa db = (Inr ids, db')"
    and "claim_for_upload locked' now' limit' ra' sa' db' = (Inr ids', db'')" and "now' - sa' < now"
  shows "set ids \<inter> set ids' = {}"
proof (rule ccontr)
  assume "set ids \<inter> set ids' \<noteq> {}"
  then obtain x where x: "x \<in> set ids" "x \<in> set ids'" by blast
  have dis: "distinct (map ev_event_id (events db))" using assms(1) by (simp add: distinct_ids_def)
  obtain db1 where run: "claim_for_upload locked now limit ra sa db =
        (Inr (map ev_event_id (select_for_upload db locked now limit ra sa)), db1)"
      "\<forall>y. find_event db1 y = (if y \<in> ev_event_id ` set (select_for_upload db locked now limit ra sa)
         then map_option (claimed_row now) (find_event db y) else find_event db y)"
    using claim_for_upload_run [OF dis] by blast
  then have ids: "set ids = ev_event_id ` set (select_for_upload db locked now limit ra sa)" "db1 = db'"
    using assms(2) by auto
  obtain e where e: "e \<in> set (select_for_upload db locked now limit ra sa)" "ev_event_id e = x"
    using x(1) ids by auto
  have "find_event db x = Some e" using select_for_upload_rows(1) [OF dis e(1)] e(2) by simp
  then have found: "find_event db' x = Some (claimed_row now e)" using run(2) ids x(1) by simp
  have "distinct_ids db'"
    using history.keeps_claim_for_upload [THEN keepsD, OF _ assms(2)] assms(1) evolves_refl by blast
  then have dis': "distinct (map ev_event_id (events db'))" by (simp add: distinct_ids_def)
  have "ids' = map ev_event_id (select_for_upload db' locked' now' limit' ra' sa')"
    using claim_for_upload_run [OF dis', of locked' now' limit' ra' sa'] assms(3) by auto
  then obtain e' where e': "e' \<in> set (select_for_upload db' locked' now' limit' ra' sa')" "ev_event_id e' = x"
    using x(2) by auto
  then have "e' = claimed_row now e" using select_for_upload_rows(1) [OF dis' e'(1)] found by simp
  then have "claimable now' ra' sa' (claimed_row now e)"
    using select_for_upload_claimable [OF e'(1)] by simp
  moreover have "ev_status (claimed_row now e) = UPLOADING" "ev_last_attempt_at (claimed_row now e) = Some now"
    by (simp_all add: claimed_row_def)
  ultimately show False using assms(4) by (auto simp: claimable_def due_def)
qed

end
