(* ===== verification/Ceiling.thy ===== *)
theory Ceiling
  imports Lease Backlog
begin

text \<open>
  The attempt ceiling. The attempt count of a row is the number of lines of its audit log that say it
  went out for upload since it was last queued; and a claim settles every selected row: handed out
  when it has attempts left, dead-lettered as poison when it has not.
\<close>

section \<open>A claim settles every selected row\<close>

definition ceiling_reason :: "nat \<Rightarrow> pystr" where
  "ceiling_reason n = lit ''poison:row_attempt_ceiling:'' @ str_of_nat n"

definition given_up_row :: "time \<Rightarrow> event \<Rightarrow> event" where
  "given_up_row now e =
     (claimed_row now e)\<lparr>ev_status := DEAD_LETTERED, ev_status_reason := Some (ceiling_reason (ev_attempt_count e))\<rparr>"

definition given_up_letter :: "pystr \<Rightarrow> event \<Rightarrow> dead_letter \<Rightarrow> bool" where
  "given_up_letter customer e d \<longleftrightarrow>
     dl_event_id d = ev_event_id e \<and> dl_failure_class d = failure_value POISON \<and>
     dl_reason d = ceiling_reason (ev_attempt_count e) \<and>
     dl_platform_error_code d = Some (lit ''row_attempt_ceiling'') \<and>
     dl_payload d = row_conversion customer e \<and> dl_replayed_at d = None"

definition settled_row :: "nat \<Rightarrow> time \<Rightarrow> event \<Rightarrow> event" where
  "settled_row most now e = (if ev_attempt_count e < most then claimed_row now e else given_up_row now e)"

lemma ceiling_reason_fits: "n < 2 ^ 31 \<Longrightarrow> length (ceiling_reason n) \<le> 512"
proof -
  assume "n < 2 ^ 31"
  then have "length (str_of_nat n) \<le> Suc 9"
    unfolding str_of_nat_def by (intro length_digits_of_nat) simp
  then show ?thesis by (simp add: ceiling_reason_def)
qed

text \<open>The step of the loop for a row that has no attempts left.\<close>

lemma give_up_item:
  fixes w :: "('q, 'p) uploader_world"
  assumes "find_event (w_db w) (ev_event_id e) = Some (claimed_row now e)"
    and "ev_conversion_action e \<noteq> None" and "ev_conversion_time e \<noteq> None"
    and "store_fits (w_db w)" and "up_max_row_attempts cfg \<le> ev_attempt_count e" and "ev_attempt_count e < 2 ^ 31"
  obtains w' d where "claim_item cfg now (ev_event_id e) acc w = (Inr acc, w')"
    and "store_fits (w_db w')" and "outside w' = outside w"
    and "\<And>y. find_event (w_db w') y = (if y = ev_event_id e then Some (given_up_row now e) else find_event (w_db w) y)"
    and "dead_letters (w_db w') = dead_letters (w_db w) @ [d]"
    and "given_up_letter (up_customer_id cfg) e d"
proof -
  let ?r = "claimed_row now e" and ?reason = "ceiling_reason (ev_attempt_count e)"
  obtain c where c: "build_conversion ?r (up_customer_id cfg) = Inr c"
    using build_conversion_ok assms(2,3) claimed_row_simps(4,5) by (metis not_None_eq)
  have payload: "c = row_conversion (up_customer_id cfg) e"
    using c row_conversion_claimed [of "up_customer_id cfg" now e] by (simp add: row_conversion_def)
  have "fits 128 (Some (lit ''row_attempt_ceiling''))" by simp
  then obtain w' where dead: "dead_letter (ev_event_id e) POISON ?reason (Some (lit ''row_attempt_ceiling''))
        (ev_status_reason ?r) c now w = (Inr (), w')" and fits: "store_fits (w_db w')"
      and db: "w_db w' = dead_lettered ?r POISON ?reason (Some (lit ''row_attempt_ceiling'')) (ev_status_reason ?r) c now (w_db w)"
    using dead_letter_ok [OF assms(1) _ assms(4) ceiling_reason_fits [OF assms(6)],
        of "Some (lit ''row_attempt_ceiling'')" POISON "ev_status_reason ?r" c now] by auto
  have out: "outside w' = outside w" by (rule preservesD [OF outside_dead_letter refl dead])
  have "str_of_int (int (Suc n) - 1) = str_of_nat n" for n
    by (simp add: str_of_int_def str_of_nat_def)
  then have run: "claim_item cfg now (ev_event_id e) acc w = (Inr acc, w')"
    using assms(5) dead on_db_the_event [of w "ev_event_id e" ?r] assms(1) c
    by (simp add: claim_item_def se_bind_def ceiling_reason_def del: of_nat_Suc)
  show ?thesis
  proof (rule that [OF run fits out])
    show "find_event (w_db w') y = (if y = ev_event_id e then Some (given_up_row now e) else find_event (w_db w) y)" for y
      using assms(1) by (simp add: db find_event_dead_lettered given_up_row_def)
    show "dead_letters (w_db w') = dead_letters (w_db w) @
        [(dead_letter_row ?r POISON ?reason (Some (lit ''row_attempt_ceiling'')) (ev_status_reason ?r) c
           (dead_history ?r ?reason now (w_db w)) now)
          \<lparr>dl_id := next_dead_letter_id (moved ?r DEAD_LETTERED (Some ?reason) now (w_db w))\<rparr>]"
      by (simp add: db dead_lettered_def dead_letters_add)
  qed (simp add: given_up_letter_def dead_letter_row_def payload)
qed

text \<open>The whole loop.\<close>

lemma se_fold_single: "se_fold [x] f acc w = f x acc w"
  by (simp add: se_bind_def split: prod.split sum.split)

definition items_settled ::
  "uploader_config \<Rightarrow> time \<Rightarrow> event list \<Rightarrow> ('q, 'p) uploader_world \<Rightarrow> ('q, 'p) uploader_world \<Rightarrow> bool" where
  "items_settled cfg now es w w' \<longleftrightarrow> store_fits (w_db w') \<and> outside w' = outside w \<and>
     (\<forall>e \<in> set es. find_event (w_db w') (ev_event_id e) = Some (settled_row (up_max_row_attempts cfg) now e)) \<and>
     (\<forall>y. y \<notin> ev_event_id ` set es \<longrightarrow> find_event (w_db w') y = find_event (w_db w) y) \<and>
     (\<exists>ds. dead_letters (w_db w') = dead_letters (w_db w) @ ds \<and>
        list_all2 (given_up_letter (up_customer_id cfg))
          (filter (\<lambda>e. \<not> ev_attempt_count e < up_max_row_attempts cfg) es) ds)"

definition handed_out :: "uploader_config \<Rightarrow> time \<Rightarrow> event list \<Rightarrow> Claimed list" where
  "handed_out cfg now es = map (\<lambda>e. claimed_item (up_customer_id cfg) (claimed_row now e))
     (filter (\<lambda>e. ev_attempt_count e < up_max_row_attempts cfg) es)"

text \<open>A selected row that the claim has marked and that the loop has not come to.\<close>

definition pending_item :: "uploader_config \<Rightarrow> time \<Rightarrow> store \<Rightarrow> event \<Rightarrow> bool" where
  "pending_item cfg now db e \<longleftrightarrow> find_event db (ev_event_id e) = Some (claimed_row now e) \<and>
     ev_conversion_action e \<noteq> None \<and> ev_conversion_time e \<noteq> None \<and>
     (up_max_row_attempts cfg \<le> ev_attempt_count e \<longrightarrow> ev_attempt_count e < 2 ^ 31)"

lemma claim_item_settles:
  assumes "pending_item cfg now (w_db w) e" and "store_fits (w_db w)"
  shows "\<exists>w'. claim_item cfg now (ev_event_id e) acc w = (Inr (acc @ handed_out cfg now [e]), w') \<and>
    items_settled cfg now [e] w w'"
proof (cases "ev_attempt_count e < up_max_row_attempts cfg")
  case True
  have "\<forall>r \<in> set [claimed_row now e]. find_event (w_db w) (ev_event_id r) = Some r \<and>
      ev_attempt_count r \<le> up_max_row_attempts cfg \<and> ev_conversion_action r \<noteq> None \<and> ev_conversion_time r \<noteq> None"
    using assms(1) True by (simp add: pending_item_def Suc_le_eq)
  from claim_items [OF this, of now acc] have "claim_item cfg now (ev_event_id e) acc w =
      (Inr (acc @ [claimed_item (up_customer_id cfg) (claimed_row now e)]), w)"
    by (simp only: list.map claimed_row_simps se_fold_single)
  with True assms show ?thesis
    by (intro exI [of _ w]) (simp add: items_settled_def handed_out_def settled_row_def pending_item_def)
next
  case False
  with assms(1) have row: "find_event (w_db w) (ev_event_id e) = Some (claimed_row now e)"
      "ev_conversion_action e \<noteq> None" "ev_conversion_time e \<noteq> None"
    and high: "up_max_row_attempts cfg \<le> ev_attempt_count e" "ev_attempt_count e < 2 ^ 31"
    by (simp_all add: pending_item_def)
  obtain w' d where "claim_item cfg now (ev_event_id e) acc w = (Inr acc, w')"
      "store_fits (w_db w')" "outside w' = outside w"
      "\<And>y. find_event (w_db w') y = (if y = ev_event_id e then Some (given_up_row now e) else find_event (w_db w) y)"
      "dead_letters (w_db w') = dead_letters (w_db w) @ [d]" "given_up_letter (up_customer_id cfg) e d"
    using give_up_item [OF row assms(2) high] by metis
  with False show ?thesis
    by (intro exI [of _ w']) (simp add: items_settled_def handed_out_def settled_row_def)
qed

lemma items_settled_append:
  assumes "items_settled cfg now es w w1" and "items_settled cfg now es' w1 w2"
    and "ev_event_id ` set es \<inter> ev_event_id ` set es' = {}"
  shows "items_settled cfg now (es @ es') w w2"
proof -
  obtain ds where ds: "dead_letters (w_db w1) = dead_letters (w_db w) @ ds"
      "list_all2 (given_up_letter (up_customer_id cfg))
        (filter (\<lambda>e. \<not> ev_attempt_count e < up_max_row_attempts cfg) es) ds"
    using assms(1) by (auto simp: items_settled_def)
  obtain ds' where ds': "dead_letters (w_db w2) = dead_letters (w_db w1) @ ds'"
      "list_all2 (given_up_letter (up_customer_id cfg))
        (filter (\<lambda>e. \<not> ev_attempt_count e < up_max_row_attempts cfg) es') ds'"
    using assms(2) by (auto simp: items_settled_def)
  have "find_event (w_db w2) (ev_event_id e) = Some (settled_row (up_max_row_attempts cfg) now e)"
    if "e \<in> set (es @ es')" for e
  proof (cases "e \<in> set es'")
    case False
    with that have e: "e \<in> set es" by simp
    with assms(3) have "ev_event_id e \<notin> ev_event_id ` set es'" by blast
    with e assms(1,2) show ?thesis unfolding items_settled_def by simp
  qed (use assms(2) in \<open>simp add: items_settled_def\<close>)
  moreover have "\<exists>ds. dead_letters (w_db w2) = dead_letters (w_db w) @ ds \<and>
      list_all2 (given_up_letter (up_customer_id cfg))
        (filter (\<lambda>e. \<not> ev_attempt_count e < up_max_row_attempts cfg) (es @ es')) ds"
    using ds(1) ds'(1) list_all2_appendI [OF ds(2) ds'(2)] by (intro exI [of _ "ds @ ds'"]) simp
  ultimately show ?thesis
    using assms(1,2) by (simp add: items_settled_def image_Un)
qed

lemma claim_items_settle:
  assumes "\<forall>e \<in> set es. pending_item cfg now (w_db w) e" and "distinct (map ev_event_id es)" and "store_fits (w_db w)"
  shows "\<exists>w'. se_fold (map ev_event_id es) (claim_item cfg now) acc w = (Inr (acc @ handed_out cfg now es), w') \<and>
    items_settled cfg now es w w'"
  using assms
proof (induction es arbitrary: acc w)
  case Nil
  then show ?case by (simp add: items_settled_def handed_out_def)
next
  case (Cons e es)
  have new: "ev_event_id e \<notin> ev_event_id ` set es" and distinct: "distinct (map ev_event_id es)"
    using Cons.prems(2) by simp_all
  obtain w1 where one: "claim_item cfg now (ev_event_id e) acc w = (Inr (acc @ handed_out cfg now [e]), w1)"
      "items_settled cfg now [e] w w1"
    using claim_item_settles [OF _ Cons.prems(3), of cfg now e acc] Cons.prems(1) by auto
  have "pending_item cfg now (w_db w1) a" if "a \<in> set es" for a
  proof -
    have "ev_event_id a \<noteq> ev_event_id e" using that new by (metis imageI)
    with one(2) Cons.prems(1) that show ?thesis by (simp add: items_settled_def pending_item_def)
  qed
  moreover have "store_fits (w_db w1)" using one(2) by (simp add: items_settled_def)
  ultimately obtain w' where "se_fold (map ev_event_id es) (claim_item cfg now) (acc @ handed_out cfg now [e]) w1 =
        (Inr ((acc @ handed_out cfg now [e]) @ handed_out cfg now es), w')" "items_settled cfg now es w1 w'"
    using Cons.IH [OF _ distinct] by metis
  moreover have "handed_out cfg now [e] @ handed_out cfg now es = handed_out cfg now (e # es)"
    by (simp add: handed_out_def)
  ultimately show ?case
    using one items_settled_append [OF one(2), of es w'] new by (intro exI [of _ w']) (simp add: se_bind_def)
qed

lemma letters_unchanged:
  "preserves (\<lambda>db. dead_letters db = ls) (transition x to reason now)"
  "preserves (\<lambda>db. dead_letters db = ls) (add_transition x from to reason now)"
  "preserves (\<lambda>db. dead_letters db = ls) (set_event x f)"
  by (auto simp: preserves_def transition_run add_transition_def set_event_def moved_def split: option.splits if_splits)

lemma claim_settles:
  assumes "reachable U P w"
    and "es = select_for_upload (w_db w) locked now limit (up_row_retry_after cfg) (up_stale_after cfg)"
    and "\<forall>e \<in> set es. up_max_row_attempts cfg \<le> ev_attempt_count e \<longrightarrow> ev_attempt_count e < 2 ^ 31"
  obtains w' where "claim cfg locked now limit w = (Inr (handed_out cfg now es), w')"
    and "reachable U P w'" and "items_settled cfg now es w w'"
proof -
  obtain db' where sel: "on_db (claim_for_upload locked now limit (up_row_retry_after cfg) (up_stale_after cfg)) w =
        (Inr (map ev_event_id es), w\<lparr>w_db := db'\<rparr>)"
      and found: "\<forall>x. find_event db' x = (if x \<in> ev_event_id ` set es
         then map_option (claimed_row now) (find_event (w_db w) x) else find_event (w_db w) x)"
      and fits: "store_fits db'" and ids: "distinct (map ev_event_id es)"
      and rows: "\<forall>e \<in> set es. find_event (w_db w) (ev_event_id e) = Some e \<and>
         find_event db' (ev_event_id e) = Some (claimed_row now e) \<and>
         ev_conversion_action e \<noteq> None \<and> ev_conversion_time e \<noteq> None"
    by (rule claim_selects [OF assms(1,2)])
  let ?w = "w\<lparr>w_db := db'\<rparr>"
  have kept: "preserves (\<lambda>db. dead_letters db = ls) (claim_for_upload locked now limit ra sa)" for ls ra sa
    unfolding claim_for_upload_def claim_row_def by (intro preserves_intro letters_unchanged)
  have letters: "dead_letters db' = dead_letters (w_db w)"
    using preservesD [OF preserves_on_db [OF kept] refl sel] by simp
  have "\<forall>e \<in> set es. pending_item cfg now (w_db ?w) e" using rows assms(3) by (simp add: pending_item_def)
  moreover have "store_fits (w_db ?w)" using fits by simp
  ultimately obtain w' where loop: "se_fold (map ev_event_id es) (claim_item cfg now) [] ?w =
        (Inr (handed_out cfg now es), w')" "items_settled cfg now es ?w w'"
    using claim_items_settle [OF _ ids, of cfg now ?w "[]"] by auto
  have run: "claim cfg locked now limit w = (Inr (handed_out cfg now es), w')"
    unfolding claim_def using sel loop
    by (intro transaction_commit) (simp_all add: se_bind_def items_settled_def)
  have "items_settled cfg now es w w'" using loop(2) found letters by (simp add: items_settled_def)
  then show ?thesis by (rule that [OF run reachable_step [OF assms(1) step.claim [OF run]]])
qed

text \<open>The parts of a settled claim, written out.\<close>

lemma items_settled_parts:
  assumes "items_settled cfg now es w w'"
  obtains ds where "\<forall>e \<in> set es. find_event (w_db w') (ev_event_id e) =
      Some (if ev_attempt_count e < up_max_row_attempts cfg then claimed_row now e
            else (claimed_row now e)\<lparr>ev_status := DEAD_LETTERED,
              ev_status_reason := Some (lit ''poison:row_attempt_ceiling:'' @ str_of_nat (ev_attempt_count e))\<rparr>)"
    and "\<forall>y. y \<notin> ev_event_id ` set es \<longrightarrow> find_event (w_db w') y = find_event (w_db w) y"
    and "dead_letters (w_db w') = dead_letters (w_db w) @ ds"
    and "list_all2 (given_up_letter (up_customer_id cfg))
      (filter (\<lambda>e. \<not> ev_attempt_count e < up_max_row_attempts cfg) es) ds"
  using assms unfolding items_settled_def settled_row_def given_up_row_def ceiling_reason_def by blast

lemma given_up_letters:
  assumes "list_all2 (given_up_letter customer) es ds"
  shows "map dl_event_id ds = map ev_event_id es"
    and "\<forall>d \<in> set ds. dl_failure_class d = failure_value POISON \<and> dl_replayed_at d = None"
  using assms by (induction rule: list_all2_induct) (simp_all add: given_up_letter_def)

lemma handed_out_ids:
  "map cl_event_id (handed_out cfg now es) =
     map ev_event_id (filter (\<lambda>e. ev_attempt_count e < up_max_row_attempts cfg) es)"
  by (simp add: handed_out_def claimed_item_def)

section \<open>The attempt count is what the log says\<close>

text \<open>How often a row went out since it was last queued, read off its lines.\<close>

definition sends :: "event_transition list \<Rightarrow> nat" where
  "sends ts = length (filter (\<lambda>t. tr_to_status t = UPLOADING) (takeWhile (\<lambda>t. tr_to_status t \<noteq> QUEUED) (rev ts)))"

definition attempts :: "store \<Rightarrow> pystr \<Rightarrow> nat" where
  "attempts db x = (case find_event db x of None \<Rightarrow> 0 | Some e \<Rightarrow> ev_attempt_count e)"

definition counted :: "store \<Rightarrow> bool" where
  "counted db \<longleftrightarrow> (\<forall>x. attempts db x = sends (list_transitions db x))"

lemma sends_append [simp]:
  "sends [] = 0"
  "sends (ts @ [t]) = (if tr_to_status t = QUEUED then 0 else if tr_to_status t = UPLOADING then Suc (sends ts) else sends ts)"
  by (simp_all add: sends_def)

lemma list_transitions_updates [simp]:
  "list_transitions (update_event x f db) y = list_transitions db y"
  "list_transitions (add_dead_letter d db) y = list_transitions db y"
  "list_transitions (update_dead_letter i g db) y = list_transitions db y"
  by (simp_all add: list_transitions_def)

lemma attempts_update:
  "(\<And>e. ev_event_id (f e) = ev_event_id e) \<Longrightarrow> (\<And>e. ev_attempt_count (f e) = ev_attempt_count e) \<Longrightarrow>
   attempts (update_event x f db) y = attempts db y"
  by (simp add: attempts_def find_event_update split: option.split)

lemma attempts_tables [simp]:
  "attempts (add_dead_letter d db) y = attempts db y"
  "attempts (update_dead_letter i g db) y = attempts db y"
  "attempts (db\<lparr>transitions := ts\<rparr>) y = attempts db y"
  by (simp_all add: attempts_def)

lemma attempts_moved: "attempts (moved e to reason now db) y = attempts db y"
  by (simp add: attempts_def find_event_moved split: option.split)

lemma counted_moved:
  "counted db \<Longrightarrow> to \<noteq> UPLOADING \<Longrightarrow> to = QUEUED \<longrightarrow> attempts db (ev_event_id e) = 0 \<Longrightarrow>
   counted (moved e to reason now db)"
  by (auto simp: counted_def attempts_moved list_transitions_moved)

text \<open>Going out: the line and the count are written together.\<close>

lemma counted_sent:
  assumes "counted db" and "find_event db x \<noteq> None" and "tr_to_status t = UPLOADING" and "tr_event_id t = x"
    and "transitions db' = transitions db @ [t]" and "\<And>y. attempts db' y = attempts db y"
    and "find_event db' x \<noteq> None"
  shows "counted (update_event x (\<lambda>e. e\<lparr>ev_attempt_count := ev_attempt_count e + 1, ev_last_attempt_at := a\<rparr>) db')"
proof -
  have log: "list_transitions db' y = list_transitions db y @ (if x = y then [t] else [])" for y
    using assms(4,5) by (simp add: list_transitions_def)
  have "attempts (update_event x (\<lambda>e. e\<lparr>ev_attempt_count := ev_attempt_count e + 1, ev_last_attempt_at := a\<rparr>) db') y =
      attempts db' y + (if y = x then 1 else 0)" for y
    using assms(7) by (auto simp: attempts_def find_event_update split: option.split)
  then show ?thesis
    using assms(1,3,6) by (simp add: counted_def log)
qed

lemma counted_created:
  assumes "counted db" and "find_event db (ev_event_id row) = None" and "ev_attempt_count row = 0"
  shows "counted (created row now db)"
proof -
  have "list_transitions (created row now db) x = list_transitions db x @
      (if ev_event_id row = x then [\<lparr>tr_event_id = ev_event_id row, tr_from_status = None,
        tr_to_status = RECEIVED, tr_reason = None, tr_occurred_at = now\<rparr>] else [])" for x
    by (simp add: created_def list_transitions_def)
  moreover have "attempts (created row now db) x = attempts db x" for x
    using assms(2,3) by (auto simp: attempts_def find_event_created)
  ultimately show ?thesis using assms(1) by (simp add: counted_def)
qed

lemma counted_recorded:
  assumes "counted db" and "find_event db (ev_event_id row) = None" and "ev_attempt_count row = 0"
  shows "counted (recorded row now db)"
proof -
  have none: "attempts (created (stored_row row) now db) (ev_event_id row) = 0"
    using assms(2,3) by (simp add: attempts_def find_event_created stored_row_def)
  have "counted (created (stored_row row) now db)"
    using assms by (intro counted_created) (simp_all add: stored_row_def)
  then show ?thesis
    unfolding recorded_def Let_def using none
    by (intro counted_moved) (simp_all add: attempts_moved stored_row_def)
qed

lemma counted_refused:
  assumes "counted db" and "find_event db (ev_event_id row) = None" and "ev_attempt_count row = 0"
  shows "counted (refused row reason now db)"
  unfolding refused_def using assms
  by (intro counted_moved counted_created) (simp_all add: stored_row_def)

lemma counted_replayed:
  assumes "counted db" and "find_event db (ev_event_id e) = Some e"
  shows "counted (replayed e i now db)"
  using assms
  by (auto simp: replayed_def counted_def list_transitions_moved attempts_def find_event_update find_event_moved
      split: option.split)

subsection \<open>Through the operations\<close>

lemma count_transition:
  "to \<noteq> UPLOADING \<Longrightarrow> to \<noteq> QUEUED \<Longrightarrow> preserves counted (transition x to reason now)"
  by (auto simp: preserves_def transition_run intro: counted_moved split: option.splits if_splits)

lemma count_set_event:
  "(\<And>e. ev_event_id (f e) = ev_event_id e) \<Longrightarrow> (\<And>e. ev_attempt_count (f e) = ev_attempt_count e) \<Longrightarrow>
   preserves counted (set_event x f)"
  by (auto simp: preserves_def set_event_def counted_def attempts_update)

lemma count_reads: "preserves counted (the_event x)" "preserves counted flush" "preserves counted (get_event x)"
  by (auto simp: preserves_def the_event_run flush_run get_event_def split: option.split)

lemma count_letter: "preserves counted (se_modify (add_dead_letter d))"
  by (auto simp: preserves_def counted_def)

lemma count_record:
  "preserves counted (record_validated event now)" "preserves counted (record_rejected eid source sid reason now)"
  by (auto simp: preserves_def record_validated_run record_rejected_run Let_def validated_row_def rejected_row_def
      intro!: counted_recorded counted_refused)

lemma count_processed: "preserves counted (record_processed x h now)"
  unfolding record_processed_def by (intro preserves_intro count_transition count_set_event) simp_all

lemma count_retry: "preserves counted (record_retry_attempt x reason now)"
proof (rule preservesI)
  fix db r db' assume c: "counted db" and run: "record_retry_attempt x reason now db = (r, db')"
  show "counted db'"
  proof (cases "find_event db x")
    case None
    with c run show ?thesis by (auto simp: record_retry_attempt_def se_bind_def transition_run)
  next
    case (Some e)
    show ?thesis
    proof (cases "FAILED_RETRYABLE \<in> ALLOWED_TRANSITIONS (ev_status e)")
      case False
      with Some c run show ?thesis by (auto simp: record_retry_attempt_def se_bind_def transition_run)
    next
      case True
      let ?e = "e\<lparr>ev_status := FAILED_RETRYABLE, ev_status_reason := Some reason\<rparr>"
      let ?db1 = "moved e FAILED_RETRYABLE (Some reason) now db"
      let ?db2 = "moved ?e UPLOADING None now ?db1"
      have id: "ev_event_id e = x" using Some by (rule find_event_id)
      have found1: "find_event ?db1 x = Some ?e" using Some id by (simp add: find_event_moved)
      have "record_retry_attempt x reason now db = (Inr (), update_event x
          (\<lambda>e. e\<lparr>ev_attempt_count := ev_attempt_count e + 1, ev_last_attempt_at := Some now\<rparr>) ?db2)"
        using transition_ok [OF Some True] transition_ok [OF found1, of UPLOADING None now]
        by (simp add: record_retry_attempt_def se_bind_def set_event_def)
      moreover have "counted (update_event x
          (\<lambda>e. e\<lparr>ev_attempt_count := ev_attempt_count e + 1, ev_last_attempt_at := Some now\<rparr>) ?db2)"
      proof (rule counted_sent [where db = ?db1])
        show "counted ?db1" using c by (intro counted_moved) simp_all
        show "transitions ?db2 = transitions ?db1 @ [\<lparr>tr_event_id = x, tr_from_status = Some FAILED_RETRYABLE,
            tr_to_status = UPLOADING, tr_reason = None, tr_occurred_at = now\<rparr>]"
          using id by (simp add: moved_def)
        show "find_event ?db2 x \<noteq> None" using Some id by (simp add: find_event_moved)
      qed (simp_all add: found1 attempts_moved)
      ultimately show ?thesis using run by simp
    qed
  qed
qed

text \<open>A claim looks at rows that exist, and no row ever goes.\<close>

lemma find_event_None_ids: "find_event db x = None \<longleftrightarrow> x \<notin> set (event_ids db)"
  by (auto simp: find_event_def event_ids_def find_None_iff)

lemma count_claim_row:
  assumes "ev_event_id e \<in> set xs"
  shows "preserves (\<lambda>db. counted db \<and> event_ids db = xs) (claim_row now e)"
proof (rule preservesI, intro conjI)
  fix db r db' assume inv: "counted db \<and> event_ids db = xs" and run: "claim_row now e db = (r, db')"
  have "preserves (\<lambda>db. event_ids db = xs) (claim_row now e)"
    unfolding claim_row_def by (intro preserves_intro ids.work) simp_all
  then show "event_ids db' = xs" using run inv by (blast dest: preservesD)
  let ?x = "ev_event_id e"
  have found: "find_event db ?x \<noteq> None" using assms inv by (simp add: find_event_None_ids)
  show "counted db'"
  proof (cases "ev_status e = UPLOADING")
    case True
    let ?t = "\<lparr>tr_event_id = ?x, tr_from_status = Some UPLOADING, tr_to_status = UPLOADING,
      tr_reason = Some (lit ''reclaimed_stale''), tr_occurred_at = now\<rparr>"
    have "db' = update_event ?x (\<lambda>e. e\<lparr>ev_attempt_count := ev_attempt_count e + 1, ev_last_attempt_at := Some now\<rparr>)
        (db\<lparr>transitions := transitions db @ [?t]\<rparr>)"
      using run True by (simp add: claim_row_def add_transition_def set_event_def se_bind_def)
    moreover have "counted (update_event ?x (\<lambda>e. e\<lparr>ev_attempt_count := ev_attempt_count e + 1, ev_last_attempt_at := Some now\<rparr>)
        (db\<lparr>transitions := transitions db @ [?t]\<rparr>))"
      using inv found by (intro counted_sent [where db = db and t = ?t]) simp_all
    ultimately show ?thesis by simp
  next
    case False
    obtain e' where e': "find_event db ?x = Some e'" using found by blast
    have id: "ev_event_id e' = ?x" using e' by (rule find_event_id)
    show ?thesis
    proof (cases "UPLOADING \<in> ALLOWED_TRANSITIONS (ev_status e')")
      case True
      have "db' = update_event ?x (\<lambda>e. e\<lparr>ev_attempt_count := ev_attempt_count e + 1, ev_last_attempt_at := Some now\<rparr>)
          (moved e' UPLOADING None now db)"
        using run False transition_ok [OF e' True, of None now] by (simp add: claim_row_def set_event_def se_bind_def)
      moreover have "counted (update_event ?x (\<lambda>e. e\<lparr>ev_attempt_count := ev_attempt_count e + 1, ev_last_attempt_at := Some now\<rparr>)
          (moved e' UPLOADING None now db))"
      proof (rule counted_sent [where db = db])
        show "transitions (moved e' UPLOADING None now db) = transitions db @ [\<lparr>tr_event_id = ?x,
            tr_from_status = Some (ev_status e'), tr_to_status = UPLOADING, tr_reason = None, tr_occurred_at = now\<rparr>]"
          using id by (simp add: moved_def)
        show "find_event (moved e' UPLOADING None now db) ?x \<noteq> None" using e' id by (simp add: find_event_moved)
      qed (use inv found in \<open>simp_all add: attempts_moved\<close>)
      ultimately show ?thesis by simp
    next
      case no: False
      with run False e' inv show ?thesis by (auto simp: claim_row_def se_bind_def transition_run)
    qed
  qed
qed

lemma preserves_foreach_in: "(\<And>x. x \<in> set xs \<Longrightarrow> preserves I (f x)) \<Longrightarrow> preserves I (se_foreach xs f)"
  by (induction xs) (auto intro!: preserves_intro)

lemma count_claim_for_upload: "preserves counted (claim_for_upload locked now limit ra sa)"
proof (rule preservesI)
  fix db r db' assume c: "counted db" and run: "claim_for_upload locked now limit ra sa db = (r, db')"
  let ?es = "select_for_upload db locked now limit ra sa" and ?xs = "event_ids db"
  have "ev_event_id e \<in> set ?xs" if "e \<in> set ?es" for e
    using select_for_upload_claimable [OF that] by (simp add: event_ids_def)
  then have "preserves (\<lambda>db. counted db \<and> event_ids db = ?xs) (se_foreach ?es (claim_row now))"
    by (intro preserves_foreach_in count_claim_row)
  moreover obtain r1 db1 where fe: "se_foreach ?es (claim_row now) db = (r1, db1)" by fastforce
  ultimately have "counted db1" using c by (blast dest: preservesD)
  moreover have "db' = db1" using run fe by (auto simp: claim_for_upload_def se_bind_def split: sum.splits)
  ultimately show "counted db'" by simp
qed

text \<open>The same in the world of the processes.\<close>

lemmas counts = preserves_session count_transition count_set_event count_reads count_letter
  count_record count_processed count_retry count_claim_for_upload

lemma count_dead_letter: "preserves (\<lambda>w. counted (w_db w)) (dead_letter x fc reason code msg payload now)"
  unfolding dead_letter_def by (intro preserves_intro counts) simp_all

lemma count_apply_rows: "preserves (\<lambda>w. counted (w_db w)) (apply_rows now loaded cs rs report)"
  by (induction now loaded cs rs report rule: apply_rows.induct)
    (auto simp: apply_row_def Let_def intro!: preserves_intro counts count_dead_letter)

lemma count_replay: "preserves (\<lambda>w. counted (w_db w)) (replay publish i now)"
proof (rule preservesI)
  fix w :: "('a, 'b) world_scheme" and r w'
  assume c: "counted (w_db w)" and run: "replay publish i now w = (r, w')"
  show "counted (w_db w')"
  proof (cases "find_dead_letter (w_db w) i")
    case None
    with c run show ?thesis by (auto simp: replay_def se_bind_def on_db_gets)
  next
    case (Some d)
    have "counted (replayed e i now (w_db w))" if "find_event (w_db w) x = Some e" for x e
      using c that find_event_id [OF that] by (intro counted_replayed) simp_all
    with c run show ?thesis
      by (auto simp: replay_run [OF Some] split: if_splits option.splits prod.splits sum.splits)
  qed
qed

lemma counts_through:
  "preserves (\<lambda>w. counted (w_db w)) (accept_event event now corr)"
  "preserves (\<lambda>w. counted (w_db w)) (reject src body sid errors now corr)"
  "preserves (\<lambda>w. counted (w_db w)) (process_message U P message now)"
  "preserves (\<lambda>w. counted (w_db w)) (claim cfg locked now limit)"
  "preserves (\<lambda>w. counted (w_db w)) (on_retry rclock ids exc attempt)"
  "preserves (\<lambda>w. counted (w_db w)) (apply_result batch result now)"
  "preserves (\<lambda>w. counted (w_db w)) (dead_letter_all batch fc reason code msg now)"
  "preserves (\<lambda>w. counted (w_db w)) (replay_candidate publish now i)"
  unfolding accept_event_def reject_def process_message_def claim_def claim_item_def on_retry_def
    load_events_def apply_result_def dead_letter_all_def replay_candidate_def Let_def
  by (intro preserves_intro counts count_dead_letter count_apply_rows count_replay; simp)+

lemma counted_webhook:
  "preserves (\<lambda>w. counted (w_db w)) (post_webhook U V cfg publish source th sh body clock now corr)"
  unfolding post_webhook_def ingest_body_def Let_def
  by (intro preserves_intro counts_through)

lemma counted_delivery: "preserves (\<lambda>w. counted (w_db w)) (handle_delivery U P ack nack d now)"
  unfolding handle_delivery_def by (intro preserves_intro preserves_in_transaction counts_through)

lemma counted_step: "step U P w w' \<Longrightarrow> counted (w_db w) \<Longrightarrow> counted (w_db w')"
  by (erule (1) step_keeps) (rule counted_webhook counted_delivery counts_through)+

lemma counted_reachable:
  assumes "reachable U P w"
  shows "counted (w_db w)"
proof -
  have "steps U P w0 w \<Longrightarrow> counted (w_db w0) \<Longrightarrow> counted (w_db w)" for w0
    by (induction rule: rtranclp_induct) (auto intro: counted_step)
  moreover have "counted empty_store"
    by (simp add: counted_def attempts_def list_transitions_def) (simp add: empty_store_def)
  ultimately show ?thesis using assms unfolding reachable_def by metis
qed

end
