(* ===== verification/Outage.thy ===== *)
theory Outage
  imports Backlog
begin

text \<open>
  Outages of the platform. A batch whose upload fails for a while with errors that are retried is sent
  in the end, each row once, if the platform comes back before the attempts run out and the retry
  engine does not run out of time; when it stays away, every row is dead-lettered and can be replayed.
\<close>

section \<open>The engine through an outage\<close>

text \<open>An engine that keeps the contract and gives up for want of attempts only.\<close>

definition patient :: "('s, 'a) engine \<Rightarrow> bool" where
  "patient tenacity \<longleftrightarrow> retry_contract tenacity \<and>
     (\<forall>args fn s e n s'. tenacity args fn s = (Inl (RetryError e n), s') \<longrightarrow> ra_stop_after_attempt args \<le> int n)"

text \<open>
  \<open>J k\<close> holds before attempt \<open>k\<close> and \<open>Q r k\<close> after it has failed with reason \<open>r\<close>; attempts
  before the \<open>n\<close>-th fail, and the callback accepts it.
\<close>

definition failing_run ::
  "('s, exn, 'a) se \<Rightarrow> (exn \<Rightarrow> nat \<Rightarrow> ('s, exn, unit) se) \<Rightarrow> (nat \<Rightarrow> bool) \<Rightarrow> (nat \<Rightarrow> 's \<Rightarrow> bool) \<Rightarrow>
   (pystr \<Rightarrow> nat \<Rightarrow> 's \<Rightarrow> bool) \<Rightarrow> bool" where
  "failing_run fn callback bad J Q \<longleftrightarrow>
     (\<forall>k s. J k s \<longrightarrow> bad k \<longrightarrow> (\<exists>r s1. fn s = (Inl (TransientUploadError r), s1) \<and> Q r k s1)) \<and>
     (\<forall>k r s1. Q r k s1 \<longrightarrow> bad k \<longrightarrow>
        (\<exists>s2. callback (TransientUploadError r) k s1 = (Inr (), s2) \<and> J (Suc k) s2))"

lemma failing_run_mono:
  "failing_run fn callback bad J Q \<Longrightarrow> (\<And>k. bad' k \<Longrightarrow> bad k) \<Longrightarrow> failing_run fn callback bad' J Q"
  unfolding failing_run_def by blast

lemma failing_runD:
  assumes "failing_run fn callback bad J Q" and "J k s" and "bad k"
  shows "\<exists>r s1 s2. fn s = (Inl (TransientUploadError r), s1) \<and> Q r k s1 \<and>
    callback (TransientUploadError r) k s1 = (Inr (), s2) \<and> J (Suc k) s2"
  using assms unfolding failing_run_def by metis

lemma retry_weathered:
  assumes "retry_run (retrying policy callback) fn k s r t"
    and "failing_run fn callback (\<lambda>k. k < n) J Q" and "\<And>s. J n s \<Longrightarrow> \<exists>x s'. fn s = (Inr x, s')"
    and "int n \<le> max_attempts policy"
    and "J k s" and "k \<le> n" and "\<forall>e m. r = Inl (RetryError e m) \<longrightarrow> max_attempts policy \<le> int m"
  shows "\<exists>s' x. J n s' \<and> fn s' = (Inr x, t) \<and> r = Inr x"
  using assms(1,5,6,7)
proof (induction rule: retry_run.induct)
  case (returned s x s' k)
  have "\<not> k < n" using failing_runD [OF assms(2) returned.prems(1)] returned.hyps by auto
  with returned have "J n s" by simp
  with returned.hyps show ?case by blast
next
  case (not_retried s e s' k)
  have "\<not> k < n" using failing_runD [OF assms(2) not_retried.prems(1)] not_retried.hyps by auto
  with not_retried.prems(1,2) have "J n s" by simp
  from assms(3) [OF this] not_retried.hyps(1) show ?case by auto
next
  case (gave_up s e s' k)
  have "max_attempts policy \<le> int k" using gave_up.prems(3) by simp
  with assms(4) gave_up.prems(2) have "k = n" by simp
  with gave_up.prems(1) have "J n s" by simp
  from assms(3) [OF this] gave_up.hyps(1) show ?case by auto
next
  case (callback_raised s e s1 k x s')
  have "\<not> k < n" using failing_runD [OF assms(2) callback_raised.prems(1)] callback_raised.hyps by auto
  with callback_raised.prems(1,2) have "J n s" by simp
  from assms(3) [OF this] callback_raised.hyps(1) show ?case by auto
next
  case (again s e s1 k s2 r s')
  show ?case
  proof (cases "k < n")
    case False
    with again.prems(1,2) have "J n s" by simp
    from assms(3) [OF this] again.hyps(1) show ?thesis by auto
  next
    case True
    with failing_runD [OF assms(2) again.prems(1)] again.hyps have "J (Suc k) s2" by auto
    with again.IH True again.prems(3) show ?thesis by simp
  qed
qed

lemma retry_outlasted:
  assumes "retry_run (retrying policy callback) fn k s r t"
    and "failing_run fn callback (\<lambda>k. int k \<le> max_attempts policy) J Q"
    and "J k s" and "int k \<le> max_attempts policy"
  shows "\<exists>reason n. r = Inl (RetryError (TransientUploadError reason) n) \<and> k \<le> n \<and> int n \<le> max_attempts policy \<and>
    Q reason n t"
  using assms(1,3,4)
proof (induction rule: retry_run.induct)
  case (again s e s1 k s2 r s')
  with failing_runD [OF assms(2) again.prems] have "J (Suc k) s2" by auto
  with again.IH again.hyps(3) obtain reason n where
      "r = Inl (RetryError (TransientUploadError reason) n) \<and> Suc k \<le> n \<and> int n \<le> max_attempts policy \<and> Q reason n s'"
    by auto
  then show ?case by (intro exI [of _ reason] exI [of _ n]) simp
next
  case (returned s x s' k)
  with failing_runD [OF assms(2) returned.prems] show ?case by auto
next
  case (not_retried s e s' k)
  with failing_runD [OF assms(2) not_retried.prems] show ?case by auto
next
  case (gave_up s e s' k)
  with failing_runD [OF assms(2) gave_up.prems] show ?case by auto
next
  case (callback_raised s e s1 k x s')
  with failing_runD [OF assms(2) callback_raised.prems] show ?case by auto
qed

text \<open>What \<open>call_with_retry\<close> makes of it.\<close>

lemma call_weathered:
  assumes "patient tenacity" and "failing_run fn callback (\<lambda>k. k < n) J Q"
    and "\<And>s. J n s \<Longrightarrow> \<exists>x s'. fn s = (Inr x, s')" and "int n \<le> max_attempts policy" and "J 1 s" and "1 \<le> n"
  obtains s' x t where "J n s'" and "fn s' = (Inr x, t)"
    and "call_with_retry tenacity policy fn callback s = (Inr x, t)"
proof -
  obtain r t where eng: "tenacity (retrying policy callback) fn s = (r, t)" by fastforce
  then have run: "retry_run (retrying policy callback) fn 1 s r t"
    using assms(1) unfolding patient_def retry_contract_def by blast
  have "\<forall>e m. r = Inl (RetryError e m) \<longrightarrow> max_attempts policy \<le> int m"
    using assms(1) eng unfolding patient_def by (metis retrying_simps(2))
  then obtain s' x where "J n s'" "fn s' = (Inr x, t)" "r = Inr x"
    using retry_weathered [where J = J and n = n, OF run assms(2-6)] by blast
  with eng show ?thesis by (intro that) (simp_all add: call_with_retry_def)
qed

lemma call_outlasted:
  assumes "retry_contract tenacity" and "failing_run fn callback (\<lambda>k. int k \<le> max_attempts policy) J Q"
    and "J 1 s" and "1 \<le> max_attempts policy"
  obtains reason n t where "1 \<le> n" and "int n \<le> max_attempts policy" and "Q reason n t"
    and "call_with_retry tenacity policy fn callback s = (Inl (PoisonUploadError reason n), t)"
proof -
  obtain r t where eng: "tenacity (retrying policy callback) fn s = (r, t)" by fastforce
  then have run: "retry_run (retrying policy callback) fn 1 s r t"
    using assms(1) unfolding retry_contract_def by blast
  obtain reason n where "r = Inl (RetryError (TransientUploadError reason) n)" "1 \<le> n"
      "int n \<le> max_attempts policy" "Q reason n t"
    using retry_outlasted [where J = J and Q = Q, OF run assms(2,3)] assms(4) by auto
  with eng show ?thesis by (intro that) (simp_all add: call_with_retry_def)
qed

section \<open>The batch through an outage\<close>

text \<open>What \<open>record_retry_attempt\<close> makes of an UPLOADING row.\<close>

definition retried_row :: "time \<Rightarrow> event \<Rightarrow> event" where
  "retried_row now e = e\<lparr>ev_status := UPLOADING, ev_status_reason := None,
     ev_attempt_count := ev_attempt_count e + 1, ev_last_attempt_at := Some now\<rparr>"

lemma record_retry_run:
  assumes "find_event db x = Some e" and "ev_status e = UPLOADING" and "store_fits db" and "length reason \<le> 512"
  obtains db' where "record_retry_attempt x reason now db = (Inr (), db')" and "store_fits db'"
    and "\<And>y. find_event db' y = (if y = x then Some (retried_row now e) else find_event db y)"
proof -
  let ?e = "e\<lparr>ev_status := FAILED_RETRYABLE, ev_status_reason := Some reason\<rparr>"
  let ?db1 = "moved e FAILED_RETRYABLE (Some reason) now db"
  let ?db2 = "moved ?e UPLOADING None now ?db1"
  let ?db3 = "update_event x (\<lambda>e. e\<lparr>ev_attempt_count := ev_attempt_count e + 1, ev_last_attempt_at := Some now\<rparr>) ?db2"
  have id: "ev_event_id e = x" using assms(1) by (rule find_event_id)
  have one: "transition x FAILED_RETRYABLE (Some reason) now db = (Inr (), ?db1)"
    using assms(1,2) by (intro transition_ok) simp_all
  have found1: "find_event ?db1 x = Some ?e" using assms(1) id by (simp add: find_event_moved)
  have two: "transition x UPLOADING None now ?db1 = (Inr (), ?db2)"
    using found1 by (intro transition_ok) simp_all
  have "store_fits ?db1" using assms id by (intro store_fits_moved) simp_all
  then have "store_fits ?db2" by (rule store_fits_moved) (use found1 id in simp_all)
  then have "store_fits ?db3" by (rule store_fits_attempt)
  moreover have "record_retry_attempt x reason now db = (Inr (), ?db3)"
    using one two by (simp add: record_retry_attempt_def se_bind_def set_event_def)
  moreover have "find_event ?db3 y = (if y = x then Some (retried_row now e) else find_event db y)" for y
    using assms(1) id by (simp add: find_event_update find_event_moved retried_row_def)
  ultimately show ?thesis by (intro that)
qed

text \<open>The rows \<open>ids\<close> have been attempted \<open>k\<close> more times than at \<open>w0\<close>; nothing else has changed.\<close>

definition retried :: "pystr set \<Rightarrow> nat \<Rightarrow> store \<Rightarrow> store \<Rightarrow> bool" where
  "retried ids k db0 db \<longleftrightarrow>
     (\<forall>x \<in> ids. \<exists>e0 e. find_event db0 x = Some e0 \<and> find_event db x = Some e \<and> ev_status e = UPLOADING \<and>
        ev_attempt_count e = ev_attempt_count e0 + k) \<and>
     (\<forall>y. y \<notin> ids \<longrightarrow> find_event db y = find_event db0 y)"

lemma retry_rows:
  assumes "distinct xs" and "store_fits db" and "length reason \<le> 512"
    and "\<forall>x \<in> set xs. \<exists>e. find_event db x = Some e \<and> ev_status e = UPLOADING"
  shows "\<exists>db'. se_foreach xs (\<lambda>x. record_retry_attempt x reason (clock x)) db = (Inr (), db') \<and> store_fits db' \<and>
    retried (set xs) 1 db db'"
  using assms
proof (induction xs arbitrary: db)
  case Nil
  then show ?case by (simp add: retried_def)
next
  case (Cons x xs)
  from Cons.prems(4) obtain e where e: "find_event db x = Some e" "ev_status e = UPLOADING" by auto
  obtain db1 where one: "record_retry_attempt x reason (clock x) db = (Inr (), db1)" "store_fits db1"
      "\<And>y. find_event db1 y = (if y = x then Some (retried_row (clock x) e) else find_event db y)"
    using record_retry_run [OF e Cons.prems(2,3)] by blast
  have "\<forall>y \<in> set xs. \<exists>e. find_event db1 y = Some e \<and> ev_status e = UPLOADING"
    using Cons.prems(1,4) one(3) by auto
  then obtain db' where rest: "se_foreach xs (\<lambda>x. record_retry_attempt x reason (clock x)) db1 = (Inr (), db')"
      "store_fits db'" "retried (set xs) 1 db1 db'"
    using Cons.IH [of db1] Cons.prems(1,3) one(2) by auto
  have "retried (set (x # xs)) 1 db db'"
    unfolding retried_def
  proof (intro conjI ballI allI impI)
    fix y assume y: "y \<in> set (x # xs)"
    show "\<exists>e0 e. find_event db y = Some e0 \<and> find_event db' y = Some e \<and> ev_status e = UPLOADING \<and>
        ev_attempt_count e = ev_attempt_count e0 + 1"
    proof (cases "y = x")
      case True
      then have "find_event db' y = Some (retried_row (clock x) e)"
        using rest(3) Cons.prems(1) one(3) [of x] by (simp add: retried_def)
      with True e(1) show ?thesis by (simp add: retried_row_def)
    next
      case False
      with y have "y \<in> set xs" by simp
      with rest(3) False one(3) [of y] show ?thesis unfolding retried_def by metis
    qed
  next
    fix y assume "y \<notin> set (x # xs)"
    with rest(3) one(3) [of y] show "find_event db' y = find_event db y" by (simp add: retried_def)
  qed
  with one(1) rest(1,2) show ?case by (intro exI [of _ db']) (simp add: se_bind_def)
qed

lemma retried_trans: "retried ids j db0 db1 \<Longrightarrow> retried ids k db1 db2 \<Longrightarrow> retried ids (j + k) db0 db2"
  unfolding retried_def by (intro conjI ballI allI impI) (metis add.assoc option.inject)+

lemma foreach_on_db: "se_foreach xs (\<lambda>x. on_db (f x)) w = on_db (se_foreach xs f) w"
proof (induction xs arbitrary: w)
  case Nil
  then show ?case by (simp add: on_db_def)
next
  case (Cons x xs)
  then show ?case by (auto simp: se_bind_def on_db_def split: prod.splits sum.splits)
qed

text \<open>The callback between two attempts.\<close>

lemma on_retry_run:
  assumes "reachable U P w" and "distinct ids" and "length reason \<le> 128"
    and "\<forall>x \<in> set ids. \<exists>e. find_event (w_db w) x = Some e \<and> ev_status e = UPLOADING"
  obtains db' where "on_retry clock ids (TransientUploadError reason) k w = (Inr (), w\<lparr>w_db := db'\<rparr>)"
    and "retried (set ids) 1 (w_db w) db'" and "reachable U P (w\<lparr>w_db := db'\<rparr>)"
proof -
  have "length (lit ''transient:'' @ reason) \<le> 512" using assms(3) by simp
  from retry_rows [OF assms(2) fits_reachable [OF assms(1)] this assms(4), of "clock k"]
  obtain db' where fe: "se_foreach ids (\<lambda>x. record_retry_attempt x (lit ''transient:'' @ reason) (clock k x)) (w_db w) =
        (Inr (), db')" "store_fits db'" "retried (set ids) 1 (w_db w) db'" by blast
  have "filter (\<lambda>x. find_event (w_db w) x \<noteq> None) ids = ids"
    using assms(4) by (auto simp: filter_id_conv)
  then have "load_events ids w = (Inr ids, w)" by (simp add: load_events_def on_db_gets)
  moreover have "on_db (se_foreach ids (\<lambda>x. record_retry_attempt x (lit ''transient:'' @ reason) (clock k x))) w =
      (Inr (), w\<lparr>w_db := db'\<rparr>)"
    using fe(1) by (rule on_db_run)
  ultimately have run: "on_retry clock ids (TransientUploadError reason) k w = (Inr (), w\<lparr>w_db := db'\<rparr>)"
    unfolding on_retry_def using fe(2)
    by (intro transaction_commit) (simp_all add: se_bind_def foreach_on_db)
  show ?thesis by (rule that [OF run fe(3) reachable_step [OF assms(1) step.retry [OF run]]])
qed

text \<open>An attempt that fails.\<close>

lemma timed_upload_failed:
  assumes "upload cs (u_platform w) = (Inl (TransientUploadError reason), p)"
  shows "\<exists>v. timed_upload monotonic upload cs w = (Inl (TransientUploadError reason), w\<lparr>u_platform := p,
    w_observed := (w_observed w)(upload_latency_seconds (lit ''transient'') :=
      w_observed w (upload_latency_seconds (lit ''transient'')) @ [v])\<rparr>)"
  using assms
  by (intro exI [of _ "monotonic p - monotonic (u_platform w)"])
    (simp add: timed_upload_def observe_latency_def se_bind_def se_try_def on_platform_def)

text \<open>Giving the whole batch up.\<close>

lemma dead_letter_rows:
  fixes w :: "('q, 'p) uploader_world"
  assumes "distinct xs" and "store_fits (w_db w)" and "length reason \<le> 512" and "length code \<le> 128"
    and "\<forall>x \<in> set xs. (\<exists>e. find_event (w_db w) x = Some e \<and> ev_status e = UPLOADING) \<and> by_id batch x \<noteq> None"
  shows "\<exists>w'. se_foreach xs (\<lambda>x. case by_id batch x of None \<Rightarrow> se_raise KeyError
      | Some c \<Rightarrow> dead_letter x fc reason (Some code) (Some msg) (cl_conversion c) now) w = (Inr (), w') \<and>
    store_fits (w_db w') \<and> outside w' = outside w \<and>
    (\<forall>y. find_event (w_db w') y = (if y \<in> set xs
       then map_option (\<lambda>e. e\<lparr>ev_status := DEAD_LETTERED, ev_status_reason := Some reason\<rparr>) (find_event (w_db w) y)
       else find_event (w_db w) y))"
  using assms
proof (induction xs arbitrary: w)
  case Nil
  then show ?case by simp
next
  case (Cons x xs)
  from Cons.prems(5) obtain e c where e: "find_event (w_db w) x = Some e" "ev_status e = UPLOADING" "by_id batch x = Some c"
    by auto
  have "DEAD_LETTERED \<in> ALLOWED_TRANSITIONS (ev_status e)" "fits 128 (Some code)"
    using e(2) Cons.prems(4) by simp_all
  then obtain w1 where one: "dead_letter x fc reason (Some code) (Some msg) (cl_conversion c) now w = (Inr (), w1)"
      "store_fits (w_db w1)" "w_db w1 = dead_lettered e fc reason (Some code) (Some msg) (cl_conversion c) now (w_db w)"
    using dead_letter_ok [OF e(1) _ Cons.prems(2,3)] by blast
  have out: "outside w1 = outside w" by (rule preservesD [OF outside_dead_letter refl one(1)])
  have found: "find_event (w_db w1) y = (if y = x
      then map_option (\<lambda>e. e\<lparr>ev_status := DEAD_LETTERED, ev_status_reason := Some reason\<rparr>) (find_event (w_db w) y)
      else find_event (w_db w) y)" for y
    using find_event_id [OF e(1)] by (simp add: one(3) find_event_dead_lettered)
  have "\<forall>y \<in> set xs. (\<exists>e. find_event (w_db w1) y = Some e \<and> ev_status e = UPLOADING) \<and> by_id batch y \<noteq> None"
    using Cons.prems(1,5) by (auto simp: found)
  then obtain w' where rest: "se_foreach xs (\<lambda>x. case by_id batch x of None \<Rightarrow> se_raise KeyError
      | Some c \<Rightarrow> dead_letter x fc reason (Some code) (Some msg) (cl_conversion c) now) w1 = (Inr (), w')"
      "store_fits (w_db w')" "outside w' = outside w1"
      "\<forall>y. find_event (w_db w') y = (if y \<in> set xs
         then map_option (\<lambda>e. e\<lparr>ev_status := DEAD_LETTERED, ev_status_reason := Some reason\<rparr>) (find_event (w_db w1) y)
         else find_event (w_db w1) y)"
    using Cons.IH [of w1] Cons.prems(1,3,4) one(2) by auto
  have "find_event (w_db w') y = (if y \<in> set (x # xs)
      then map_option (\<lambda>e. e\<lparr>ev_status := DEAD_LETTERED, ev_status_reason := Some reason\<rparr>) (find_event (w_db w) y)
      else find_event (w_db w) y)" for y
    using Cons.prems(1) spec [OF rest(4), of y] found [of y] by auto
  then show ?case
    using one(1) rest(1-3) out e(3) by (intro exI [of _ w']) (simp add: se_bind_def)
qed

lemma dead_letter_all_run:
  assumes "reachable U P w" and "length reason \<le> 512" and "length code \<le> 128"
    and "\<forall>c \<in> set batch. \<exists>e. find_event (w_db w) (cl_event_id c) = Some e \<and> ev_status e = UPLOADING"
  obtains w' where "dead_letter_all batch fc reason code msg now w =
      (Inr (no_report\<lparr>dead_lettered_count := length batch\<rparr>), w')"
    and "reachable U P w'" and "outside w' = outside w"
    and "\<forall>y. find_event (w_db w') y = (if y \<in> cl_event_id ` set batch
       then map_option (\<lambda>e. e\<lparr>ev_status := DEAD_LETTERED, ev_status_reason := Some reason\<rparr>) (find_event (w_db w) y)
       else find_event (w_db w) y)"
proof -
  let ?loaded = "filter (\<lambda>x. find_event (w_db w) x \<noteq> None) (by_id_keys batch)"
  have set: "set ?loaded = cl_event_id ` set batch" using assms(4) by auto
  have "distinct ?loaded" by (simp add: by_id_keys_def)
  moreover have "\<forall>x \<in> set ?loaded. (\<exists>e. find_event (w_db w) x = Some e \<and> ev_status e = UPLOADING) \<and> by_id batch x \<noteq> None"
  proof
    fix x assume "x \<in> set ?loaded"
    then have x: "x \<in> cl_event_id ` set batch" using set by blast
    then have "x \<in> fst ` set (rev (map (\<lambda>c. (cl_event_id c, c)) batch))" by force
    then have "by_id batch x \<noteq> None" by (simp only: by_id_def map_of_eq_None_iff) simp
    with x assms(4) show "(\<exists>e. find_event (w_db w) x = Some e \<and> ev_status e = UPLOADING) \<and> by_id batch x \<noteq> None" by blast
  qed
  ultimately obtain w' where loop: "se_foreach ?loaded (\<lambda>x. case by_id batch x of None \<Rightarrow> se_raise KeyError
      | Some c \<Rightarrow> dead_letter x fc reason (Some code) (Some msg) (cl_conversion c) now) w = (Inr (), w')"
      "store_fits (w_db w')" "outside w' = outside w"
      "\<forall>y. find_event (w_db w') y = (if y \<in> set ?loaded
         then map_option (\<lambda>e. e\<lparr>ev_status := DEAD_LETTERED, ev_status_reason := Some reason\<rparr>) (find_event (w_db w) y)
         else find_event (w_db w) y)"
    using dead_letter_rows [OF _ fits_reachable [OF assms(1)] assms(2,3)] by blast
  have run: "dead_letter_all batch fc reason code msg now w = (Inr (no_report\<lparr>dead_lettered_count := length batch\<rparr>), w')"
    using loop(1,2) by (simp add: dead_letter_all_def load_events_def on_db_gets se_bind_def transaction_def)
  show ?thesis
    using loop(3,4) unfolding set
    by (intro that [OF run reachable_step [OF assms(1) step.give_up [OF run]]])
qed

text \<open>The reason that a row is given up with.\<close>

definition poison_reason :: "pystr \<Rightarrow> nat \<Rightarrow> pystr" where
  "poison_reason reason k = lit ''poison:'' @ reason @ lit '':after_'' @ str_of_nat k @ lit ''_attempts''"

section \<open>A client that recovers\<close>

text \<open>
  \<open>failing n\<close>: the next \<open>n\<close> requests fail with an error that is retried, record nothing, and then the
  platform is in order again.
\<close>

locale recovering_client = accepting_client upload serving good received
  for upload :: "json list \<Rightarrow> ('p, exn, BatchResult) se" and serving :: "'p \<Rightarrow> bool"
    and good :: "json \<Rightarrow> bool" and received :: "'p \<Rightarrow> json list" +
  fixes failing :: "nat \<Rightarrow> 'p \<Rightarrow> bool"
  assumes upload_recovered: "failing 0 p \<Longrightarrow> serving p"
    and upload_failing: "failing (Suc n) p \<Longrightarrow> \<exists>reason p'. upload cs p = (Inl (TransientUploadError reason), p') \<and>
      failing n p' \<and> received p' = received p \<and> length reason \<le> 128"
begin

text \<open>In flight: \<open>k\<close> requests for the rows \<open>ids\<close> have failed since \<open>w0\<close>, and the callback has recorded \<open>j\<close> of them.\<close>

definition in_flight ::
  "ucd \<Rightarrow> 'n phonelib \<Rightarrow> ('q, 'p) uploader_world \<Rightarrow> pystr set \<Rightarrow> nat \<Rightarrow> nat \<Rightarrow> nat \<Rightarrow> ('q, 'p) uploader_world \<Rightarrow> bool" where
  "in_flight U P w0 ids n k j w \<longleftrightarrow>
     reachable U P w \<and> retried ids j (w_db w0) (w_db w) \<and> failing (n - k) (u_platform w) \<and>
     received (u_platform w) = received (u_platform w0) \<and> w_queue w = w_queue w0 \<and> u_batcher w = u_batcher w0"

lemma attempt_fails:
  assumes "in_flight U P w0 ids n k k w" and "k < n"
  obtains reason w1 where "timed_upload monotonic upload cs w = (Inl (TransientUploadError reason), w1)"
    and "in_flight U P w0 ids n (Suc k) k w1" and "length reason \<le> 128"
proof -
  have "failing (Suc (n - Suc k)) (u_platform w)" using assms by (simp add: in_flight_def Suc_diff_Suc)
  then obtain reason p where up: "upload cs (u_platform w) = (Inl (TransientUploadError reason), p)"
      "failing (n - Suc k) p" "received p = received (u_platform w)" "length reason \<le> 128"
    using upload_failing by blast
  obtain v where timed: "timed_upload monotonic upload cs w = (Inl (TransientUploadError reason), w\<lparr>u_platform := p,
      w_observed := (w_observed w)(upload_latency_seconds (lit ''transient'') :=
        w_observed w (upload_latency_seconds (lit ''transient'')) @ [v])\<rparr>)" (is "_ = (_, ?w1)")
    using timed_upload_failed [where upload = upload and w = w, OF up(1)] by blast
  have "reachable U P ?w1"
    by (rule reachable_step [OF _ step.elsewhere, of U P w]) (use assms(1) in \<open>simp_all add: in_flight_def\<close>)
  then have "in_flight U P w0 ids n (Suc k) k ?w1" using assms(1) up(2,3) by (simp add: in_flight_def)
  then show ?thesis using timed up(4) by (intro that)
qed

lemma attempt_recorded:
  assumes "in_flight U P w0 (set ids) n (Suc k) k w" and "distinct ids" and "length reason \<le> 128"
  obtains w2 where "on_retry clock ids (TransientUploadError reason) j w = (Inr (), w2)"
    and "in_flight U P w0 (set ids) n (Suc k) (Suc k) w2"
proof -
  have "\<forall>x \<in> set ids. \<exists>e. find_event (w_db w) x = Some e \<and> ev_status e = UPLOADING"
    using assms(1) unfolding in_flight_def retried_def by blast
  moreover have reach: "reachable U P w" using assms(1) by (simp add: in_flight_def)
  ultimately obtain db' where "on_retry clock ids (TransientUploadError reason) j w = (Inr (), w\<lparr>w_db := db'\<rparr>)"
      "retried (set ids) 1 (w_db w) db'" "reachable U P (w\<lparr>w_db := db'\<rparr>)"
    using on_retry_run [OF _ assms(2,3)] by blast
  then show ?thesis
    using assms(1) retried_trans [of "set ids" k "w_db w0" "w_db w" 1 db']
    by (intro that [of "w\<lparr>w_db := db'\<rparr>"]) (simp_all add: in_flight_def)
qed

lemma outage_run:
  fixes w0 :: "('q, 'p) uploader_world"
  assumes "distinct ids"
  shows "failing_run (timed_upload monotonic upload cs) (on_retry clock ids) (\<lambda>k. k \<le> n)
    (\<lambda>k w. 1 \<le> k \<and> in_flight U P w0 (set ids) n (k - 1) (k - 1) w)
    (\<lambda>reason k w. 1 \<le> k \<and> in_flight U P w0 (set ids) n k (k - 1) w \<and> length reason \<le> 128)"
  unfolding failing_run_def
proof (intro conjI allI impI)
  fix k and w :: "('q, 'p) uploader_world"
  assume J: "1 \<le> k \<and> in_flight U P w0 (set ids) n (k - 1) (k - 1) w" and "k \<le> n"
  then have k: "k - 1 < n" "Suc (k - 1) = k" by (cases k; simp)+
  show "\<exists>reason w1. timed_upload monotonic upload cs w = (Inl (TransientUploadError reason), w1) \<and>
      (1 \<le> k \<and> in_flight U P w0 (set ids) n k (k - 1) w1 \<and> length reason \<le> 128)"
    using attempt_fails [OF conjunct2 [OF J] k(1), where cs = cs and monotonic = monotonic] J k(2) by metis
next
  fix k and reason :: pystr and w1 :: "('q, 'p) uploader_world"
  assume Q: "1 \<le> k \<and> in_flight U P w0 (set ids) n k (k - 1) w1 \<and> length reason \<le> 128" and "k \<le> n"
  then obtain m where k: "k = Suc m" by (cases k) simp_all
  with Q have "in_flight U P w0 (set ids) n (Suc m) m w1" "length reason \<le> 128" by simp_all
  then show "\<exists>w2. on_retry clock ids (TransientUploadError reason) k w1 = (Inr (), w2) \<and>
      (1 \<le> Suc k \<and> in_flight U P w0 (set ids) n (Suc k - 1) (Suc k - 1) w2)"
    using attempt_recorded [OF _ assms, of U P w0 n m w1 reason clock k] k by auto
qed

lemma in_flight_start:
  assumes "reachable U P w" and "failing n (u_platform w)"
    and "\<forall>x \<in> ids. map_option ev_status (find_event (w_db w) x) = Some UPLOADING"
  shows "in_flight U P w ids n 0 0 w"
  using assms by (auto simp: in_flight_def retried_def)

text \<open>An attempt that the platform answers.\<close>

lemma attempt_answered:
  assumes "serving (u_platform v)" and "\<forall>c \<in> set batch. good (cl_conversion c)"
  obtains result v' where "timed_upload monotonic upload (map cl_conversion batch) v = (Inr result, v')"
    and "w_db v' = w_db v" and "w_queue v' = w_queue v" and "u_batcher v' = u_batcher v"
    and "received (u_platform v') = received (u_platform v) @ map cl_conversion batch"
    and "length (br_rows result) = length batch" and "codes_fit (br_rows result)"
    and "\<forall>i < length batch. row_target (br_rows result ! i) = UPLOADED"
proof -
  have ok: "\<forall>c \<in> set (map cl_conversion batch). good c" using assms(2) by simp
  obtain result p where up: "upload (map cl_conversion batch) (u_platform v) = (Inr result, p)" "serving p"
      "received p = received (u_platform v) @ map cl_conversion batch"
      "length (br_rows result) = length (map cl_conversion batch)" "codes_fit (br_rows result)"
      "\<forall>i < length (map cl_conversion batch). row_target (br_rows result ! i) = UPLOADED"
    by (rule accepted_batch [OF assms(1) ok])
  obtain x where "timed_upload monotonic upload (map cl_conversion batch) v = (Inr result, v\<lparr>u_platform := p,
      w_observed := (w_observed v)(upload_latency_seconds (lit ''ok'') :=
        w_observed v (upload_latency_seconds (lit ''ok'')) @ [x])\<rparr>)"
    using timed_upload_run [where upload = upload and w = v, OF up(1)] by blast
  from that [OF this] up show ?thesis by simp
qed

lemma all_uploaded_count:
  "\<forall>i < length rs. row_target (rs ! i) = UPLOADED \<Longrightarrow> uploaded (fold count_row rs report) = uploaded report + length rs"
proof (induction rs arbitrary: report)
  case (Cons r rs)
  from Cons.prems have "row_target r = UPLOADED" and rest: "\<forall>i < length rs. row_target (rs ! i) = UPLOADED"
    by (auto simp: nth_Cons split: nat.splits)
  then have "rr_ok r" by (simp add: row_target_def split: if_splits)
  with Cons.IH [OF rest] show ?case by (simp add: count_row_def)
qed simp

text \<open>The platform comes back in time: every row is uploaded, once.\<close>

lemma outage_ridden_out:
  fixes w :: "('q, 'p) uploader_world"
  assumes "patient tenacity" and "reachable U P w" and "failing n (u_platform w)"
    and "int n < max_attempts (up_policy cfg)" and "distinct (map cl_event_id batch)"
    and "\<forall>c \<in> set batch. map_option ev_status (find_event (w_db w) (cl_event_id c)) = Some UPLOADING"
    and "\<forall>c \<in> set batch. good (cl_conversion c)"
  obtains report w' where "upload_batch tenacity upload cfg clock batch now w = (Inr report, w')"
    and "reachable U P w'" and "uploaded report = length batch"
    and "\<forall>c \<in> set batch. \<exists>e0 e. find_event (w_db w) (cl_event_id c) = Some e0 \<and>
      find_event (w_db w') (cl_event_id c) = Some e \<and> ev_status e = UPLOADED \<and>
      ev_attempt_count e = ev_attempt_count e0 + n"
    and "\<forall>y. y \<notin> cl_event_id ` set batch \<longrightarrow> find_event (w_db w') y = find_event (w_db w) y"
    and "received (u_platform w') = received (u_platform w) @ map cl_conversion batch"
proof -
  let ?ids = "map cl_event_id batch" and ?cs = "map cl_conversion batch"
  let ?fn = "timed_upload (ck_monotonic clock) upload ?cs" and ?cb = "on_retry (ck_now clock) ?ids"
  let ?J = "\<lambda>k v. 1 \<le> k \<and> in_flight U P w (set ?ids) n (k - 1) (k - 1) v"
  have fails: "failing_run ?fn ?cb (\<lambda>k. k < Suc n) ?J
      (\<lambda>reason k v. 1 \<le> k \<and> in_flight U P w (set ?ids) n k (k - 1) v \<and> length reason \<le> 128)"
    using outage_run [OF assms(5), of "ck_monotonic clock" ?cs "ck_now clock" n U P w] by (simp add: less_Suc_eq_le)
  have again: "serving (u_platform v)" if "?J (Suc n) v" for v
    using that upload_recovered by (simp add: in_flight_def)
  have served: "\<exists>result v'. ?fn v = (Inr result, v')" if "?J (Suc n) v" for v
    using attempt_answered [OF again [OF that] assms(7), of "ck_monotonic clock"] by metis
  have start: "?J 1 w" using in_flight_start [OF assms(2,3), of "set ?ids"] assms(6) by simp
  have enough: "int (Suc n) \<le> max_attempts (up_policy cfg)" "1 \<le> Suc n" using assms(4) by simp_all
  obtain v result v' where v: "?J (Suc n) v" "?fn v = (Inr result, v')"
      and call: "call_with_retry tenacity (up_policy cfg) ?fn ?cb w = (Inr result, v')"
    by (rule call_weathered [where J = ?J and s = w, OF assms(1) fails served enough(1) start enough(2)])
  have res: "w_db v' = w_db v" "w_queue v' = w_queue v" "u_batcher v' = u_batcher v"
      "received (u_platform v') = received (u_platform v) @ ?cs" "length (br_rows result) = length batch"
      "codes_fit (br_rows result)" "\<forall>i < length batch. row_target (br_rows result ! i) = UPLOADED"
    using attempt_answered [OF again [OF v(1)] assms(7), of "ck_monotonic clock"] v(2) by (metis prod.inject sum.inject(2))+
  have flight: "reachable U P v" "retried (set ?ids) n (w_db w) (w_db v)"
      "received (u_platform v) = received (u_platform w)"
    using v(1) by (simp_all add: in_flight_def)
  have up: "\<forall>c \<in> set batch. map_option ev_status (find_event (w_db v') (cl_event_id c)) = Some UPLOADING"
    using flight(2) unfolding res(1) retried_def by fastforce
  have reach: "reachable U P v'" by (rule reachable_step [OF flight(1) step.elsewhere]) (rule res(1))
  obtain w' where w': "upload_batch tenacity upload cfg clock batch now w =
        (Inr (fold count_row (br_rows result) no_report), w')"
      "\<forall>i < length batch. map_option ev_status (find_event (w_db w') (cl_event_id (batch ! i))) =
        Some (row_target (br_rows result ! i))"
      "\<forall>y. y \<notin> cl_event_id ` set batch \<longrightarrow> find_event (w_db w') y = find_event (w_db v') y"
      "outside w' = outside v'" "reachable U P w'"
      "\<forall>x. map_option ev_attempt_count (find_event (w_db w') x) = map_option ev_attempt_count (find_event (w_db v') x)"
    by (rule upload_batch_settled [where now = now, OF call reach res(5) assms(5) up res(6)])
  have rows: "\<exists>e0 e. find_event (w_db w) (cl_event_id c) = Some e0 \<and> find_event (w_db w') (cl_event_id c) = Some e \<and>
      ev_status e = UPLOADED \<and> ev_attempt_count e = ev_attempt_count e0 + n" if c: "c \<in> set batch" for c
  proof -
    have "map_option ev_status (find_event (w_db w') (cl_event_id c)) = Some UPLOADED"
      using w'(2) res(7) c by (metis in_set_conv_nth)
    moreover obtain e0 e where "find_event (w_db w) (cl_event_id c) = Some e0" "find_event (w_db v) (cl_event_id c) = Some e"
        "ev_attempt_count e = ev_attempt_count e0 + n"
      using flight(2) c unfolding retried_def by fastforce
    ultimately show ?thesis using spec [OF w'(6), of "cl_event_id c"] res(1) by auto
  qed
  have "uploaded (fold count_row (br_rows result) no_report) = length batch"
    using all_uploaded_count [of "br_rows result" no_report] res(5,7) by (simp add: no_report_def)
  then show ?thesis
    using w' rows res flight by (intro that [of _ w']) (auto simp: retried_def outside_def)
qed

text \<open>The platform stays away: every row is given up, and the platform has got nothing.\<close>

lemma outage_outlasted:
  fixes w :: "('q, 'p) uploader_world"
  assumes "retry_contract tenacity" and "reachable U P w" and "failing n (u_platform w)"
    and "max_attempts (up_policy cfg) \<le> int n" and "1 \<le> max_attempts (up_policy cfg)"
    and "max_attempts (up_policy cfg) < 2 ^ 31" and "distinct (map cl_event_id batch)"
    and "\<forall>c \<in> set batch. map_option ev_status (find_event (w_db w) (cl_event_id c)) = Some UPLOADING"
  obtains reason k w' where "1 \<le> k" and "int k \<le> max_attempts (up_policy cfg)"
    and "upload_batch tenacity upload cfg clock batch now w =
      (Inr (no_report\<lparr>dead_lettered_count := length batch\<rparr>), w')"
    and "reachable U P w'"
    and "\<forall>c \<in> set batch. \<exists>e. find_event (w_db w') (cl_event_id c) = Some e \<and> ev_status e = DEAD_LETTERED \<and>
      ev_status_reason e = Some (poison_reason reason k)"
    and "\<forall>y. y \<notin> cl_event_id ` set batch \<longrightarrow> find_event (w_db w') y = find_event (w_db w) y"
    and "received (u_platform w') = received (u_platform w)"
proof -
  let ?ids = "map cl_event_id batch" and ?cs = "map cl_conversion batch"
  let ?fn = "timed_upload (ck_monotonic clock) upload ?cs" and ?cb = "on_retry (ck_now clock) ?ids"
  let ?J = "\<lambda>k v. 1 \<le> k \<and> in_flight U P w (set ?ids) n (k - 1) (k - 1) v"
  let ?Q = "\<lambda>reason k v. 1 \<le> k \<and> in_flight U P w (set ?ids) n k (k - 1) v \<and> length reason \<le> 128"
  have fails: "failing_run ?fn ?cb (\<lambda>k. int k \<le> max_attempts (up_policy cfg)) ?J ?Q"
    by (rule failing_run_mono [OF outage_run [OF assms(7)]]) (use assms(4) in simp)
  have start: "?J 1 w" using in_flight_start [OF assms(2,3), of "set ?ids"] assms(8) by simp
  obtain reason k v where k: "1 \<le> k" "int k \<le> max_attempts (up_policy cfg)" "?Q reason k v"
      and call: "call_with_retry tenacity (up_policy cfg) ?fn ?cb w = (Inl (PoisonUploadError reason k), v)"
    by (rule call_outlasted [where J = ?J and Q = ?Q and s = w, OF assms(1) fails start assms(5)])
  have v: "reachable U P v" "retried (set ?ids) (k - 1) (w_db w) (w_db v)"
      "received (u_platform v) = received (u_platform w)" and short: "length reason \<le> 128"
    using k(3) by (simp_all add: in_flight_def)
  have "k < 10 ^ Suc 9" using k(2) assms(6) by simp
  then have "length (str_of_nat k) \<le> Suc 9"
    unfolding str_of_nat_def by (rule length_digits_of_nat)
  then have fit: "length (poison_reason reason k) \<le> 512" using short by (simp add: poison_reason_def)
  have up: "\<forall>c \<in> set batch. \<exists>e. find_event (w_db v) (cl_event_id c) = Some e \<and> ev_status e = UPLOADING"
    using v(2) unfolding retried_def by fastforce
  obtain w' where w': "dead_letter_all batch POISON (poison_reason reason k) reason
        (lit ''gave up after '' @ str_of_nat k @ lit '' attempts; last error '' @ reason) now v =
        (Inr (no_report\<lparr>dead_lettered_count := length batch\<rparr>), w')"
      "reachable U P w'" "outside w' = outside v"
      "\<forall>y. find_event (w_db w') y = (if y \<in> cl_event_id ` set batch
         then map_option (\<lambda>e. e\<lparr>ev_status := DEAD_LETTERED, ev_status_reason := Some (poison_reason reason k)\<rparr>)
           (find_event (w_db v) y)
         else find_event (w_db v) y)"
    by (rule dead_letter_all_run [where now = now and fc = POISON, OF v(1) fit short up])
  have "upload_batch tenacity upload cfg clock batch now w =
      (Inr (no_report\<lparr>dead_lettered_count := length batch\<rparr>), w')"
    using call w'(1) by (simp add: upload_batch_def poison_reason_def)
  moreover have "\<exists>e. find_event (w_db w') (cl_event_id c) = Some e \<and> ev_status e = DEAD_LETTERED \<and>
      ev_status_reason e = Some (poison_reason reason k)" if "c \<in> set batch" for c
    using that up w'(4) by auto
  moreover have "find_event (w_db w') y = find_event (w_db w) y" if "y \<notin> cl_event_id ` set batch" for y
    using that w'(4) v(2) by (simp add: retried_def)
  moreover have "received (u_platform w') = received (u_platform w)"
    using w'(3) v(3) by (simp add: outside_def)
  ultimately show ?thesis using k(1,2) w'(2) by (intro that [of k w' reason]) simp_all
qed

end

section \<open>The mock platform in an outage\<close>

text \<open>The next \<open>n\<close> requests are answered with one of the injected statuses that are retried.\<close>

definition outage_modes :: "Mode set" where
  "outage_modes = {HTTP_429, HTTP_500, HTTP_503}"

definition mock_failing :: "pystr list \<Rightarrow> rat \<Rightarrow> nat \<Rightarrow> mock_state \<Rightarrow> bool" where
  "mock_failing known timeout n st \<longleftrightarrow>
     (if n = 0 then mock_serving known timeout st
      else 0 \<le> timeout \<and> ms_known_actions st = known \<and> ctl_mode (ms_control st) \<in> outage_modes \<and>
        ctl_times (ms_control st) = Some (int n))"

lemma mock_failing_step:
  assumes "mock_failing known timeout (Suc n) st"
  shows "\<exists>reason st'. http_upload py_repr (mock_post U py_repr timeout) cs st = (Inl (TransientUploadError reason), st') \<and>
    mock_failing known timeout n st' \<and> ms_uploads st' = ms_uploads st \<and> length reason \<le> 128"
proof -
  let ?st = "st\<lparr>ms_request_count := ms_request_count st + 1\<rparr>"
  let ?st' = "?st\<lparr>ms_control := (ms_control st)\<lparr>ctl_times := Some (int n)\<rparr>\<rparr>"
  have st: "0 \<le> timeout" "ms_known_actions st = known" "ctl_mode (ms_control st) \<in> outage_modes"
      "ctl_times (ms_control st) = Some (int (Suc n))"
    using assms by (simp_all add: mock_failing_def)
  have take: "take_control ?st = (ms_control st, ?st')" "fst (take_control st) = ms_control st"
    using st(4) by (simp_all add: take_control_def Let_def)
  have delay: "upload_delay st = 0" using st(3) take(2) by (auto simp: upload_delay_def Let_def outage_modes_def)
  obtain code where code: "mode_http_code (ctl_mode (ms_control st)) = Some code" "code \<in> {429, 500, 503}"
    using st(3) by (auto simp: outage_modes_def)
  obtain answer where "mock_upload U py_repr (Some (upload_request cs)) st = (Inr (code, Some answer), ?st')"
    using take(1) code(1) by (simp add: mock_upload_def)
  then have "mock_post U py_repr timeout (upload_request cs) st = (HttpResponse code (Some answer), ?st')"
    using delay st(1) by (simp add: mock_post_def)
  moreover have "classify_http_status code = TRANSIENT" using code(2) by (auto simp: classify_http_status_def TRANSIENT_STATUSES_def)
  ultimately have run: "http_upload py_repr (mock_post U py_repr timeout) cs st =
      (Inl (TransientUploadError (lit ''http_'' @ str_of_nat code)), ?st')"
    using code(2) by (auto simp: http_upload_def Let_def)
  have "length (str_of_nat code) \<le> Suc 2"
    unfolding str_of_nat_def using code(2) by (intro length_digits_of_nat) auto
  then have short: "length (lit ''http_'' @ str_of_nat code) \<le> 128" by simp
  have "mock_failing known timeout n ?st'"
    using st by (auto simp: mock_failing_def mock_serving_def take_control_def new_control_def Let_def)
  with run short show ?thesis
    by (intro exI [of _ "lit ''http_'' @ str_of_nat code"] exI [of _ ?st']) simp
qed

interpretation recovering: recovering_client
  "http_upload py_repr (mock_post U py_repr timeout)" "mock_serving known timeout"
  "\<lambda>c. validate_row U py_repr known c = Inr None" ms_uploads "mock_failing known timeout"
  for U :: ucd and py_repr :: "json \<Rightarrow> pystr" and timeout :: rat and known :: "pystr list"
  by unfold_locales (simp add: mock_failing_def, rule mock_failing_step)

end
