(* ===== verification/Pubsub.thy ===== *)
theory Pubsub
  imports Queue
begin

text \<open>
  \<open>gateway/queue/pubsub.py\<close>: the Pub/Sub transport. The Google client is the parameter
  \<open>pubsub_client\<close>; \<open>publish_contract\<close> and \<open>lease_contract\<close> are what the service documents of
  the calls that the code makes. Under it the transport keeps the queue contract of theory Queue.
\<close>

section \<open>The client library\<close>

record 'b received_message =
  rm_ack_id :: pystr
  rm_data :: 'b
  rm_delivery_attempt :: "nat option"

text \<open>\<open>'s\<close> is the state of the service, \<open>'f\<close> the future that \<open>publish\<close> returns.\<close>

record ('s, 'b, 'f) pubsub_client =
  topic_path :: "pystr \<Rightarrow> pystr \<Rightarrow> pystr"
  subscription_path :: "pystr \<Rightarrow> pystr \<Rightarrow> pystr"
  api_publish :: "pystr \<Rightarrow> 'b \<Rightarrow> ('s, exn, 'f) se"
  future_result :: "'f \<Rightarrow> rat \<Rightarrow> ('s, exn, unit) se"
  api_pull :: "pystr \<Rightarrow> nat \<Rightarrow> rat \<Rightarrow> ('s, exn, 'b received_message list) se"
  api_acknowledge :: "pystr \<Rightarrow> pystr list \<Rightarrow> ('s, exn, unit) se"
  api_modify_ack_deadline :: "pystr \<Rightarrow> pystr list \<Rightarrow> nat \<Rightarrow> ('s, exn, unit) se"
  api_create_topic :: "pystr \<Rightarrow> ('s, exn, unit) se"
  api_create_subscription :: "pystr \<Rightarrow> pystr \<Rightarrow> nat \<Rightarrow> ('s, exn, unit) se"

section \<open>pubsub.py\<close>

definition PUBLISH_TIMEOUT_SECONDS :: rat where
  "PUBLISH_TIMEOUT_SECONDS = 10"

definition pubsub_publish ::
  "('s, 'b, 'f) pubsub_client \<Rightarrow> 'b codec \<Rightarrow> pystr \<Rightarrow> pystr \<Rightarrow> QueueMessage \<Rightarrow> ('s, exn, unit) se" where
  "pubsub_publish client C project_id topic message =
     se_bind (api_publish client (topic_path client project_id topic) (to_bytes C message)) (\<lambda>future.
     future_result client future PUBLISH_TIMEOUT_SECONDS)"

text \<open>The list comprehension over \<open>response.received_messages\<close>; \<open>delivery_attempt or 1\<close>.\<close>

fun deliveries_of :: "'b codec \<Rightarrow> 'b received_message list \<Rightarrow> exn + Delivery list" where
  "deliveries_of C [] = Inr []"
| "deliveries_of C (received # rest) =
     (case from_bytes C (rm_data received) of
        None \<Rightarrow> Inl ValueError
      | Some message \<Rightarrow>
          (case deliveries_of C rest of
             Inl e \<Rightarrow> Inl e
           | Inr ds \<Rightarrow>
               Inr (\<lparr>d_ack_id = rm_ack_id received, d_message = message,
                     d_attempt = (case rm_delivery_attempt received of
                        None \<Rightarrow> 1 | Some n \<Rightarrow> if n = 0 then 1 else n)\<rparr> # ds)))"

definition pubsub_receive ::
  "('s, 'b, 'f) pubsub_client \<Rightarrow> 'b codec \<Rightarrow> pystr \<Rightarrow> pystr \<Rightarrow> rat \<Rightarrow> nat \<Rightarrow> ('s, exn, Delivery list) se" where
  "pubsub_receive client C project_id subscription timeout_seconds max_messages s =
     (case api_pull client (subscription_path client project_id subscription) max_messages timeout_seconds s of
        (Inl e, s') \<Rightarrow> if e = GoogleAPICallError DeadlineExceeded then (Inr [], s') else (Inl e, s')
      | (Inr received, s') \<Rightarrow> (deliveries_of C received, s'))"

definition pubsub_ack ::
  "('s, 'b, 'f) pubsub_client \<Rightarrow> pystr \<Rightarrow> pystr \<Rightarrow> Delivery \<Rightarrow> ('s, exn, unit) se" where
  "pubsub_ack client project_id subscription delivery =
     api_acknowledge client (subscription_path client project_id subscription) [d_ack_id delivery]"

definition pubsub_nack ::
  "('s, 'b, 'f) pubsub_client \<Rightarrow> pystr \<Rightarrow> pystr \<Rightarrow> Delivery \<Rightarrow> ('s, exn, unit) se" where
  "pubsub_nack client project_id subscription delivery =
     api_modify_ack_deadline client (subscription_path client project_id subscription) [d_ack_id delivery] 0"

text \<open>\<open>except gexc.AlreadyExists: pass\<close>\<close>

definition unless_exists :: "('s, exn, unit) se \<Rightarrow> ('s, exn, unit) se" where
  "unless_exists m =
     se_try m (\<lambda>e. if e = GoogleAPICallError AlreadyExists then se_return () else se_raise e)"

definition ensure_topic_and_subscription ::
  "('s, 'b, 'f) pubsub_client \<Rightarrow> pystr \<Rightarrow> pystr \<Rightarrow> pystr \<Rightarrow> ('s, exn, unit) se" where
  "ensure_topic_and_subscription client project_id topic subscription =
     (let topic_path' = topic_path client project_id topic;
          subscription_path' = subscription_path client project_id subscription
      in se_bind (unless_exists (api_create_topic client topic_path')) (\<lambda>_.
         unless_exists (api_create_subscription client subscription_path' topic_path' 60)))"

section \<open>What the service documents\<close>

text \<open>
  A view of the service, for one topic and one subscription to it: the data of every message that
  it has accepted and that was not acknowledged, and the data that is leased under an ack id. Ack
  deadlines are long enough: a lease lasts until its holder acknowledges it or gives it back.
\<close>

record ('s, 'b) pubsub_view =
  pv_ok :: "'s \<Rightarrow> bool"
  pv_backlog :: "'s \<Rightarrow> 'b multiset"
  pv_leased :: "'s \<Rightarrow> pystr \<Rightarrow> 'b option"

text \<open>
  A publish whose future returns has been accepted; one that fails or times out may have been. A
  pull leases at most as many messages as asked for, under different ack ids. Acknowledging ends
  the lease and removes the message; a deadline of zero ends the lease only.
\<close>

definition publish_contract :: "('s, 'b, 'f) pubsub_client \<Rightarrow> ('s, 'b) pubsub_view \<Rightarrow> pystr \<Rightarrow> bool" where
  "publish_contract client V topic \<longleftrightarrow>
     (\<forall>s data r s1. pv_ok V s \<longrightarrow> api_publish client topic data s = (r, s1) \<longrightarrow>
        (case r of
           Inl e \<Rightarrow> pv_ok V s1 \<and> pv_backlog V s1 \<in> {pv_backlog V s, add_mset data (pv_backlog V s)}
         | Inr future \<Rightarrow>
             (\<forall>t r' s2. future_result client future t s1 = (r', s2) \<longrightarrow> pv_ok V s2 \<and>
                (pv_backlog V s2 = add_mset data (pv_backlog V s) \<or>
                 r' \<noteq> Inr () \<and> pv_backlog V s2 = pv_backlog V s))))"

definition lease_contract :: "('s, 'b, 'f) pubsub_client \<Rightarrow> ('s, 'b) pubsub_view \<Rightarrow> pystr \<Rightarrow> bool" where
  "lease_contract client V sub \<longleftrightarrow>
     (\<forall>s n t r s'. pv_ok V s \<longrightarrow> api_pull client sub n t s = (r, s') \<longrightarrow>
        pv_ok V s' \<and> pv_backlog V s' = pv_backlog V s \<and>
        (\<forall>ms. r = Inr ms \<longrightarrow> length ms \<le> n \<and> distinct (map rm_ack_id ms) \<and>
           (\<forall>m \<in> set ms. pv_leased V s' (rm_ack_id m) = Some (rm_data m)))) \<and>
     (\<forall>s a data r s'. pv_ok V s \<longrightarrow> pv_leased V s a = Some data \<longrightarrow>
        api_acknowledge client sub [a] s = (r, s') \<longrightarrow>
        r = Inr () \<and> pv_ok V s' \<and> add_mset data (pv_backlog V s') = pv_backlog V s \<and>
        (\<forall>b. b \<noteq> a \<longrightarrow> pv_leased V s' b = pv_leased V s b)) \<and>
     (\<forall>s a data r s'. pv_ok V s \<longrightarrow> pv_leased V s a = Some data \<longrightarrow>
        api_modify_ack_deadline client sub [a] 0 s = (r, s') \<longrightarrow>
        r = Inr () \<and> pv_ok V s' \<and> pv_backlog V s' = pv_backlog V s \<and>
        (\<forall>b. b \<noteq> a \<longrightarrow> pv_leased V s' b = pv_leased V s b))"

section \<open>The transport keeps the queue contract\<close>

definition pubsub_unacked :: "'b codec \<Rightarrow> ('s, 'b) pubsub_view \<Rightarrow> 's \<Rightarrow> QueueMessage multiset" where
  "pubsub_unacked C V s = image_mset (\<lambda>data. the (from_bytes C data)) (pv_backlog V s)"

definition pubsub_holds :: "'b codec \<Rightarrow> ('s, 'b) pubsub_view \<Rightarrow> 's \<Rightarrow> Delivery \<Rightarrow> bool" where
  "pubsub_holds C V s d \<longleftrightarrow>
     (\<exists>data. pv_leased V s (d_ack_id d) = Some data \<and> from_bytes C data = Some (d_message d))"

lemma deliveries_of_Inr:
  "deliveries_of C ms = Inr ds \<Longrightarrow> map d_ack_id ds = map rm_ack_id ms \<and>
     (\<forall>d \<in> set ds. \<exists>m \<in> set ms. d_ack_id d = rm_ack_id m \<and> from_bytes C (rm_data m) = Some (d_message d))"
  by (induction ms arbitrary: ds) (auto split: option.splits sum.splits)

lemma pubsub_publish_cases:
  assumes "codec_ok C" and "publish_contract client V (topic_path client p t)" and "pv_ok V s"
    and "pubsub_publish client C p t m s = (r, s')"
  shows "pv_ok V s' \<and> (pubsub_unacked C V s' = add_mset m (pubsub_unacked C V s) \<or>
    r \<noteq> Inr () \<and> pubsub_unacked C V s' = pubsub_unacked C V s)"
proof -
  have m: "the (from_bytes C (to_bytes C m)) = m" using assms(1) by (simp add: codec_ok_def)
  obtain r1 s1 where one: "api_publish client (topic_path client p t) (to_bytes C m) s = (r1, s1)" by fastforce
  note contract = assms(2) [unfolded publish_contract_def, rule_format, OF assms(3) one]
  show ?thesis
  proof (cases r1)
    case (Inl e)
    with contract one assms(4) m show ?thesis
      by (auto simp: pubsub_publish_def se_bind_def pubsub_unacked_def)
  next
    case (Inr f)
    with one assms(4) have "future_result client f PUBLISH_TIMEOUT_SECONDS s1 = (r, s')"
      by (simp add: pubsub_publish_def se_bind_def)
    moreover have "\<forall>t r' s2. future_result client f t s1 = (r', s2) \<longrightarrow> pv_ok V s2 \<and>
        (pv_backlog V s2 = add_mset (to_bytes C m) (pv_backlog V s) \<or>
         r' \<noteq> Inr () \<and> pv_backlog V s2 = pv_backlog V s)"
      using contract Inr by simp
    ultimately have "pv_ok V s' \<and> (pv_backlog V s' = add_mset (to_bytes C m) (pv_backlog V s) \<or>
         r \<noteq> Inr () \<and> pv_backlog V s' = pv_backlog V s)" by blast
    with m show ?thesis by (auto simp: pubsub_unacked_def)
  qed
qed

lemma pubsub_receive_ok:
  assumes "lease_contract client V (subscription_path client p sub)" and "pv_ok V s"
    and "pubsub_receive client C p sub timeout n s = (r, s')"
  shows "pv_ok V s' \<and> pubsub_unacked C V s' = pubsub_unacked C V s \<and>
    (\<forall>ds. r = Inr ds \<longrightarrow> length ds \<le> n \<and> distinct (map d_ack_id ds) \<and> (\<forall>d \<in> set ds. pubsub_holds C V s' d))"
proof -
  obtain r1 where one: "api_pull client (subscription_path client p sub) n timeout s = (r1, s')"
      "r = (case r1 of Inl e \<Rightarrow> if e = GoogleAPICallError DeadlineExceeded then Inr [] else Inl e
                     | Inr ms \<Rightarrow> deliveries_of C ms)"
    using assms(3) by (auto simp: pubsub_receive_def split: prod.splits sum.splits if_splits)
  have pull: "pv_ok V s'" "pv_backlog V s' = pv_backlog V s"
      "\<And>ms. r1 = Inr ms \<Longrightarrow> length ms \<le> n \<and> distinct (map rm_ack_id ms) \<and>
         (\<forall>m \<in> set ms. pv_leased V s' (rm_ack_id m) = Some (rm_data m))"
    using assms(1,2) one(1) unfolding lease_contract_def by blast+
  have "length ds \<le> n \<and> distinct (map d_ack_id ds) \<and> (\<forall>d \<in> set ds. pubsub_holds C V s' d)" if "r = Inr ds" for ds
  proof (cases r1)
    case (Inl e)
    with that one(2) show ?thesis by (simp split: if_splits)
  next
    case (Inr ms)
    with that one(2) have ds: "deliveries_of C ms = Inr ds" by simp
    have "length ds = length ms" using deliveries_of_Inr [OF ds] by (metis length_map)
    with deliveries_of_Inr [OF ds] pull(3) [OF Inr] show ?thesis
      unfolding pubsub_holds_def by fastforce
  qed
  with pull show ?thesis by (simp add: pubsub_unacked_def)
qed

lemma pubsub_transport:
  assumes "codec_ok C" and "publish_contract client V (topic_path client p t)"
    and "lease_contract client V (subscription_path client p sub)"
  shows "queue_transport (pubsub_publish client C p t) (pubsub_receive client C p sub timeout)
    (pubsub_ack client p sub) (pubsub_nack client p sub) (pv_ok V) (pubsub_unacked C V) (pubsub_holds C V)"
proof (unfold_locales, goal_cases)
  case (1 q m r q')
  then show ?case using pubsub_publish_cases [OF assms(1,2)] by blast
next
  case (2 q m u q')
  then show ?case using pubsub_publish_cases [OF assms(1,2)] by fastforce
next
  case (3 q m e q')
  then show ?case using pubsub_publish_cases [OF assms(1,2)] by blast
next
  case (4 q n rs q')
  then show ?case using pubsub_receive_ok [OF assms(3)] by blast
next
  case (5 q n ds q')
  then show ?case using pubsub_receive_ok [OF assms(3)] by blast
next
  case (6 q d r q')
  then obtain data where d: "pv_leased V q (d_ack_id d) = Some data" "from_bytes C data = Some (d_message d)"
    by (auto simp: pubsub_holds_def)
  then have "r = Inr () \<and> pv_ok V q' \<and> add_mset data (pv_backlog V q') = pv_backlog V q"
    using 6 assms(3) unfolding lease_contract_def pubsub_ack_def by blast
  moreover from this have "pubsub_unacked C V q = add_mset (d_message d) (pubsub_unacked C V q')"
    using d(2) unfolding pubsub_unacked_def by (metis image_mset_add_mset option.sel)
  ultimately show ?case by simp
next
  case (7 q d r q')
  then obtain data where "pv_leased V q (d_ack_id d) = Some data" by (auto simp: pubsub_holds_def)
  then have "r = Inr () \<and> pv_ok V q' \<and> pv_backlog V q' = pv_backlog V q"
    using 7 assms(3) unfolding lease_contract_def pubsub_nack_def by blast
  then show ?case by (simp add: pubsub_unacked_def)
next
  case (8 q d c r q')
  then obtain data where "pv_leased V q (d_ack_id d) = Some data" by (auto simp: pubsub_holds_def)
  then have "pv_leased V q' (d_ack_id c) = pv_leased V q (d_ack_id c)"
    using 8 assms(3) unfolding lease_contract_def pubsub_ack_def pubsub_nack_def by metis
  with 8(3) show ?case by (simp add: pubsub_holds_def)
qed

section \<open>Provisioning is idempotent\<close>

text \<open>
  Creating a name that exists raises \<open>AlreadyExists\<close> and changes nothing; otherwise a success makes
  it exist. Nothing is removed.
\<close>

definition create_contract :: "('s \<Rightarrow> pystr \<Rightarrow> bool) \<Rightarrow> pystr \<Rightarrow> ('s, exn, unit) se \<Rightarrow> bool" where
  "create_contract present_in name create \<longleftrightarrow>
     (\<forall>s r s'. create s = (r, s') \<longrightarrow>
        (if present_in s name then r = Inl (GoogleAPICallError AlreadyExists) \<and> s' = s
         else r \<noteq> Inl (GoogleAPICallError AlreadyExists) \<and> (r = Inr () \<longrightarrow> present_in s' name)) \<and>
        (\<forall>n. present_in s n \<longrightarrow> present_in s' n))"

lemma unless_exists_done:
  assumes "create_contract present_in name create" and "unless_exists create s = (Inr (), s')"
  shows "present_in s' name" and "present_in s n \<Longrightarrow> present_in s' n"
proof -
  obtain r s1 where run: "create s = (r, s1)" by fastforce
  note contract = assms(1) [unfolded create_contract_def, rule_format, OF run]
  have "s1 = s' \<and> (r = Inr () \<or> r = Inl (GoogleAPICallError AlreadyExists))"
    using assms(2) run by (auto simp: unless_exists_def se_try_def split: sum.splits if_splits)
  with contract show "present_in s' name" "present_in s n \<Longrightarrow> present_in s' n"
    by (auto split: if_splits)
qed

lemma unless_exists_again:
  assumes "create_contract present_in name create" and "present_in s name"
  shows "unless_exists create s = (Inr (), s)"
proof -
  obtain r s1 where run: "create s = (r, s1)" by fastforce
  then have "r = Inl (GoogleAPICallError AlreadyExists)" "s1 = s"
    using assms unfolding create_contract_def by metis+
  with run show ?thesis by (simp add: unless_exists_def se_try_def)
qed

lemma ensure_idempotent:
  assumes "create_contract present_in (topic_path client p t) (api_create_topic client (topic_path client p t))"
    and "create_contract present_in (subscription_path client p sub)
      (api_create_subscription client (subscription_path client p sub) (topic_path client p t) 60)"
    and "ensure_topic_and_subscription client p t sub s = (Inr (), s')"
  shows "ensure_topic_and_subscription client p t sub s' = (Inr (), s')"
proof -
  obtain s1 where one: "unless_exists (api_create_topic client (topic_path client p t)) s = (Inr (), s1)"
      "unless_exists (api_create_subscription client (subscription_path client p sub)
         (topic_path client p t) 60) s1 = (Inr (), s')"
    using assms(3) by (auto simp: ensure_topic_and_subscription_def Let_def se_bind_def
        split: prod.splits sum.splits)
  have "present_in s' (topic_path client p t)" "present_in s' (subscription_path client p sub)"
    using unless_exists_done(1) [OF assms(1) one(1)] unless_exists_done [OF assms(2) one(2)] by blast+
  then show ?thesis
    using unless_exists_again [OF assms(1)] unless_exists_again [OF assms(2)]
    by (simp add: ensure_topic_and_subscription_def Let_def se_bind_def)
qed

end
