(* ===== verification/Commands.thy ===== *)
theory Commands
  imports Uploader Ingest Cli Pubsub Config
begin

text \<open>
  How the processes are put together: \<open>gateway/wiring.py\<close>, the policy of \<open>gateway/upload/backoff.py\<close>,
  the constructor of the uploader, and the typer layer of \<open>gateway/cli.py\<close> with its exit codes.
  \<open>Settings()\<close> is the argument \<open>settings\<close>, \<open>datetime.now(UTC)\<close> the argument \<open>now\<close>, and a loop that
  runs until a signal takes the number of its iterations.
\<close>

section \<open>wiring.py\<close>

text \<open>Both transports of a process; the module-level \<open>MemoryQueue\<close> and the Pub/Sub service.\<close>

record ('b, 's) transports =
  tp_memory :: "'b memory_queue"
  tp_service :: 's

definition on_memory :: "('b memory_queue, exn, 'a) se \<Rightarrow> (('b, 's) transports, exn, 'a) se" where
  "on_memory m q = (case m (tp_memory q) of (r, m') \<Rightarrow> (r, q\<lparr>tp_memory := m'\<rparr>))"

definition on_service :: "('s, exn, 'a) se \<Rightarrow> (('b, 's) transports, exn, 'a) se" where
  "on_service m q = (case m (tp_service q) of (r, s') \<Rightarrow> (r, q\<lparr>tp_service := s'\<rparr>))"

record 'q consumer =
  co_receive :: "rat \<Rightarrow> nat \<Rightarrow> ('q, exn, Delivery list) se"
  co_ack :: "Delivery \<Rightarrow> ('q, exn, unit) se"
  co_nack :: "Delivery \<Rightarrow> ('q, exn, unit) se"

definition make_publisher ::
  "'b codec \<Rightarrow> ('s, 'b, 'f) pubsub_client \<Rightarrow> Settings \<Rightarrow> QueueMessage \<Rightarrow> (('b, 's) transports, exn, unit) se" where
  "make_publisher C client settings message =
     (case queue_backend settings of
        MEMORY \<Rightarrow> on_memory (mq_publish C message)
      | PUBSUB \<Rightarrow> on_service (pubsub_publish client C (pubsub_project_id settings) (pubsub_topic settings) message))"

definition make_consumer ::
  "'b codec \<Rightarrow> (nat \<Rightarrow> pystr) \<Rightarrow> ('s, 'b, 'f) pubsub_client \<Rightarrow> Settings \<Rightarrow> ('b, 's) transports consumer" where
  "make_consumer C uuid client settings =
     (case queue_backend settings of
        MEMORY \<Rightarrow>
          \<lparr>co_receive = (\<lambda>timeout n. on_memory (mq_receive C uuid n)),
           co_ack = (\<lambda>d. on_memory (mq_ack d)), co_nack = (\<lambda>d. on_memory (mq_nack d))\<rparr>
      | PUBSUB \<Rightarrow>
          let project = pubsub_project_id settings; sub = pubsub_subscription settings
          in \<lparr>co_receive = (\<lambda>timeout n. on_service (pubsub_receive client C project sub timeout n)),
              co_ack = (\<lambda>d. on_service (pubsub_ack client project sub d)),
              co_nack = (\<lambda>d. on_service (pubsub_nack client project sub d))\<rparr>)"

section \<open>Processes\<close>

text \<open>The duration of a number of seconds; a deadline in fractional microseconds is met at the next one.\<close>

definition seconds_duration :: "rat \<Rightarrow> duration" where
  "seconds_duration s = \<lceil>s * 1000000\<rceil>"

record uploader_object =
  uo_config :: uploader_config
  uo_batcher :: "Claimed batcher"

definition new_uploader ::
  "RetryPolicy \<Rightarrow> pystr \<Rightarrow> int \<Rightarrow> rat \<Rightarrow> duration \<Rightarrow> duration \<Rightarrow> int \<Rightarrow> exn + uploader_object" where
  "new_uploader policy customer_id batch_size batch_wait_seconds row_retry_after stale_after max_row_attempts =
     (case new_batcher batch_size (seconds_duration batch_wait_seconds) of
        Inl e \<Rightarrow> Inl e
      | Inr b \<Rightarrow> Inr
          \<lparr>uo_config = \<lparr>up_policy = policy, up_customer_id = customer_id, up_row_retry_after = row_retry_after,
                        up_stale_after = stale_after, up_max_row_attempts = nat max_row_attempts\<rparr>,
           uo_batcher = b\<rparr>)"

definition policy_of :: "Settings \<Rightarrow> RetryPolicy" where
  "policy_of settings =
     \<lparr>max_attempts = upload_max_attempts settings,
      max_elapsed_seconds = upload_max_elapsed_seconds settings,
      backoff_base_seconds = upload_backoff_base_seconds settings,
      backoff_max_seconds = upload_backoff_max_seconds settings\<rparr>"

definition build_uploader :: "Settings \<Rightarrow> exn + uploader_object" where
  "build_uploader settings =
     new_uploader (policy_of settings) (ads_customer_id settings) (upload_batch_size settings)
       (upload_batch_wait_seconds settings)
       (upload_row_retry_after_seconds settings * second) (upload_stale_after_seconds settings * second)
       (upload_max_attempts settings)"

text \<open>\<open>serve_metrics\<close> starts the client library's HTTP server: the parameter \<open>serve\<close>.\<close>

definition run_worker ::
  "(int \<Rightarrow> ('q, 'm, unit) wse) \<Rightarrow> ucd \<Rightarrow> 'n phonelib \<Rightarrow> 'q consumer \<Rightarrow> Settings \<Rightarrow> (Delivery \<Rightarrow> time) \<Rightarrow> nat \<Rightarrow>
   ('q, 'm, unit) wse" where
  "run_worker serve U P consumer settings clock n =
     se_bind (serve (metrics_port settings)) (\<lambda>_.
     worker_run U P (co_receive consumer (worker_poll_timeout_seconds settings)) (co_ack consumer)
       (co_nack consumer) (nat (worker_batch_size settings)) clock n)"

text \<open>
  \<open>tenacity\<close> is the engine of theory Backoff, and \<open>post url token timeout\<close> is httpx's POST.
\<close>

definition run_uploader ::
  "(int \<Rightarrow> ('q, 'p, unit) use) \<Rightarrow> (('q, 'p) uploader_world, BatchResult) engine \<Rightarrow>
   (json \<Rightarrow> pystr) \<Rightarrow> (pystr \<Rightarrow> pystr \<Rightarrow> rat \<Rightarrow> json \<Rightarrow> 'p \<Rightarrow> http_result \<times> 'p) \<Rightarrow> Settings \<Rightarrow>
   (pystr set \<times> 'p clocks \<times> time) list \<Rightarrow> ('q, 'p, unit) use" where
  "run_uploader serve tenacity py_repr post settings cycles =
     se_bind (serve (metrics_port settings)) (\<lambda>_.
     case build_uploader settings of
       Inl e \<Rightarrow> se_raise e
     | Inr uploader \<Rightarrow>
         se_bind (se_modify (\<lambda>w. w\<lparr>u_batcher := uo_batcher uploader\<rparr>)) (\<lambda>_.
         uploader_run tenacity
           (http_upload py_repr (post (ads_api_base_url settings) (ads_api_token settings)
              (ads_api_timeout_seconds settings)))
           (uo_config uploader) cycles))"

text \<open>\<open>py_repr\<close> is Python's \<open>repr\<close>, as in theory Client.\<close>

definition queue_init ::
  "(json \<Rightarrow> pystr) \<Rightarrow> ('s, 'b, 'f) pubsub_client \<Rightarrow> Settings \<Rightarrow> (('b, 's) transports, 'm, unit) wse" where
  "queue_init py_repr client settings =
     (if queue_backend settings \<noteq> PUBSUB then
        out_write (lit ''queue backend is memory; nothing to create'' @ NEWLINE)
      else
        se_bind (on_queue (on_service (ensure_topic_and_subscription client (pubsub_project_id settings)
          (pubsub_topic settings) (pubsub_subscription settings)))) (\<lambda>_.
        out_write (lit ''topic '' @ py_repr (JStr (pubsub_topic settings)) @ lit '' and subscription '' @
          py_repr (JStr (pubsub_subscription settings)) @ lit '' ready'' @ NEWLINE)))"

section \<open>The typer layer\<close>

text \<open>A command ends with an exit code (0 when its function returns) or with an exception.\<close>

definition worker_cmd ::
  "(int \<Rightarrow> (('b, 's) transports, 'm, unit) wse) \<Rightarrow> ucd \<Rightarrow> 'n phonelib \<Rightarrow> 'b codec \<Rightarrow> (nat \<Rightarrow> pystr) \<Rightarrow>
   ('s, 'b, 'f) pubsub_client \<Rightarrow> Settings \<Rightarrow> (Delivery \<Rightarrow> time) \<Rightarrow> nat \<Rightarrow> (('b, 's) transports, 'm, nat) wse" where
  "worker_cmd serve U P C uuid client settings clock n =
     se_bind (run_worker serve U P (make_consumer C uuid client settings) settings clock n) (\<lambda>_. se_return 0)"

definition uploader_cmd ::
  "(int \<Rightarrow> ('q, 'p, unit) use) \<Rightarrow> (('q, 'p) uploader_world, BatchResult) engine \<Rightarrow>
   (json \<Rightarrow> pystr) \<Rightarrow> (pystr \<Rightarrow> pystr \<Rightarrow> rat \<Rightarrow> json \<Rightarrow> 'p \<Rightarrow> http_result \<times> 'p) \<Rightarrow> Settings \<Rightarrow>
   (pystr set \<times> 'p clocks \<times> time) list \<Rightarrow> ('q, 'p, nat) use" where
  "uploader_cmd serve tenacity py_repr post settings cycles =
     se_bind (run_uploader serve tenacity py_repr post settings cycles) (\<lambda>_. se_return 0)"

text \<open>\<open>older_than or settings.reconcile_stuck_after_seconds\<close>: zero is not an age.\<close>

definition reconcile_cmd ::
  "'b codec \<Rightarrow> ('s, 'b, 'f) pubsub_client \<Rightarrow> Settings \<Rightarrow> int option \<Rightarrow> bool \<Rightarrow> time \<Rightarrow>
   (('b, 's) transports, 'm, nat) wse" where
  "reconcile_cmd C client settings older_than republish now =
     se_bind
       (reconcile (make_publisher C client settings)
         (case older_than of
            None \<Rightarrow> reconcile_stuck_after_seconds settings
          | Some n \<Rightarrow> if n = 0 then reconcile_stuck_after_seconds settings else n)
         republish now)
       (\<lambda>found. se_return (if found \<noteq> 0 then 1 else 0))"

definition queue_init_cmd ::
  "(json \<Rightarrow> pystr) \<Rightarrow> ('s, 'b, 'f) pubsub_client \<Rightarrow> Settings \<Rightarrow> (('b, 's) transports, 'm, nat) wse" where
  "queue_init_cmd py_repr client settings = se_bind (queue_init py_repr client settings) (\<lambda>_. se_return 0)"

definition dlq_list_cmd ::
  "(time \<Rightarrow> int) \<Rightarrow> (pystr \<Rightarrow> datetime option) \<Rightarrow> filter_options \<Rightarrow> bool \<Rightarrow> ('q, 'm, nat) wse" where
  "dlq_list_cmd tz fromisoformat opts include_replayed =
     (case filter_of_options fromisoformat opts include_replayed of
        Inl e \<Rightarrow> se_raise e
      | Inr flt \<Rightarrow> se_bind (dlq_list tz flt) (\<lambda>_. se_return 0))"

definition dlq_show_cmd :: "(json \<Rightarrow> json) \<Rightarrow> (time \<Rightarrow> int) \<Rightarrow> nat \<Rightarrow> ('q, 'm, nat) wse" where
  "dlq_show_cmd stored tz dlq_id =
     se_bind (dlq_show stored tz dlq_id) (\<lambda>found. se_return (if found then 0 else 1))"

definition dlq_replay_cmd ::
  "'b codec \<Rightarrow> ('s, 'b, 'f) pubsub_client \<Rightarrow> Settings \<Rightarrow> (pystr \<Rightarrow> datetime option) \<Rightarrow> nat option \<Rightarrow>
   filter_options \<Rightarrow> time \<Rightarrow> (('b, 's) transports, 'm, nat) wse" where
  "dlq_replay_cmd C client settings fromisoformat dlq_id opts now =
     (if dlq_replay_refused dlq_id opts then se_return 2
      else
        case filter_of_options fromisoformat opts False of
          Inl e \<Rightarrow> se_raise e
        | Inr flt \<Rightarrow>
            se_bind (dlq_replay (make_publisher C client settings) flt dlq_id now) (\<lambda>_. se_return 0))"

section \<open>api/app.py\<close>

text \<open>What \<open>create_app\<close> stores on \<open>app.state\<close>; the session factory is the world's database.\<close>

record 'q app_state =
  app_settings :: Settings
  app_publisher :: "QueueMessage \<Rightarrow> ('q, exn, unit) se"

definition create_app :: "Settings \<Rightarrow> (QueueMessage \<Rightarrow> ('q, exn, unit) se) \<Rightarrow> 'q app_state" where
  "create_app settings publisher = \<lparr>app_settings = settings, app_publisher = publisher\<rparr>"

definition create_app_from_env ::
  "'b codec \<Rightarrow> ('s, 'b, 'f) pubsub_client \<Rightarrow> Settings \<Rightarrow> ('b, 's) transports app_state" where
  "create_app_from_env C client settings = create_app settings (make_publisher C client settings)"

text \<open>The webhook route of an application.\<close>

definition app_webhook ::
  "ucd \<Rightarrow> parsers \<Rightarrow> 'q app_state \<Rightarrow> pystr \<Rightarrow> pystr option \<Rightarrow> pystr option \<Rightarrow> bytes \<Rightarrow> rat \<Rightarrow> time \<Rightarrow> pystr \<Rightarrow>
   ('q, 'm, response) wse" where
  "app_webhook U V app = post_webhook U V (app_settings app) (app_publisher app)"

section \<open>Both transports keep the queue contract\<close>

definition backend_ok ::
  "'b codec \<Rightarrow> (nat \<Rightarrow> pystr) \<Rightarrow> ('s, 'b) pubsub_view \<Rightarrow> Settings \<Rightarrow> ('b, 's) transports \<Rightarrow> bool" where
  "backend_ok C uuid V settings q =
     (case queue_backend settings of MEMORY \<Rightarrow> mq_ok C uuid (tp_memory q) | PUBSUB \<Rightarrow> pv_ok V (tp_service q))"

definition backend_unacked ::
  "'b codec \<Rightarrow> ('s, 'b) pubsub_view \<Rightarrow> Settings \<Rightarrow> ('b, 's) transports \<Rightarrow> QueueMessage multiset" where
  "backend_unacked C V settings q =
     (case queue_backend settings of
        MEMORY \<Rightarrow> mq_unacked C (tp_memory q) | PUBSUB \<Rightarrow> pubsub_unacked C V (tp_service q))"

definition backend_holds ::
  "'b codec \<Rightarrow> ('s, 'b) pubsub_view \<Rightarrow> Settings \<Rightarrow> ('b, 's) transports \<Rightarrow> Delivery \<Rightarrow> bool" where
  "backend_holds C V settings q d =
     (case queue_backend settings of
        MEMORY \<Rightarrow> mq_holds C (tp_memory q) d | PUBSUB \<Rightarrow> pubsub_holds C V (tp_service q) d)"

text \<open>A transport inside a larger state is a transport.\<close>

lemma queue_transport_component:
  assumes "queue_transport publish receive ack nack ok unacked holds"
    and "\<And>(m :: ('t, exn, unit) se) q. up_unit m q = (case m (part q) of (r, t) \<Rightarrow> (r, put t q))"
    and "\<And>(m :: ('t, exn, Delivery list) se) q. up_list m q = (case m (part q) of (r, t) \<Rightarrow> (r, put t q))"
    and "\<And>t q. part (put t q) = t"
  shows "queue_transport (\<lambda>m. up_unit (publish m)) (\<lambda>n. up_list (receive n)) (\<lambda>d. up_unit (ack d))
    (\<lambda>d. up_unit (nack d)) (\<lambda>q. ok (part q)) (\<lambda>q. unacked (part q)) (\<lambda>q d. holds (part q) d)"
proof (unfold_locales, goal_cases)
  case (1 q m r q')
  then show ?case
    using queue_transport.publish_ok [OF assms(1)] by (fastforce simp: assms(2-4) split: prod.splits)
next
  case (2 q m u q')
  then show ?case
    using queue_transport.publish_accepted [OF assms(1)] by (fastforce simp: assms(2-4) split: prod.splits)
next
  case (3 q m e q')
  then show ?case
    using queue_transport.publish_refused [OF assms(1)] by (fastforce simp: assms(2-4) split: prod.splits)
next
  case (4 q n rs q')
  then show ?case
    using queue_transport.receive_ok [OF assms(1)] by (fastforce simp: assms(2-4) split: prod.splits)
next
  case (5 q n ds q')
  then show ?case
    using queue_transport.receive_holds [OF assms(1)] by (fastforce simp: assms(2-4) split: prod.splits)
next
  case (6 q d r q')
  then show ?case
    using queue_transport.ack_done [OF assms(1)] by (fastforce simp: assms(2-4) split: prod.splits)
next
  case (7 q d r q')
  then show ?case
    using queue_transport.nack_done [OF assms(1)] by (fastforce simp: assms(2-4) split: prod.splits)
next
  case (8 q d c r q')
  then have "ack d (part q) = (r, part q') \<or> nack d (part q) = (r, part q')"
    by (auto simp: assms(2,4) split: prod.splits)
  with 8(1-4) show ?case using queue_transport.other_held [OF assms(1)] by blast
qed

theorem backend_transport:
  assumes "codec_ok C"
    and "publish_contract client V (topic_path client (pubsub_project_id settings) (pubsub_topic settings))"
    and "lease_contract client V
      (subscription_path client (pubsub_project_id settings) (pubsub_subscription settings))"
  shows "queue_transport (make_publisher C client settings)
    (co_receive (make_consumer C uuid client settings) timeout) (co_ack (make_consumer C uuid client settings))
    (co_nack (make_consumer C uuid client settings)) (backend_ok C uuid V settings)
    (backend_unacked C V settings) (backend_holds C V settings)"
proof (cases "queue_backend settings")
  case MEMORY
  have "queue_transport (\<lambda>m. on_memory (mq_publish C m)) (\<lambda>n. on_memory (mq_receive C uuid n))
    (\<lambda>d. on_memory (mq_ack d)) (\<lambda>d. on_memory (mq_nack d)) (\<lambda>q :: ('a, 'b) transports. mq_ok C uuid (tp_memory q))
    (\<lambda>q. mq_unacked C (tp_memory q)) (\<lambda>q d. mq_holds C (tp_memory q) d)"
    by (rule queue_transport_component [OF memory.queue_transport_axioms,
          where put = "\<lambda>t q. q\<lparr>tp_memory := t\<rparr>"]) (simp_all add: on_memory_def)
  with MEMORY show ?thesis
    by (simp add: make_publisher_def [abs_def] make_consumer_def backend_ok_def [abs_def]
        backend_unacked_def [abs_def] backend_holds_def [abs_def])
next
  case PUBSUB
  let ?p = "pubsub_project_id settings" and ?sub = "pubsub_subscription settings"
  have "queue_transport (\<lambda>m. on_service (pubsub_publish client C ?p (pubsub_topic settings) m))
    (\<lambda>n. on_service (pubsub_receive client C ?p ?sub timeout n))
    (\<lambda>d. on_service (pubsub_ack client ?p ?sub d)) (\<lambda>d. on_service (pubsub_nack client ?p ?sub d))
    (\<lambda>q :: ('a, 'b) transports. pv_ok V (tp_service q))
    (\<lambda>q. pubsub_unacked C V (tp_service q)) (\<lambda>q d. pubsub_holds C V (tp_service q) d)"
    by (rule queue_transport_component [OF pubsub_transport [OF assms],
          where put = "\<lambda>t q. q\<lparr>tp_service := t\<rparr>"]) (simp_all add: on_service_def)
  with PUBSUB show ?thesis
    by (simp add: make_publisher_def [abs_def] make_consumer_def backend_ok_def [abs_def]
        backend_unacked_def [abs_def] backend_holds_def [abs_def] Let_def)
qed

section \<open>Exit codes\<close>

text \<open>Without an id and without a filter nothing is replayed.\<close>

lemma dlq_replay_cmd_refuses:
  "dlq_replay_refused dlq_id opts \<Longrightarrow>
   dlq_replay_cmd C client settings fromisoformat dlq_id opts now w = (Inr 2, w)"
  by (simp add: dlq_replay_cmd_def)

text \<open>With valid settings the uploader is constructed, with an empty batch.\<close>

lemma build_uploader_valid:
  assumes "settings_valid settings"
  shows "\<exists>u. build_uploader settings = Inr u \<and> batcher_ok (uo_batcher u) \<and> b_items (uo_batcher u) = [] \<and>
    0 < b_max_size (uo_batcher u) \<and> 1 \<le> up_max_row_attempts (uo_config u)"
  using assms
  by (auto simp: build_uploader_def new_uploader_def new_batcher_def settings_valid_def batcher_ok_def)

end
