(* ===== verification/Fake.thy ===== *)
theory Fake
  imports Client
begin

text \<open>
  \<open>gateway/upload/fake.py\<close>: the scripted upload client. Each call pops the next scripted outcome, a
  result or an exception, and records what was sent.
\<close>

record fake_client =
  fk_script :: "(exn + BatchResult) list"
  fk_calls :: "json list list"

definition new_fake_client :: "(exn + BatchResult) list \<Rightarrow> fake_client" where
  "new_fake_client script = \<lparr>fk_script = script, fk_calls = []\<rparr>"

definition ok_row :: "nat \<Rightarrow> RowResult" where
  "ok_row i = \<lparr>rr_index = i, rr_ok = True, rr_error_code = None, rr_message = None\<rparr>"

definition all_ok :: "nat \<Rightarrow> BatchResult" where
  "all_ok n = \<lparr>br_rows = map ok_row [0..<n]\<rparr>"

definition with_failures :: "nat \<Rightarrow> (nat \<rightharpoonup> pystr) \<Rightarrow> BatchResult" where
  "with_failures n failures =
     \<lparr>br_rows = map (\<lambda>i. case failures i of
        Some code \<Rightarrow> \<lparr>rr_index = i, rr_ok = False, rr_error_code = Some code,
                      rr_message = Some (lit ''row '' @ str_of_nat i)\<rparr>
      | None \<Rightarrow> ok_row i) [0..<n]\<rparr>"

definition fake_upload :: "json list \<Rightarrow> (fake_client, exn, BatchResult) se" where
  "fake_upload conversions c =
     (let c' = c\<lparr>fk_calls := fk_calls c @ [conversions]\<rparr>
      in case fk_script c of
           [] \<Rightarrow> (Inr (all_ok (length conversions)), c')
         | outcome # script \<Rightarrow> (outcome, c'\<lparr>fk_script := script\<rparr>))"

text \<open>\<open>row["orderId"]\<close> of every row of every call; a row without it raises \<open>KeyError\<close>.\<close>

definition sent_order_ids :: "fake_client \<Rightarrow> exn + json list list" where
  "sent_order_ids c =
     (if \<exists>call \<in> set (fk_calls c). \<exists>row \<in> set call. json_field ''orderId'' row = None then Inl KeyError
      else Inr (map (map (\<lambda>row. the (json_field ''orderId'' row))) (fk_calls c)))"

text \<open>The results that the script is written with line up with the rows that were sent.\<close>

lemma all_ok_index: "map rr_index (br_rows (all_ok n)) = [0..<n]"
  by (simp add: all_ok_def ok_row_def comp_def)

lemma with_failures_index: "map rr_index (br_rows (with_failures n failures)) = [0..<n]"
  by (rule nth_equalityI) (auto simp: with_failures_def ok_row_def split: option.split)

lemma fake_upload_unscripted:
  "fake_upload conversions (new_fake_client []) =
     (Inr (all_ok (length conversions)), \<lparr>fk_script = [], fk_calls = [conversions]\<rparr>)"
  by (simp add: fake_upload_def new_fake_client_def)

lemma failed_rows_with_failures:
  "map rr_index (failed_rows (with_failures n failures)) = filter (\<lambda>i. failures i \<noteq> None) [0..<n]"
proof -
  have "(\<not> rr_ok (case failures i of
        Some code \<Rightarrow> \<lparr>rr_index = i, rr_ok = False, rr_error_code = Some code,
                      rr_message = Some (lit ''row '' @ str_of_nat i)\<rparr>
      | None \<Rightarrow> ok_row i)) = (failures i \<noteq> None)" for i
    by (simp add: ok_row_def split: option.split)
  moreover have "rr_index (case failures i of
        Some code \<Rightarrow> \<lparr>rr_index = i, rr_ok = False, rr_error_code = Some code,
                      rr_message = Some (lit ''row '' @ str_of_nat i)\<rparr>
      | None \<Rightarrow> ok_row i) = i" for i
    by (simp add: ok_row_def split: option.split)
  ultimately show ?thesis
    by (simp add: failed_rows_def with_failures_def filter_map comp_def)
qed

end
