(* ===== verification/Redaction.thy ===== *)
theory Redaction
  imports Regex
begin

text \<open>
  \<open>gateway/observability/logging.py\<close>: the redaction processor on every log line. Python values
  are modelled as far as \<open>_scrub\<close> tells them apart; a value that it returns as it is (a number,
  \<open>None\<close>, a set, bytes, an exception) is \<open>POther\<close>. The main result is that no string of a
  scrubbed value contains a text that the e-mail or the phone pattern finds, and that a value
  under a sensitive key is gone. The structlog configuration itself is calls of the library.
\<close>

section \<open>Keys\<close>

definition SENSITIVE_KEYS :: "pystr list" where
  "SENSITIVE_KEYS = map lit
     [''email'', ''phone'', ''given_name'', ''family_name'', ''first_name'', ''last_name'', ''firstname'',
      ''lastname'', ''street'', ''address'', ''identifiers'', ''raw'', ''body'']"

definition SAFE_KEY_PREFIXES :: "pystr list" where
  "SAFE_KEY_PREFIXES = [lit ''hashed_'']"

definition key_is_sensitive :: "ucd \<Rightarrow> pystr \<Rightarrow> bool" where
  "key_is_sensitive U key =
     (let lowered = str_lower U key
      in if list_ex (str_startswith lowered) SAFE_KEY_PREFIXES then False
         else list_ex (str_contains lowered) SENSITIVE_KEYS)"

section \<open>Values\<close>

definition REDACTED :: pystr where
  "REDACTED = lit ''[REDACTED]''"

definition email_local :: "codepoint \<Rightarrow> bool" where
  "email_local c \<longleftrightarrow> ascii_alnum c \<or> c \<in> set (lit ''._%+-'')"

definition email_domain :: "codepoint \<Rightarrow> bool" where
  "email_domain c \<longleftrightarrow> ascii_alnum c \<or> c \<in> set (lit ''.-'')"

definition EMAIL :: regex where
  "EMAIL = \<lparr>rx_before = (\<lambda>_. True),
     rx_items = [at_least 1 email_local, once (\<lambda>c. c = 64), at_least 1 email_domain, once (\<lambda>c. c = 46),
                 at_least 2 ascii_isalpha],
     rx_after = (\<lambda>_. True)\<rparr>"

text \<open>\<open>[\d\s().\-]\<close>\<close>

definition phone_inner :: "ucd \<Rightarrow> codepoint \<Rightarrow> bool" where
  "phone_inner U c \<longleftrightarrow> decimal U c \<or> char_isspace U c \<or> c \<in> set (lit ''().-'')"

definition PHONE :: "ucd \<Rightarrow> regex" where
  "PHONE U = \<lparr>rx_before = (\<lambda>prev. case prev of None \<Rightarrow> True | Some c \<Rightarrow> \<not> hex_lower c),
     rx_items = [maybe (\<lambda>c. c = 43), once (decimal U), at_least 6 (phone_inner U), once (decimal U)],
     rx_after = (\<lambda>s. case s of [] \<Rightarrow> True | c # _ \<Rightarrow> \<not> hex_lower c)\<rparr>"

definition scrub_string :: "ucd \<Rightarrow> pystr \<Rightarrow> pystr" where
  "scrub_string U value =
     rx_sub (PHONE U) REDACTED None (rx_sub EMAIL REDACTED None value)"

datatype pykey =
    KStr pystr
  | KInt int

fun key_text :: "pykey \<Rightarrow> pystr" where
  "key_text (KStr s) = s"
| "key_text (KInt i) = str_of_int i"

text \<open>\<open>PModel\<close> is a pydantic model, by the dict that \<open>model_dump()\<close> makes of it.\<close>

datatype pyval =
    PStr pystr
  | PDict "(pykey \<times> pyval) list"
  | PList "pyval list"
  | PTuple "pyval list"
  | PModel "(pykey \<times> pyval) list"
  | POther int

fun scrub :: "ucd \<Rightarrow> pystr \<Rightarrow> pyval \<Rightarrow> pyval" where
  "scrub U key value =
     (if key \<noteq> [] \<and> key_is_sensitive U key then PStr REDACTED
      else case value of
             PStr s \<Rightarrow> PStr (scrub_string U s)
           | PDict kvs \<Rightarrow> PDict (map (\<lambda>(k, v). (k, scrub U (key_text k) v)) kvs)
           | PList vs \<Rightarrow> PList (map (scrub U []) vs)
           | PTuple vs \<Rightarrow> PList (map (scrub U []) vs)
           | PModel kvs \<Rightarrow> PDict (map (\<lambda>(k, v). (k, scrub U (key_text k) v)) kvs)
           | POther i \<Rightarrow> POther i)"

declare scrub.simps [simp del]

text \<open>The structlog processor; the message itself is under the key \<open>event\<close>.\<close>

definition redact_pii :: "ucd \<Rightarrow> (pystr \<times> pyval) list \<Rightarrow> (pystr \<times> pyval) list" where
  "redact_pii U event_dict =
     map (\<lambda>(key, value). (key, scrub U (if key \<noteq> lit ''event'' then key else []) value)) event_dict"

section \<open>The two patterns\<close>

lemma REDACTED_brackets: "REDACTED = 91 # lit ''REDACTED'' @ [93]"
  by (simp add: REDACTED_def lit_def)

lemma inner_upper: "c \<in> set (lit ''REDACTED'') \<Longrightarrow> 65 \<le> c \<and> c \<le> 84"
  by (auto simp: lit_def)

lemma EMAIL_words:
  "matches (rx_items EMAIL) t \<longleftrightarrow>
     (\<exists>l d a. t = l @ 64 # d @ 46 # a \<and> l \<noteq> [] \<and> d \<noteq> [] \<and> 2 \<le> length a \<and>
        (\<forall>c \<in> set l. email_local c) \<and> (\<forall>c \<in> set d. email_domain c) \<and> (\<forall>c \<in> set a. ascii_isalpha c))"
  by (fastforce simp: EMAIL_def matches_simps Suc_le_eq)

lemma email_chars:
  "\<not> email_local 91" "\<not> email_local 93" "\<not> email_domain 91" "\<not> email_domain 93"
  "\<not> ascii_isalpha 91" "\<not> ascii_isalpha 93"
  by (auto simp: email_local_def email_domain_def ascii_alnum_def ascii_isalpha_def is_digit_def lit_def)

lemma EMAIL_word_shape:
  assumes "matches (rx_items EMAIL) t"
  shows "2 \<le> length t \<and> 91 \<notin> set t \<and> 93 \<notin> set t \<and> \<not> set t \<subseteq> set (lit ''REDACTED'')"
proof -
  obtain l d a where t: "t = l @ 64 # d @ 46 # a" and c: "\<forall>c \<in> set l. email_local c"
      "\<forall>c \<in> set d. email_domain c" "\<forall>c \<in> set a. ascii_isalpha c"
    using assms unfolding EMAIL_words by blast
  have "64 \<notin> set (lit ''REDACTED'')" using inner_upper by fastforce
  moreover have "91 \<notin> set l" "93 \<notin> set l" "91 \<notin> set d" "93 \<notin> set d" "91 \<notin> set a" "93 \<notin> set a"
    using c email_chars by blast+
  ultimately show ?thesis using t by simp
qed

interpretation email: redacting EMAIL 91 "lit ''REDACTED''" 93
  by unfold_locales (simp_all add: EMAIL_word_shape, simp_all add: EMAIL_def)

abbreviation phone_digits :: "ucd \<Rightarrow> pattern" where
  "phone_digits U \<equiv> [once (decimal U), at_least 6 (phone_inner U), once (decimal U)]"

text \<open>A number without its plus.\<close>

definition phone_number :: "ucd \<Rightarrow> pystr \<Rightarrow> bool" where
  "phone_number U t \<longleftrightarrow> (\<exists>d i f. t = d # i @ [f] \<and> decimal U d \<and> decimal U f \<and> 6 \<le> length i \<and>
     (\<forall>c \<in> set i. phone_inner U c))"

lemma phone_digits_words: "matches (phone_digits U) t \<longleftrightarrow> phone_number U t"
proof -
  have "matches (phone_digits U) t \<longleftrightarrow> (\<exists>d b. t = d # b \<and> decimal U d \<and> (\<exists>i c. b = i @ c \<and>
      6 \<le> length i \<and> (\<forall>c \<in> set i. phone_inner U c) \<and> (\<exists>f. c = [f] \<and> decimal U f)))"
    by (simp add: matches_simps)
  also have "\<dots> \<longleftrightarrow> phone_number U t" unfolding phone_number_def by blast
  finally show ?thesis .
qed

lemma PHONE_words:
  "matches (rx_items (PHONE U)) t \<longleftrightarrow> phone_number U t \<or> (\<exists>t'. t = 43 # t' \<and> phone_number U t')"
  by (simp add: PHONE_def matches_maybe phone_digits_words)

lemma phone_chars: "phone_inner U c \<Longrightarrow> c < 128 \<Longrightarrow> c < 65 \<and> c \<noteq> 43"
  by (auto simp: phone_inner_def decimal_def char_decimal_def char_isspace_def ascii_isspace_def
      is_digit_def lit_def split: if_splits)

lemma decimal_inner: "decimal U c \<Longrightarrow> phone_inner U c"
  by (simp add: phone_inner_def)

lemma decimal_not_plus: "\<not> decimal U 43"
  by (simp add: decimal_def char_decimal_def is_digit_def)

lemma phone_number_chars: "phone_number U t \<Longrightarrow> c \<in> set t \<Longrightarrow> phone_inner U c"
  by (auto simp: phone_number_def decimal_inner)

lemma phone_number_hd: "phone_number U t \<Longrightarrow> \<exists>d t'. t = d # t' \<and> decimal U d \<and> d \<noteq> 43 \<and> t' \<noteq> []"
  using decimal_not_plus by (auto simp: phone_number_def)

lemma PHONE_word_shape:
  assumes "matches (rx_items (PHONE U)) t"
  shows "2 \<le> length t \<and> 91 \<notin> set t \<and> 93 \<notin> set t \<and> \<not> set t \<subseteq> set (lit ''REDACTED'')"
proof -
  obtain t' where t': "phone_number U t'" "t = t' \<or> t = 43 # t'"
    using assms unfolding PHONE_words by blast
  obtain d t'' where d: "t' = d # t''" "decimal U d" "t'' \<noteq> []" using phone_number_hd [OF t'(1)] by blast
  have "91 \<notin> set t'" "93 \<notin> set t'"
    using phone_number_chars [OF t'(1)] phone_chars [of U] by fastforce+
  moreover have "d \<notin> set (lit ''REDACTED'')"
    using phone_chars [OF decimal_inner [OF d(2)]] inner_upper by fastforce
  ultimately show ?thesis using t'(2) d by (cases t'') auto
qed

text \<open>Two numbers next to each other are one, unless the second starts with a plus.\<close>

lemma phone_number_join:
  assumes "phone_number U t" and "phone_number U m"
  shows "phone_number U (t @ m)"
proof -
  obtain d i f where t: "t = d # i @ [f]" "decimal U d" "decimal U f" "6 \<le> length i"
      "\<forall>c \<in> set i. phone_inner U c" using assms(1) unfolding phone_number_def by blast
  obtain e j g where m: "m = e # j @ [g]" "decimal U e" "decimal U g" "\<forall>c \<in> set j. phone_inner U c"
    using assms(2) unfolding phone_number_def by blast
  show ?thesis unfolding phone_number_def
    using t m by (intro exI [of _ d] exI [of _ "i @ f # e # j"] exI [of _ g]) (auto simp: decimal_inner)
qed

lemma PHONE_join:
  "matches (rx_items (PHONE U)) t \<Longrightarrow> phone_number U m \<Longrightarrow> matches (rx_items (PHONE U)) (t @ m)"
  unfolding PHONE_words using phone_number_join by fastforce

text \<open>The matcher takes the longest number.\<close>

lemma phone_digits_longest:
  assumes "match_at (phone_digits U) ok (t @ u) = Some n" and "phone_number U t" and "ok u"
  shows "length t \<le> n"
proof -
  obtain d i f where t: "t = d # i @ [f]" "decimal U d" "decimal U f" "6 \<le> length i"
      "\<forall>c \<in> set i. phone_inner U c" using assms(2) unfolding phone_number_def by blast
  let ?s = "i @ f # u"
  obtain n1 where n1: "n = Suc n1" "match_at [at_least 6 (phone_inner U), once (decimal U)] ok ?s = Some n1"
    using assms(1) t(1,2) by (auto simp: match_at_once)
  obtain k n' where k: "n1 = k + n'" "match_at [once (decimal U)] ok (drop k ?s) = Some n'"
      "\<forall>j. k < j \<longrightarrow> j \<le> length (takeWhile (phone_inner U) ?s) \<longrightarrow>
         match_at [once (decimal U)] ok (drop j ?s) = None"
    using match_at_at_least [OF n1(2)] by blast
  have "length i \<le> length (takeWhile (phone_inner U) ?s)" using t(5) by simp
  moreover have "match_at [once (decimal U)] ok (drop (length i) ?s) = Some 1"
    using t(3) assms(3) by (simp add: match_at_once)
  ultimately have "length i \<le> k" using k(3) by (metis not_le option.distinct(1))
  moreover have "n' = 1" using k(2) by (auto simp: match_at_once split: list.splits if_splits)
  ultimately show ?thesis using t(1) n1(1) k(1) by simp
qed

lemma PHONE_longest:
  assumes "match_at (rx_items (PHONE U)) ok (t @ u) = Some n" and "matches (rx_items (PHONE U)) t" and "ok u"
  shows "length t \<le> n"
proof -
  have at: "match_at (maybe (\<lambda>c. c = 43) # phone_digits U) ok (t @ u) = Some n"
    using assms(1) by (simp add: PHONE_def)
  have none: "match_at (phone_digits U) ok (43 # s) = None" for s
    by (simp add: match_at_once decimal_not_plus)
  from assms(2) consider "phone_number U t" | t' where "t = 43 # t'" "phone_number U t'"
    unfolding PHONE_words by blast
  then show ?thesis
  proof cases
    case 1
    then obtain d t'' where "t = d # t''" "d \<noteq> 43" using phone_number_hd by blast
    with at have "match_at (phone_digits U) ok (t @ u) = Some n" by (simp add: match_at_maybe)
    then show ?thesis using 1 assms(3) by (rule phone_digits_longest)
  next
    case 2
    with at none obtain n' where "match_at (phone_digits U) ok (t' @ u) = Some n'" "n = Suc n'"
      by (auto simp: match_at_maybe split: option.splits)
    with phone_digits_longest [OF this(1) 2(2) assms(3)] 2(1) show ?thesis by simp
  qed
qed

lemma hex_lower_after: "decimal U c \<Longrightarrow> hex_lower c \<Longrightarrow> is_digit c"
  by (auto simp: decimal_def char_decimal_def hex_lower_def split: if_splits)

interpretation phone: redacting "PHONE U" 91 "lit ''REDACTED''" 93 for U
proof (unfold_locales, goal_cases)
  case (1 t)
  then show ?case by (rule PHONE_word_shape)
next
  case (2 u v)
  then show ?case by (cases u; cases v) (simp_all add: PHONE_def)
next
  case (3 t m v)
  from 3(2) consider "phone_number U m" | m' where "m = 43 # m'" unfolding PHONE_words by blast
  then show ?case
  proof cases
    case 1
    then show ?thesis using PHONE_join 3(1) by blast
  next
    case 2
    then show ?thesis by (simp add: PHONE_def hex_lower_def is_digit_def)
  qed
next
  case (4 m t v)
  show ?case
  proof (cases "phone_number U t")
    case True
    have "match_at (rx_items (PHONE U)) (rx_after (PHONE U)) ((m @ t) @ v) = Some (length m)"
      using 4(1) by simp
    then have "length (m @ t) \<le> length m"
      using PHONE_join [OF 4(2) True] 4(4) by (rule PHONE_longest)
    then show ?thesis using phone_number_hd [OF True] by auto
  next
    case False
    then obtain t' where t': "t = 43 # t'" "phone_number U t'" using 4(3) unfolding PHONE_words by blast
    then have "matches (rx_items (PHONE U)) t'" unfolding PHONE_words by blast
    with t'(1) show ?thesis by (simp add: PHONE_def hex_lower_def is_digit_def)
  qed
qed

section \<open>What redaction guarantees\<close>

definition shows_pii :: "ucd \<Rightarrow> pystr \<Rightarrow> bool" where
  "shows_pii U s \<longleftrightarrow> rx_search EMAIL None s \<or> rx_search (PHONE U) None s"

lemma scrub_string_clean: "\<not> shows_pii U (scrub_string U s)"
proof -
  let ?s = "rx_sub EMAIL REDACTED None s"
  have before: "rx_before EMAIL = (\<lambda>_. True)" "rx_after EMAIL = (\<lambda>_. True)" by (simp_all add: EMAIL_def)
  have "\<not> rx_search EMAIL None ?s" unfolding REDACTED_brackets by (rule email.no_match_left)
  then have none: "?s \<noteq> a @ t @ u" if "matches (rx_items EMAIL) t" for a t u
    using that by (auto simp: rx_search_iff [OF before(1)] before(2))
  have "scrub_string U s \<noteq> a @ t @ u" if "matches (rx_items EMAIL) t" for a t u
    using word_in_output [of "PHONE U" 91 "lit ''REDACTED''" 93 None ?s a t u] EMAIL_word_shape [OF that] none [OF that]
    by (auto simp: scrub_string_def REDACTED_brackets)
  then have "\<not> rx_search EMAIL None (scrub_string U s)"
    by (auto simp: rx_search_iff [OF before(1)])
  moreover have "\<not> rx_search (PHONE U) None (scrub_string U s)"
    unfolding scrub_string_def REDACTED_brackets by (rule phone.no_match_left)
  ultimately show ?thesis by (simp add: shows_pii_def)
qed

lemma scrub_string_id: "\<not> shows_pii U s \<Longrightarrow> scrub_string U s = s"
  by (simp add: shows_pii_def scrub_string_def rx_sub_unmatched)

text \<open>A value that redaction is done with.\<close>

fun scrubbed :: "ucd \<Rightarrow> pystr \<Rightarrow> pyval \<Rightarrow> bool" where
  "scrubbed U key value \<longleftrightarrow>
     (if key \<noteq> [] \<and> key_is_sensitive U key then value = PStr REDACTED
      else case value of
             PStr s \<Rightarrow> \<not> shows_pii U s
           | PDict kvs \<Rightarrow> (\<forall>(k, v) \<in> set kvs. scrubbed U (key_text k) v)
           | PList vs \<Rightarrow> (\<forall>v \<in> set vs. scrubbed U [] v)
           | PTuple vs \<Rightarrow> False
           | PModel kvs \<Rightarrow> False
           | POther i \<Rightarrow> True)"

declare scrubbed.simps [simp del]

lemma scrubbed_scrub: "scrubbed U key (scrub U key x)"
proof (induction U key x rule: scrub.induct)
  case (1 U key x)
  show ?case
  proof (cases "key \<noteq> [] \<and> key_is_sensitive U key")
    case True
    then show ?thesis by (simp add: scrub.simps [of U key] scrubbed.simps [of U key])
  next
    case False
    with 1 show ?thesis
      by (subst scrub.simps) (subst scrubbed.simps, auto simp: scrub_string_clean split: pyval.split)
  qed
qed

lemma scrub_scrubbed: "scrubbed U key x \<Longrightarrow> scrub U key x = x"
proof (induction U key x rule: scrub.induct)
  case (1 U key x)
  show ?case
  proof (cases "key \<noteq> [] \<and> key_is_sensitive U key")
    case True
    with "1.prems" show ?thesis by (simp add: scrub.simps [of U key] scrubbed.simps [of U key])
  next
    case False
    show ?thesis
    proof (cases x)
      case (PStr s)
      with False "1.prems" show ?thesis
        by (auto simp: scrub.simps [of U key] scrubbed.simps [of U key] scrub_string_id split: if_splits)
    next
      case (PDict kvs)
      have "(\<lambda>(k, v). (k, scrub U (key_text k) v)) kv = kv" if kv: "kv \<in> set kvs" for kv
      proof -
        obtain k v where pair: "(k, v) = kv" by (metis surj_pair)
        have "scrubbed U (key_text k) v"
          using "1.prems" False PDict kv pair by (auto simp: scrubbed.simps [of U key] split: if_splits)
        then show ?thesis using "1.IH"(1) [OF False PDict kv pair] pair by auto
      qed
      with False PDict show ?thesis by (simp add: scrub.simps [of U key] map_idI)
    next
      case (PList vs)
      have "scrub U [] v = v" if "v \<in> set vs" for v
        using "1.IH"(2) [OF False PList that] "1.prems" False PList that
        by (auto simp: scrubbed.simps [of U key] split: if_splits)
      with False PList show ?thesis by (simp add: scrub.simps [of U key] map_idI)
    qed (use False "1.prems" in \<open>auto simp: scrub.simps [of U key] scrubbed.simps [of U key] split: if_splits\<close>)
  qed
qed

text \<open>
  A hexadecimal text with a letter, as a digest or a correlation id, is not taken for a phone
  number: the look-around forbids a match next to a hexadecimal character.
\<close>

lemma hex_text_kept:
  assumes "\<forall>c \<in> set s. hex_lower c" and "\<exists>c \<in> set s. \<not> is_digit c"
  shows "\<not> shows_pii U s"
proof -
  have "64 \<notin> set s" using assms(1) by (force simp: hex_lower_def is_digit_def)
  moreover have "rx_before EMAIL = (\<lambda>_. True)" by (simp add: EMAIL_def)
  ultimately have no_email: "\<not> rx_search EMAIL None s"
    by (auto simp: rx_search_iff EMAIL_words)
  have inside: "\<not> rx_search (PHONE U) (Some c) t" if "hex_lower c" "\<forall>c \<in> set t. hex_lower c" for c t
    using that
  proof (induction t arbitrary: c)
    case Nil
    then show ?case by (simp add: match_here_def PHONE_def)
  next
    case (Cons d t)
    then have "match_here (PHONE U) (Some c) (d # t) = None" by (simp add: match_here_def PHONE_def)
    with Cons show ?case by simp
  qed
  have "match_here (PHONE U) None s = None"
  proof (rule ccontr)
    assume "\<not> ?thesis"
    then obtain t u where s: "s = t @ u" and t: "matches (rx_items (PHONE U)) t" and u: "rx_after (PHONE U) u"
      unfolding match_here_None by blast
    have "u = []" using u s assms(1) by (cases u) (simp_all add: PHONE_def)
    then obtain c where c: "c \<in> set t" "\<not> is_digit c" "hex_lower c" using assms s by auto
    from t c(1) have "phone_inner U c \<or> c = 43" unfolding PHONE_words using phone_number_chars by auto
    with c(2,3) show False using phone_chars [of U c] by (auto simp: hex_lower_def is_digit_def)
  qed
  then have "\<not> rx_search (PHONE U) None s"
    using inside assms(1) by (cases s) simp_all
  with no_email show ?thesis by (simp add: shows_pii_def)
qed

section \<open>The processor chain\<close>

text \<open>
  \<open>configure_logging\<close>: the processors that structlog runs on the event dict, for the program's own
  lines (\<open>lc_processors\<close>) and for those of libraries (\<open>lc_foreign_pre_chain\<close>), and those of the
  formatter that renders the result. All but \<open>RedactPii\<close> are the library's: \<open>lib\<close> says what each
  makes of an event dict.
\<close>

datatype processor =
    MergeContextvars
  | AddLoggerName
  | AddLogLevel
  | TimeStamper
  | StackInfoRenderer
  | FormatExcInfo
  | RedactPii
  | WrapForFormatter
  | RemoveProcessorsMeta
  | JSONRenderer
  | ConsoleRenderer

record logging_config =
  lc_processors :: "processor list"
  lc_foreign_pre_chain :: "processor list"
  lc_formatter_processors :: "processor list"
  lc_root_level :: pystr
  lc_httpx_level :: pystr

definition shared_processors :: "processor list" where
  "shared_processors =
     [MergeContextvars, AddLoggerName, AddLogLevel, TimeStamper, StackInfoRenderer, FormatExcInfo, RedactPii]"

definition configure_logging :: "ucd \<Rightarrow> pystr \<Rightarrow> bool \<Rightarrow> logging_config" where
  "configure_logging U level json_output =
     \<lparr>lc_processors = shared_processors @ [WrapForFormatter],
      lc_foreign_pre_chain = shared_processors,
      lc_formatter_processors = [RemoveProcessorsMeta, if json_output then JSONRenderer else ConsoleRenderer],
      lc_root_level = str_upper U level,
      lc_httpx_level = lit ''WARNING''\<rparr>"

type_synonym event_dict = "(pystr \<times> pyval) list"

definition run_processor :: "(processor \<Rightarrow> event_dict \<Rightarrow> event_dict) \<Rightarrow> ucd \<Rightarrow> processor \<Rightarrow> event_dict \<Rightarrow> event_dict" where
  "run_processor lib U p d = (if p = RedactPii then redact_pii U d else lib p d)"

definition run_processors ::
  "(processor \<Rightarrow> event_dict \<Rightarrow> event_dict) \<Rightarrow> ucd \<Rightarrow> processor list \<Rightarrow> event_dict \<Rightarrow> event_dict" where
  "run_processors lib U ps d = fold (run_processor lib U) ps d"

definition clean_dict :: "ucd \<Rightarrow> event_dict \<Rightarrow> bool" where
  "clean_dict U d \<longleftrightarrow>
     (\<forall>(key, value) \<in> set d. scrubbed U (if key = lit ''event'' then [] else key) value)"

lemma redact_pii_clean: "clean_dict U (redact_pii U d)"
  by (auto simp: clean_dict_def redact_pii_def scrubbed_scrub)

lemma redact_pii_idem: "clean_dict U d \<Longrightarrow> redact_pii U d = d"
  by (fastforce simp: clean_dict_def redact_pii_def intro!: map_idI scrub_scrubbed split: if_splits)

lemma shared_chain_clean: "clean_dict U (run_processors lib U shared_processors d)"
  by (simp add: run_processors_def shared_processors_def run_processor_def redact_pii_clean)

end
