(* ===== verification/Seed.thy ===== *)
theory Seed
  imports Text Config
begin

text \<open>
  \<open>gateway/seed.py\<close>: the demo mix of webhooks, posted to a running gateway, and the table of where
  each event ended up. httpx is the parameter \<open>http_client\<close>, \<open>clock k\<close> is \<open>int(time.time())\<close> when
  request \<open>k\<close> is signed, and the number of polls that fit before the deadline is an argument.
\<close>

section \<open>Payloads\<close>

definition TERMINAL :: "pystr set" where
  "TERMINAL = {lit ''UPLOADED'', lit ''SUPPRESSED'', lit ''REJECTED'', lit ''DEAD_LETTERED''}"

record Seeded =
  sd_label :: pystr
  sd_source :: pystr
  sd_event_id :: "pystr option"
  sd_http_status :: nat
  sd_expected_status :: "pystr option"
  sd_why :: pystr

text \<open>\<open>d.update(changes)\<close>: a present key keeps its place, a new one goes to the end.\<close>

definition dict_update :: "(pystr \<times> json) list \<Rightarrow> (pystr \<times> json) list \<Rightarrow> (pystr \<times> json) list" where
  "dict_update d changes = fold (\<lambda>(k, v) d. AList.update k v d) changes d"

definition str_field :: "string \<Rightarrow> pystr \<Rightarrow> pystr \<times> json" where
  "str_field key value = (lit key, JStr value)"

definition salesforce_payload :: "pystr \<Rightarrow> (pystr \<times> json) list \<Rightarrow> (pystr \<times> json) list" where
  "salesforce_payload event_id lead =
     [str_field ''EventId'' event_id,
      str_field ''EventTime'' (lit ''2026-09-22T09:30:00Z''),
      str_field ''Conversion_Action__c'' (lit ''closed_won''),
      (lit ''Amount'', JNum 4800),
      str_field ''CurrencyIsoCode'' (lit ''USD''),
      (lit ''Lead'', JObj (dict_update
        [str_field ''Id'' (lit ''00Q5e00000DEMO1''),
         str_field ''Email'' (lit ''Priya.Natarajan+demo@Gmail.com''),
         str_field ''Phone'' (lit ''(415) 555-0142''),
         str_field ''FirstName'' (lit ''Priya''),
         str_field ''LastName'' (lit ''Natarajan''),
         str_field ''Street'' (lit ''500 Howard St., Suite 850''),
         str_field ''City'' (lit ''San Francisco''),
         str_field ''StateCode'' (lit ''CA''),
         str_field ''PostalCode'' (lit ''94105''),
         str_field ''CountryCode'' (lit ''US''),
         str_field ''GCLID__c'' (lit ''Cj0KCQjw-demo-click-id''),
         str_field ''Consent_Ad_User_Data__c'' (lit ''GRANTED''),
         str_field ''Consent_Ad_Personalization__c'' (lit ''GRANTED'')] lead))]"

definition hubspot_payload :: "int \<Rightarrow> (pystr \<times> json) list \<Rightarrow> (pystr \<times> json) list" where
  "hubspot_payload event_id props =
     [(lit ''eventId'', JInt event_id),
      (lit ''objectId'', JInt 7701),
      (lit ''occurredAt'', JInt 1790069400000),
      str_field ''conversionAction'' (lit ''qualified_lead''),
      (lit ''properties'', JObj (dict_update
        [str_field ''email'' (lit ''tom.okafor@outlook.com''),
         str_field ''phone'' (lit ''+44 20 7946 0958''),
         str_field ''firstname'' (lit ''Tom''),
         str_field ''lastname'' (lit ''Okafor''),
         str_field ''address'' (lit ''14 Rue de l'' @ [39, 201] @ lit ''glise''),
         str_field ''city'' (lit ''Lyon''),
         str_field ''state'' (lit ''ARA''),
         str_field ''zip'' (lit ''69001''),
         str_field ''country'' (lit ''FR''),
         str_field ''amount'' (lit ''950.00''),
         str_field ''deal_currency_code'' (lit ''EUR''),
         str_field ''ad_user_data_consent'' (lit ''GRANTED''),
         str_field ''ad_personalization_consent'' (lit ''GRANTED'')] props))]"

section \<open>Posting\<close>

text \<open>
  What the code reads of a response: its status, and the field \<open>event_id\<close> of its JSON body; of
  \<open>GET /events/{id}\<close>, the fields \<open>status\<close> and \<open>status_reason\<close>.
\<close>

record post_response =
  pr_status :: nat
  pr_event_id :: "pystr option"

record event_state =
  es_status :: "pystr option"
  es_status_reason :: "pystr option"

record request_headers =
  h_timestamp :: pystr
  h_signature :: pystr

record 's http_client =
  hc_post :: "pystr \<Rightarrow> bytes \<Rightarrow> request_headers \<Rightarrow> 's \<Rightarrow> post_response \<times> 's"
  hc_get :: "pystr \<Rightarrow> 's \<Rightarrow> event_state \<times> 's"

text \<open>The text of \<open>json.dumps\<close> is ASCII, so its UTF-8 bytes are its code points.\<close>

definition seed_request ::
  "pystr \<Rightarrow> nat \<Rightarrow> (pystr \<times> json) list \<Rightarrow> bool \<Rightarrow> exn + bytes \<times> request_headers" where
  "seed_request secret now payload bad_sig =
     (let body = json_compact (JObj payload);
          ts = str_of_nat now
      in case compute_signature (if bad_sig then lit ''wrong-secret'' else secret) ts body of
           Inl e \<Rightarrow> Inl e
         | Inr sig \<Rightarrow> Inr (body, \<lparr>h_timestamp = ts, h_signature = sig\<rparr>))"

definition seed_post ::
  "'s http_client \<Rightarrow> pystr \<Rightarrow> pystr \<Rightarrow> nat \<Rightarrow> (pystr \<times> json) list \<Rightarrow> bool \<Rightarrow> ('s, exn, post_response) se" where
  "seed_post client source secret now payload bad_sig s =
     (case seed_request secret now payload bad_sig of
        Inl e \<Rightarrow> (Inl e, s)
      | Inr (body, headers) \<Rightarrow>
          (case hc_post client (lit ''/webhooks/crm/'' @ source) body headers s of (r, s') \<Rightarrow> (Inr r, s')))"

definition seed_record ::
  "string \<Rightarrow> string \<Rightarrow> post_response \<Rightarrow> string option \<Rightarrow> pystr \<Rightarrow> Seeded" where
  "seed_record label source resp expected why =
     \<lparr>sd_label = lit label, sd_source = lit source,
      sd_event_id = (if pr_status resp \<in> {200, 202, 422} then pr_event_id resp else None),
      sd_http_status = pr_status resp, sd_expected_status = map_option lit expected, sd_why = why\<rparr>"

text \<open>\<open>int.from_bytes(run_id.encode(), "big") % 10**12 * 10\<close>\<close>

definition hubspot_base :: "pystr \<Rightarrow> int" where
  "hubspot_base run_id = foldl (\<lambda>n b. 256 * n + int b) 0 (utf8_encode run_id) mod 10 ^ 12 * 10"

definition salesforce_id :: "pystr \<Rightarrow> string \<Rightarrow> pystr" where
  "salesforce_id run_id n = lit ''seed-'' @ run_id @ lit ''-'' @ lit n"

definition seed_events ::
  "'s http_client \<Rightarrow> pystr \<Rightarrow> pystr \<Rightarrow> (nat \<Rightarrow> nat) \<Rightarrow> pystr \<Rightarrow> ('s, exn, Seeded list) se" where
  "seed_events client sf_secret hs_secret clock run_id =
     (let sf = lit ''salesforce''; hs = lit ''hubspot''; base = hubspot_base run_id;
          payload5 = dict_update (salesforce_payload (salesforce_id run_id ''5'') [])
            [str_field ''Conversion_Action__c'' (lit ''contract_renewal'')]
      in
      se_bind (seed_post client sf sf_secret (clock 1) (salesforce_payload (salesforce_id run_id ''1'') []) False) (\<lambda>r1.
      se_bind (seed_post client hs hs_secret (clock 2) (hubspot_payload (base + 2) []) False) (\<lambda>r2.
      se_bind (seed_post client sf sf_secret (clock 3) (salesforce_payload (salesforce_id run_id ''3'')
        [str_field ''Consent_Ad_User_Data__c'' (lit ''DENIED'')]) False) (\<lambda>r3.
      se_bind (seed_post client hs hs_secret (clock 4) (hubspot_payload (base + 4)
        [str_field ''phone'' (lit ''call me maybe'')]) False) (\<lambda>r4.
      se_bind (seed_post client sf sf_secret (clock 5) payload5 False) (\<lambda>r5.
      se_bind (seed_post client sf sf_secret (clock 6) (salesforce_payload (salesforce_id run_id ''1'') []) False) (\<lambda>r6.
      se_bind (seed_post client sf sf_secret (clock 7) (salesforce_payload (salesforce_id run_id ''1'') []) True) (\<lambda>r7.
      se_return
        [seed_record ''1 salesforce, click id + identifiers'' ''salesforce'' r1 (Some ''UPLOADED'')
           (lit ''matched on click id''),
         seed_record ''2 hubspot, identifiers only'' ''hubspot'' r2 (Some ''UPLOADED'')
           (lit ''matched on hashed identifiers''),
         seed_record ''3 salesforce, consent denied'' ''salesforce'' r3 (Some ''SUPPRESSED'')
           (lit ''ad_user_data_denied''),
         seed_record ''4 hubspot, unparseable phone'' ''hubspot'' r4 (Some ''REJECTED'')
           (lit ''unparseable:phone''),
         seed_record ''5 salesforce, unknown conversion action'' ''salesforce'' r5 (Some ''DEAD_LETTERED'')
           (lit ''platform: CONVERSION_ACTION_NOT_FOUND''),
         seed_record ''6 event 1 delivered again'' ''salesforce'' r6 None
           (lit ''http '' @ str_of_nat (pr_status r6) @ lit '': duplicate, no new row''),
         seed_record ''7 event 1, bad signature'' ''salesforce'' r7 None
           (lit ''http '' @ str_of_nat (pr_status r7) @ lit '': nothing written'')]))))))))"

section \<open>Waiting\<close>

definition tracked_ids :: "Seeded list \<Rightarrow> pystr list" where
  "tracked_ids seeded =
     map (\<lambda>s. the (sd_event_id s))
       (filter (\<lambda>s. sd_expected_status s \<noteq> None \<and> truthy (sd_event_id s)) seeded)"

type_synonym final_states = "pystr \<rightharpoonup> event_state"

primrec poll_events ::
  "'s http_client \<Rightarrow> pystr list \<Rightarrow> final_states \<Rightarrow> 's \<Rightarrow> final_states \<times> 's" where
  "poll_events client [] final s = (final, s)"
| "poll_events client (x # xs) final s =
     (case hc_get client (lit ''/events/'' @ x) s of (state, s') \<Rightarrow> poll_events client xs (final(x \<mapsto> state)) s')"

text \<open>\<open>all(final[x]["status"] in TERMINAL for x in xs)\<close>; a missing \<open>status\<close> raises \<open>KeyError\<close>.\<close>

fun all_terminal :: "final_states \<Rightarrow> pystr list \<Rightarrow> exn + bool" where
  "all_terminal final [] = Inr True"
| "all_terminal final (x # xs) =
     (case final x of
        None \<Rightarrow> Inl KeyError
      | Some state \<Rightarrow>
          (case es_status state of
             None \<Rightarrow> Inl KeyError
           | Some status \<Rightarrow> if status \<in> TERMINAL then all_terminal final xs else Inr False))"

primrec wait_terminal ::
  "'s http_client \<Rightarrow> pystr list \<Rightarrow> nat \<Rightarrow> final_states \<Rightarrow> ('s, exn, final_states) se" where
  "wait_terminal client xs 0 final s = (Inr final, s)"
| "wait_terminal client xs (Suc polls) final s =
     (case poll_events client xs final s of
        (final', s') \<Rightarrow>
          (case all_terminal final' xs of
             Inl e \<Rightarrow> (Inl e, s')
           | Inr True \<Rightarrow> (Inr final', s')
           | Inr False \<Rightarrow> wait_terminal client xs polls final' s'))"

section \<open>The table\<close>

definition actual_state :: "final_states \<Rightarrow> Seeded \<Rightarrow> event_state" where
  "actual_state final s =
     (case final (case sd_event_id s of None \<Rightarrow> [] | Some x \<Rightarrow> x) of
        None \<Rightarrow> \<lparr>es_status = None, es_status_reason = None\<rparr> | Some state \<Rightarrow> state)"

definition seeded_good :: "final_states \<Rightarrow> Seeded \<Rightarrow> bool" where
  "seeded_good final s =
     (case sd_expected_status s of
        None \<Rightarrow> sd_http_status s = (if str_startswith (sd_label s) (lit ''6'') then 200 else 401)
      | Some expected \<Rightarrow>
          (case es_status (actual_state final s) of None \<Rightarrow> lit ''?'' | Some a \<Rightarrow> a) = expected)"

definition seeded_line :: "final_states \<Rightarrow> Seeded \<Rightarrow> pystr" where
  "seeded_line final s =
     (if seeded_good final s then lit ''ok '' else lit ''!! '') @ ljust 39 (sd_label s) @ lit '' '' @
     rjust 4 (str_of_nat (sd_http_status s)) @ lit ''  '' @
     (case sd_expected_status s of
        None \<Rightarrow> ljust 14 (lit ''-'') @ lit '' '' @ ljust 14 (lit ''-'') @ lit '' '' @ sd_why s
      | Some expected \<Rightarrow>
          let state = actual_state final s
          in ljust 14 expected @ lit '' '' @
             ljust 14 (case es_status state of None \<Rightarrow> lit ''?'' | Some a \<Rightarrow> a) @ lit '' '' @
             (if truthy (es_status_reason state) then the (es_status_reason state) else sd_why s)) @
     NEWLINE"

definition seed_report :: "final_states \<Rightarrow> Seeded list \<Rightarrow> bool \<times> pystr" where
  "seed_report final seeded =
     (let good = list_all (seeded_good final) seeded
      in (good,
          NEWLINE @ ljust 42 (lit ''event'') @ lit '' '' @ rjust 4 (lit ''http'') @ lit ''  '' @
          ljust 14 (lit ''expected'') @ lit '' '' @ ljust 14 (lit ''actual'') @ lit '' reason'' @ NEWLINE @
          concat (map (seeded_line final) seeded) @ NEWLINE @
          (if good then
             lit ''every seeded event reached its expected state.'' @ NEWLINE @
             lit ''next: `make dlq` to see event 5, then `gateway dlq replay --id <id>` '' @
             lit ''after fixing the mapping.'' @ NEWLINE
           else
             lit ''MISMATCH: at least one event did not reach its expected state.'' @ NEWLINE)))"

text \<open>The result, and what is written to \<open>out\<close>.\<close>

definition seed ::
  "'s http_client \<Rightarrow> pystr \<Rightarrow> pystr \<Rightarrow> (nat \<Rightarrow> nat) \<Rightarrow> nat \<Rightarrow> pystr \<Rightarrow> ('s, exn, bool \<times> pystr) se" where
  "seed client sf_secret hs_secret clock polls run_id =
     se_bind (seed_events client sf_secret hs_secret clock run_id) (\<lambda>seeded.
     se_bind (wait_terminal client (tracked_ids seeded) polls Map.empty) (\<lambda>final.
     se_return (seed_report final seeded)))"

text \<open>
  \<open>gateway seed\<close> with its exit code, and \<open>main\<close> of the module with the environment as a map.
  \<open>connect\<close> is \<open>httpx.Client(base_url=api_url, timeout=10)\<close>; the number of polls stands for \<open>wait\<close>.
\<close>

definition seed_cmd ::
  "(pystr \<Rightarrow> 's http_client) \<Rightarrow> Settings \<Rightarrow> pystr option \<Rightarrow> (nat \<Rightarrow> nat) \<Rightarrow> nat \<Rightarrow> pystr \<Rightarrow>
   ('s, exn, nat \<times> pystr) se" where
  "seed_cmd connect settings api_url clock polls run_id =
     se_bind
       (seed (connect (case api_url of None \<Rightarrow> lit ''http://localhost:8080'' | Some url \<Rightarrow> url))
          (webhook_secret_salesforce settings) (webhook_secret_hubspot settings) clock polls run_id)
       (\<lambda>(ok, printed). se_return (if ok then 0 else 1, printed))"

definition seed_main ::
  "(pystr \<Rightarrow> 's http_client) \<Rightarrow> (pystr \<rightharpoonup> pystr) \<Rightarrow> (nat \<Rightarrow> nat) \<Rightarrow> nat \<Rightarrow> pystr \<Rightarrow> ('s, exn, nat \<times> pystr) se" where
  "seed_main connect env clock polls run_id =
     (let api_url = (case env (lit ''SEED_API_URL'') of None \<Rightarrow> lit ''http://localhost:8080'' | Some v \<Rightarrow> v);
          sf = (case env (lit ''WEBHOOK_SECRET_SALESFORCE'') of None \<Rightarrow> lit ''demo-salesforce-secret'' | Some v \<Rightarrow> v);
          hs = (case env (lit ''WEBHOOK_SECRET_HUBSPOT'') of None \<Rightarrow> lit ''demo-hubspot-secret'' | Some v \<Rightarrow> v)
      in se_bind (seed (connect api_url) sf hs clock polls run_id)
           (\<lambda>(ok, printed). se_return (if ok then 0 else 1, printed)))"

text \<open>The exit code is 0 exactly when no line of the table is marked.\<close>

lemma seed_cmd_exit:
  assumes "seed_cmd connect settings api_url clock polls run_id s = (Inr (code, printed), s')"
  obtains seeded final where "code = (if list_all (seeded_good final) seeded then 0 else 1)"
    and "printed = snd (seed_report final seeded)"
  using assms
  by (auto simp: seed_cmd_def seed_def se_bind_def seed_report_def Let_def split: prod.splits sum.splits)

section \<open>Its requests authenticate\<close>

lemma str_of_nat_ascii: "is_ascii (str_of_nat n)"
  using digits_of_nat_digits by (fastforce simp: is_ascii_def str_of_nat_def is_digit_def)

text \<open>
  A request signed with the secret of the source is accepted by \<open>verify\<close> as long as the clock is
  within the tolerance.
\<close>

lemma seed_request_verifies:
  assumes "secret \<noteq> []" and "\<bar>clock - of_nat now\<bar> \<le> of_int tolerance" and "now < 2 ^ 1000"
    and "length (str_of_nat now) \<le> 4300"
  shows "\<exists>body headers. seed_request secret now payload False = Inr (body, headers) \<and>
    verify U secret (Some (h_timestamp headers)) (Some (h_signature headers)) body clock tolerance = Inr None"
proof -
  let ?body = "json_compact (JObj payload)"
  obtain sig where sig: "compute_signature secret (str_of_nat now) ?body = Inr sig"
    using str_of_nat_ascii by (simp add: compute_signature_def)
  note shape = compute_signature_shape [OF sig]
  have "\<not> float_overflow (int now)" using assms(3) by (simp add: float_overflow_def)
  then have "verify U secret (Some (str_of_nat now)) (Some sig) ?body clock tolerance = Inr None"
    unfolding verify_accepts_iff using assms(1,2) sig shape py_int_str_of_nat [OF assms(4)] by auto
  with sig show ?thesis by (simp add: seed_request_def Let_def)
qed

end
