(* ===== verification/Schema.thy ===== *)
theory Schema
  imports Ledger
begin

text \<open>
  The database schema: \<open>migrations/versions\<close> as changes of a list of tables, and the tables that
  \<open>gateway/models/ledger.py\<close> declares. Running the migrations gives the declared tables, going down
  again gives the schema before, and the conditions \<open>event_fits\<close>, \<open>transition_fits\<close> and
  \<open>dead_letter_fits\<close> of theory Ledger are the checks that the migrated columns make on a row.
  Alembic runs the scripts in the order of their revisions, each in a transaction; a refused
  statement is \<open>None\<close>.
\<close>

section \<open>Tables\<close>

datatype sql_type = String nat | DateTimeTZ | Numeric nat nat | SqlInteger | JSONB

record sql_column =
  col_name :: string
  col_type :: sql_type
  col_nullable :: bool
  col_primary_key :: bool
  col_references :: "(string \<times> string) option"
  col_server_default :: "string option"

record sql_table =
  tb_name :: string
  tb_columns :: "sql_column list"
  tb_indexes :: "(string \<times> string list) list"

type_synonym schema = "sql_table list"

text \<open>\<open>sa.Column(name, type)\<close> and its keywords.\<close>

definition Column :: "string \<Rightarrow> sql_type \<Rightarrow> sql_column" where
  "Column name ty =
     \<lparr>col_name = name, col_type = ty, col_nullable = True, col_primary_key = False,
      col_references = None, col_server_default = None\<rparr>"

definition not_null :: "sql_column \<Rightarrow> sql_column" where
  "not_null c = c\<lparr>col_nullable := False\<rparr>"

definition primary_key :: "sql_column \<Rightarrow> sql_column" where
  "primary_key c = c\<lparr>col_nullable := False, col_primary_key := True\<rparr>"

definition event_reference :: sql_column where
  "event_reference = (not_null (Column ''event_id'' (String 255)))\<lparr>col_references := Some (''events'', ''event_id'')\<rparr>"

definition find_table :: "schema \<Rightarrow> string \<Rightarrow> sql_table option" where
  "find_table s name = find (\<lambda>t. tb_name t = name) s"

section \<open>What a migration can do\<close>

text \<open>
  The database refuses a table that exists, a reference to a column that does not, a change of a
  table that is not there, an index over unknown columns, and dropping what others refer to.
\<close>

definition references_ok :: "schema \<Rightarrow> sql_column \<Rightarrow> bool" where
  "references_ok s c =
     (case col_references c of
        None \<Rightarrow> True
      | Some (table, column) \<Rightarrow>
          (case find_table s table of
             None \<Rightarrow> False
           | Some t \<Rightarrow> list_ex (\<lambda>k. col_name k = column \<and> col_primary_key k) (tb_columns t)))"

definition op_create_table :: "string \<Rightarrow> sql_column list \<Rightarrow> schema \<Rightarrow> schema option" where
  "op_create_table name columns s =
     (if find_table s name \<noteq> None \<or> \<not> distinct (map col_name columns) \<or> \<not> list_all (references_ok s) columns
      then None
      else Some (s @ [\<lparr>tb_name = name, tb_columns = columns, tb_indexes = []\<rparr>]))"

definition change_table :: "string \<Rightarrow> (sql_table \<Rightarrow> sql_table option) \<Rightarrow> schema \<Rightarrow> schema option" where
  "change_table name f s =
     (case find_table s name of
        None \<Rightarrow> None
      | Some t \<Rightarrow> map_option (\<lambda>t'. map (\<lambda>u. if tb_name u = name then t' else u) s) (f t))"

definition op_create_index :: "string \<Rightarrow> string \<Rightarrow> string list \<Rightarrow> schema \<Rightarrow> schema option" where
  "op_create_index index table columns s =
     (if list_ex (\<lambda>t. index \<in> set (map fst (tb_indexes t))) s then None
      else change_table table (\<lambda>t.
        if set columns \<subseteq> set (map col_name (tb_columns t))
        then Some (t\<lparr>tb_indexes := tb_indexes t @ [(index, columns)]\<rparr>) else None) s)"

definition op_add_column :: "string \<Rightarrow> sql_column \<Rightarrow> schema \<Rightarrow> schema option" where
  "op_add_column table column = change_table table (\<lambda>t.
     if col_name column \<in> set (map col_name (tb_columns t)) then None
     else Some (t\<lparr>tb_columns := tb_columns t @ [column]\<rparr>))"

text \<open>Dropping a column drops the indexes over it; dropping a table drops its indexes.\<close>

definition op_drop_column :: "string \<Rightarrow> string \<Rightarrow> schema \<Rightarrow> schema option" where
  "op_drop_column table column s =
     (if list_ex (\<lambda>t. list_ex (\<lambda>c. col_references c = Some (table, column)) (tb_columns t)) s then None
      else change_table table (\<lambda>t.
        if column \<notin> set (map col_name (tb_columns t)) then None
        else Some (t\<lparr>tb_columns := filter (\<lambda>c. col_name c \<noteq> column) (tb_columns t),
                    tb_indexes := filter (\<lambda>(_, cs). column \<notin> set cs) (tb_indexes t)\<rparr>)) s)"

definition op_drop_table :: "string \<Rightarrow> schema \<Rightarrow> schema option" where
  "op_drop_table name s =
     (if find_table s name = None \<or>
         list_ex (\<lambda>t. tb_name t \<noteq> name \<and>
           list_ex (\<lambda>c. map_option fst (col_references c) = Some name) (tb_columns t)) s
      then None
      else Some (filter (\<lambda>t. tb_name t \<noteq> name) s))"

text \<open>The statements of a migration, one after the other.\<close>

fun run_ops :: "(schema \<Rightarrow> schema option) list \<Rightarrow> schema \<Rightarrow> schema option" where
  "run_ops [] s = Some s"
| "run_ops (f # fs) s = (case f s of None \<Rightarrow> None | Some s' \<Rightarrow> run_ops fs s')"

section \<open>\<open>0001_create_ledger.py\<close>\<close>

definition upgrade_0001 :: "schema \<Rightarrow> schema option" where
  "upgrade_0001 = run_ops
     [op_create_table ''events''
        [primary_key (Column ''event_id'' (String 255)),
         not_null (Column ''source'' (String 32)),
         not_null (Column ''source_event_id'' (String 255)),
         not_null (Column ''received_at'' DateTimeTZ),
         Column ''conversion_action'' (String 255),
         Column ''conversion_time'' DateTimeTZ,
         Column ''conversion_value'' (Numeric 18 6),
         Column ''currency'' (String 3),
         Column ''match_key_type'' (String 32),
         Column ''click_id'' (String 255),
         Column ''hashed_identifiers'' JSONB,
         Column ''consent_ad_user_data'' (String 16),
         Column ''consent_ad_personalization'' (String 16),
         not_null (Column ''status'' (String 32)),
         Column ''status_reason'' (String 512),
         (not_null (Column ''attempt_count'' SqlInteger))\<lparr>col_server_default := Some ''0''\<rparr>,
         Column ''last_attempt_at'' DateTimeTZ],
      op_create_index ''ix_events_status_received_at'' ''events'' [''status'', ''received_at''],
      op_create_index ''ix_events_source_status'' ''events'' [''source'', ''status''],
      op_create_table ''event_transitions''
        [primary_key (Column ''id'' SqlInteger),
         event_reference,
         Column ''from_status'' (String 32),
         not_null (Column ''to_status'' (String 32)),
         Column ''reason'' (String 512),
         not_null (Column ''occurred_at'' DateTimeTZ)],
      op_create_index ''ix_event_transitions_event_id'' ''event_transitions'' [''event_id'']]"

definition downgrade_0001 :: "schema \<Rightarrow> schema option" where
  "downgrade_0001 = run_ops [op_drop_table ''event_transitions'', op_drop_table ''events'']"

section \<open>\<open>0002_dead_letters_and_correlation.py\<close>\<close>

definition upgrade_0002 :: "schema \<Rightarrow> schema option" where
  "upgrade_0002 = run_ops
     [op_add_column ''events'' (Column ''correlation_id'' (String 32)),
      op_create_table ''dead_letters''
        [primary_key (Column ''id'' SqlInteger),
         event_reference,
         not_null (Column ''source'' (String 32)),
         Column ''conversion_action'' (String 255),
         not_null (Column ''dead_lettered_at'' DateTimeTZ),
         not_null (Column ''failure_class'' (String 16)),
         not_null (Column ''reason'' (String 512)),
         Column ''platform_error_code'' (String 128),
         Column ''platform_error_message'' (String 1024),
         not_null (Column ''payload'' JSONB),
         not_null (Column ''attempt_history'' JSONB),
         Column ''replayed_at'' DateTimeTZ,
         (not_null (Column ''replay_count'' SqlInteger))\<lparr>col_server_default := Some ''0''\<rparr>],
      op_create_index ''ix_dead_letters_event_id'' ''dead_letters'' [''event_id''],
      op_create_index ''ix_dead_letters_open'' ''dead_letters''
        [''replayed_at'', ''failure_class'', ''dead_lettered_at'']]"

definition downgrade_0002 :: "schema \<Rightarrow> schema option" where
  "downgrade_0002 = run_ops
     [op_drop_table ''dead_letters'', op_drop_column ''events'' ''correlation_id'']"

section \<open>The tables of the models\<close>

definition Event_table :: sql_table where
  "Event_table =
     \<lparr>tb_name = ''events'',
      tb_columns =
        [primary_key (Column ''event_id'' (String 255)),
         not_null (Column ''source'' (String 32)),
         not_null (Column ''source_event_id'' (String 255)),
         not_null (Column ''received_at'' DateTimeTZ),
         Column ''correlation_id'' (String 32),
         Column ''conversion_action'' (String 255),
         Column ''conversion_time'' DateTimeTZ,
         Column ''conversion_value'' (Numeric 18 6),
         Column ''currency'' (String 3),
         Column ''match_key_type'' (String 32),
         Column ''click_id'' (String 255),
         Column ''hashed_identifiers'' JSONB,
         Column ''consent_ad_user_data'' (String 16),
         Column ''consent_ad_personalization'' (String 16),
         not_null (Column ''status'' (String 32)),
         Column ''status_reason'' (String 512),
         not_null (Column ''attempt_count'' SqlInteger),
         Column ''last_attempt_at'' DateTimeTZ],
      tb_indexes =
        [(''ix_events_status_received_at'', [''status'', ''received_at'']),
         (''ix_events_source_status'', [''source'', ''status''])]\<rparr>"

definition EventTransition_table :: sql_table where
  "EventTransition_table =
     \<lparr>tb_name = ''event_transitions'',
      tb_columns =
        [primary_key (Column ''id'' SqlInteger),
         event_reference,
         Column ''from_status'' (String 32),
         not_null (Column ''to_status'' (String 32)),
         Column ''reason'' (String 512),
         not_null (Column ''occurred_at'' DateTimeTZ)],
      tb_indexes = [(''ix_event_transitions_event_id'', [''event_id''])]\<rparr>"

definition DeadLetter_table :: sql_table where
  "DeadLetter_table =
     \<lparr>tb_name = ''dead_letters'',
      tb_columns =
        [primary_key (Column ''id'' SqlInteger),
         event_reference,
         not_null (Column ''source'' (String 32)),
         Column ''conversion_action'' (String 255),
         not_null (Column ''dead_lettered_at'' DateTimeTZ),
         not_null (Column ''failure_class'' (String 16)),
         not_null (Column ''reason'' (String 512)),
         Column ''platform_error_code'' (String 128),
         Column ''platform_error_message'' (String 1024),
         not_null (Column ''payload'' JSONB),
         not_null (Column ''attempt_history'' JSONB),
         Column ''replayed_at'' DateTimeTZ,
         not_null (Column ''replay_count'' SqlInteger)],
      tb_indexes =
        [(''ix_dead_letters_event_id'', [''event_id'']),
         (''ix_dead_letters_open'', [''replayed_at'', ''failure_class'', ''dead_lettered_at''])]\<rparr>"

text \<open>
  Two tables agree when they have the same columns, in any order and but for server defaults
  (the models set theirs in Python), and the same indexes.
\<close>

definition declared :: "sql_column \<Rightarrow> sql_column" where
  "declared c = c\<lparr>col_server_default := None\<rparr>"

definition table_agrees :: "sql_table \<Rightarrow> sql_table \<Rightarrow> bool" where
  "table_agrees t u \<longleftrightarrow> tb_name t = tb_name u \<and> tb_indexes t = tb_indexes u \<and>
     length (tb_columns t) = length (tb_columns u) \<and>
     set (map declared (tb_columns t)) = set (map declared (tb_columns u))"

section \<open>A row against its columns\<close>

datatype sql_value = SText pystr | STime | SNumeric rat | SInt int | SJson

definition value_fits :: "sql_type \<Rightarrow> sql_value \<Rightarrow> bool" where
  "value_fits ty v =
     (case (ty, v) of
        (String n, SText s) \<Rightarrow> length s \<le> n
      | (DateTimeTZ, STime) \<Rightarrow> True
      | (Numeric p s, SNumeric x) \<Rightarrow> \<bar>numeric_18_6 x\<bar> < 10 ^ (p - s)
      | (SqlInteger, SInt i) \<Rightarrow> - (2 ^ 31) \<le> i \<and> i < 2 ^ 31
      | (JSONB, SJson) \<Rightarrow> True
      | _ \<Rightarrow> False)"

definition column_accepts :: "(string \<rightharpoonup> sql_value) \<Rightarrow> sql_column \<Rightarrow> bool" where
  "column_accepts row c =
     (case row (col_name c) of None \<Rightarrow> col_nullable c | Some v \<Rightarrow> value_fits (col_type c) v)"

definition row_accepted :: "sql_table \<Rightarrow> (string \<rightharpoonup> sql_value) \<Rightarrow> bool" where
  "row_accepted t row \<longleftrightarrow> list_all (column_accepts row) (tb_columns t)"

definition event_values :: "event \<Rightarrow> string \<rightharpoonup> sql_value" where
  "event_values e =
     [''event_id'' \<mapsto> SText (ev_event_id e), ''source'' \<mapsto> SText (ev_source e),
      ''source_event_id'' \<mapsto> SText (ev_source_event_id e), ''received_at'' \<mapsto> STime]
     (''correlation_id'' := map_option SText (ev_correlation_id e),
      ''conversion_action'' := map_option SText (ev_conversion_action e),
      ''conversion_time'' := map_option (\<lambda>_. STime) (ev_conversion_time e),
      ''conversion_value'' := map_option SNumeric (ev_conversion_value e),
      ''currency'' := map_option SText (ev_currency e),
      ''match_key_type'' := map_option SText (ev_match_key_type e),
      ''click_id'' := map_option SText (ev_click_id e),
      ''hashed_identifiers'' := map_option (\<lambda>_. SJson) (ev_hashed_identifiers e),
      ''consent_ad_user_data'' := map_option SText (ev_consent_ad_user_data e),
      ''consent_ad_personalization'' := map_option SText (ev_consent_ad_personalization e),
      ''status'' := Some (SText (status_value (ev_status e))),
      ''status_reason'' := map_option SText (ev_status_reason e),
      ''attempt_count'' := Some (SInt (int (ev_attempt_count e))),
      ''last_attempt_at'' := map_option (\<lambda>_. STime) (ev_last_attempt_at e))"

definition transition_values :: "int \<Rightarrow> event_transition \<Rightarrow> string \<rightharpoonup> sql_value" where
  "transition_values i t =
     [''id'' \<mapsto> SInt i, ''event_id'' \<mapsto> SText (tr_event_id t),
      ''to_status'' \<mapsto> SText (status_value (tr_to_status t)), ''occurred_at'' \<mapsto> STime]
     (''from_status'' := map_option (\<lambda>s. SText (status_value s)) (tr_from_status t),
      ''reason'' := map_option SText (tr_reason t))"

definition dead_letter_values :: "dead_letter \<Rightarrow> string \<rightharpoonup> sql_value" where
  "dead_letter_values d =
     [''id'' \<mapsto> SInt (int (dl_id d)), ''event_id'' \<mapsto> SText (dl_event_id d),
      ''source'' \<mapsto> SText (dl_source d), ''dead_lettered_at'' \<mapsto> STime,
      ''failure_class'' \<mapsto> SText (dl_failure_class d), ''reason'' \<mapsto> SText (dl_reason d),
      ''payload'' \<mapsto> SJson, ''attempt_history'' \<mapsto> SJson,
      ''replay_count'' \<mapsto> SInt (int (dl_replay_count d))]
     (''conversion_action'' := map_option SText (dl_conversion_action d),
      ''platform_error_code'' := map_option SText (dl_platform_error_code d),
      ''platform_error_message'' := map_option SText (dl_platform_error_message d),
      ''replayed_at'' := map_option (\<lambda>_. STime) (dl_replayed_at d))"

section \<open>The migrations build the declared tables\<close>

definition migrated_schema :: schema where
  "migrated_schema = the (Option.bind (upgrade_0001 []) upgrade_0002)"

lemma migrations_run:
  "Option.bind (upgrade_0001 []) upgrade_0002 = Some migrated_schema"
  "list_all2 table_agrees migrated_schema [Event_table, EventTransition_table, DeadLetter_table]"
  unfolding migrated_schema_def by code_simp+

text \<open>Going down one revision gives back the schema of the revision below.\<close>

lemma migrations_undone:
  "Option.bind (upgrade_0001 []) downgrade_0001 = Some []"
  "downgrade_0002 migrated_schema = upgrade_0001 []"
  unfolding migrated_schema_def by code_simp+

text \<open>A refused order: the tables that others refer to cannot be dropped first.\<close>

lemma events_dropped_first_refused:
  "Option.bind (upgrade_0001 []) (op_drop_table ''events'') = None"
  by code_simp

lemma agreeing_tables_accept:
  assumes "table_agrees t u"
  shows "row_accepted t row \<longleftrightarrow> row_accepted u row"
proof -
  have "column_accepts row (declared c) = column_accepts row c" for c
    by (cases "row (col_name c)") (simp_all add: column_accepts_def declared_def)
  then have "row_accepted v row \<longleftrightarrow> (\<forall>c \<in> set (map declared (tb_columns v)). column_accepts row c)" for v
    by (simp add: row_accepted_def list_all_iff)
  then show ?thesis using assms unfolding table_agrees_def by (simp only:)
qed

lemma status_value_short: "length (status_value s) \<le> 32"
  by (cases s) (simp_all add: lit_def)

lemma value_fits_simps [simp]:
  "value_fits (String n) (SText s) \<longleftrightarrow> length s \<le> n"
  "value_fits DateTimeTZ STime"
  "value_fits (Numeric p k) (SNumeric x) \<longleftrightarrow> \<bar>numeric_18_6 x\<bar> < 10 ^ (p - k)"
  "value_fits SqlInteger (SInt i) \<longleftrightarrow> - (2 ^ 31) \<le> i \<and> i < 2 ^ 31"
  "value_fits JSONB SJson"
  by (simp_all add: value_fits_def)

lemma column_accepts_simps [simp]:
  "column_accepts row (Column n ty) \<longleftrightarrow> (case row n of None \<Rightarrow> True | Some v \<Rightarrow> value_fits ty v)"
  "column_accepts row (not_null (Column n ty)) \<longleftrightarrow> (case row n of None \<Rightarrow> False | Some v \<Rightarrow> value_fits ty v)"
  "column_accepts row (primary_key (Column n ty)) \<longleftrightarrow> (case row n of None \<Rightarrow> False | Some v \<Rightarrow> value_fits ty v)"
  "column_accepts row event_reference \<longleftrightarrow>
     (case row ''event_id'' of None \<Rightarrow> False | Some v \<Rightarrow> value_fits (String 255) v)"
  by (auto simp: column_accepts_def Column_def not_null_def primary_key_def event_reference_def
      split: option.splits)

text \<open>The value of an optional attribute in a nullable column.\<close>

lemma nullable_fits [simp]:
  "(case x of None \<Rightarrow> True | Some s \<Rightarrow> (value_fits (String n) \<circ> SText) s) \<longleftrightarrow> fits n x"
  "(case st of None \<Rightarrow> True | Some s \<Rightarrow> (value_fits (String 32) \<circ> (\<lambda>s. SText (status_value s))) s)"
  "(case z of None \<Rightarrow> True | Some s \<Rightarrow> (value_fits DateTimeTZ \<circ> (\<lambda>_. STime)) s)"
  "(case z of None \<Rightarrow> True | Some s \<Rightarrow> (value_fits JSONB \<circ> (\<lambda>_. SJson)) s)"
  "(case y of None \<Rightarrow> True | Some v \<Rightarrow> (value_fits (Numeric p k) \<circ> SNumeric) v) \<longleftrightarrow>
     (case y of None \<Rightarrow> True | Some v \<Rightarrow> \<bar>numeric_18_6 v\<bar> < 10 ^ (p - k))"
  using status_value_short by (simp_all split: option.split)

section \<open>The model's conditions are the column checks\<close>

text \<open>The integers of a row have to fit the 32-bit columns; the rest is what theory Ledger states.\<close>

lemma numeric_width: "(10 :: rat) ^ (18 - 6) = 1000000000000"
  by simp

theorem event_fits_columns:
  assumes "int (ev_attempt_count e) < 2 ^ 31"
  shows "event_fits e \<longleftrightarrow> row_accepted Event_table (event_values e)"
  using assms
  by (simp add: row_accepted_def Event_table_def event_values_def status_value_short event_fits_def)
    (simp only: numeric_width)

theorem transition_fits_columns:
  assumes "- (2 ^ 31) \<le> i" and "i < 2 ^ 31"
  shows "transition_fits t \<longleftrightarrow> row_accepted EventTransition_table (transition_values i t)"
  using assms
  by (simp add: row_accepted_def EventTransition_table_def transition_values_def status_value_short
      transition_fits_def)

theorem dead_letter_fits_columns:
  assumes "int (dl_id d) < 2 ^ 31" and "int (dl_replay_count d) < 2 ^ 31"
  shows "dead_letter_fits d \<longleftrightarrow> row_accepted DeadLetter_table (dead_letter_values d)"
  using assms
  by (simp add: row_accepted_def DeadLetter_table_def dead_letter_values_def dead_letter_fits_def)

text \<open>So the database that the migrations built refuses exactly the rows that the model refuses.\<close>

lemma migrated_tables_agree:
  "table_agrees (migrated_schema ! 0) Event_table"
  "table_agrees (migrated_schema ! 1) EventTransition_table"
  "table_agrees (migrated_schema ! 2) DeadLetter_table"
  using migrations_run(2) [THEN list_all2_nthD2, of 0] migrations_run(2) [THEN list_all2_nthD2, of 1]
    migrations_run(2) [THEN list_all2_nthD2, of 2]
  by simp_all

theorem migrated_database_refuses:
  "int (ev_attempt_count e) < 2 ^ 31 \<Longrightarrow>
     row_accepted (migrated_schema ! 0) (event_values e) \<longleftrightarrow> event_fits e"
  "- (2 ^ 31) \<le> i \<Longrightarrow> i < 2 ^ 31 \<Longrightarrow>
     row_accepted (migrated_schema ! 1) (transition_values i t) \<longleftrightarrow> transition_fits t"
  "int (dl_id d) < 2 ^ 31 \<Longrightarrow> int (dl_replay_count d) < 2 ^ 31 \<Longrightarrow>
     row_accepted (migrated_schema ! 2) (dead_letter_values d) \<longleftrightarrow> dead_letter_fits d"
  using event_fits_columns transition_fits_columns dead_letter_fits_columns
    migrated_tables_agree [THEN agreeing_tables_accept] by metis+

end
