(* ===== verification/Demo.thy ===== *)
theory Demo
  imports Replay Ceiling Outage Commands Fake Redaction Seed Schema
begin

text \<open>
  Concrete data on which the properties of the root theory are exhibited: one click-id event,
  accepted and processed; a Pub/Sub service; the order of the events in a drained queue; and a log
  line whose timestamp the redaction hides.
\<close>

section \<open>A small run, for the witnesses\<close>

text \<open>
  One click-id event with consent, accepted at time 0 and processed at time 1, on an in-memory
  queue whose codec is the identity.
\<close>

definition demo_ucd :: ucd where
  "demo_ucd = \<lparr>ucd_isspace = (\<lambda>_. False), ucd_lower = id, ucd_upper = id, ucd_nfkd = id,
     ucd_isalpha = (\<lambda>_. True), ucd_category_Mn = (\<lambda>_. False), ucd_category_P = (\<lambda>_. False), ucd_decimal = (\<lambda>_. None)\<rparr>"

definition demo_phonelib :: "pystr phonelib" where
  "demo_phonelib = \<lparr>pn_parse = (\<lambda>s r. Some s), pn_is_valid_number = (\<lambda>_. True), pn_format_e164 = id\<rparr>"

definition demo_codec :: "QueueMessage codec" where
  "demo_codec = \<lparr>to_bytes = id, from_bytes = Some\<rparr>"

definition demo_uuid :: "nat \<Rightarrow> pystr" where
  "demo_uuid n = replicate n 97"

lemma demo_codec_ok: "codec_ok demo_codec"
  by (simp add: codec_ok_def demo_codec_def)

lemma demo_uuid_inj: "inj demo_uuid"
  by (rule injI) (metis demo_uuid_def length_replicate)

definition demo_datetime :: datetime where
  "demo_datetime = \<lparr>dt_year = 2026, dt_month = 9, dt_day = 22, dt_hour = 9, dt_minute = 30, dt_second = 0,
     dt_microsecond = 0, dt_utcoffset = Some 0\<rparr>"

definition demo_event :: CanonicalLeadEvent where
  "demo_event =
     \<lparr>ce_event_id = lit ''hubspot:1'', ce_source = HUBSPOT, ce_source_event_id = lit ''1'',
      ce_correlation_id = Some (lit ''c1''), ce_conversion_action = lit ''closed_won'',
      ce_conversion_time = demo_datetime, ce_conversion_value = None, ce_currency = None,
      ce_click_id = Some (lit ''click''), ce_identifiers = no_identifiers,
      ce_consent = \<lparr>ad_user_data = Some GRANTED, ad_personalization = Some GRANTED\<rparr>\<rparr>"

definition demo_message :: QueueMessage where
  "demo_message = \<lparr>qm_event_id = lit ''hubspot:1'', qm_identifiers = no_identifiers, qm_enqueued_at = 0,
     qm_correlation_id = Some (lit ''c1'')\<rparr>"

definition demo_delivery :: Delivery where
  "demo_delivery = \<lparr>d_ack_id = [], d_message = demo_message, d_attempt = 1\<rparr>"

definition demo_gateway :: "'p \<Rightarrow> store \<Rightarrow> (QueueMessage memory_queue, 'p) uploader_world" where
  "demo_gateway p db =
     \<lparr>w_db = db, w_metrics = empty_registry, w_observed = no_observations, w_out = [], w_queue = new_memory_queue,
      u_batcher = \<lparr>b_max_size = 2, b_max_wait = 5, b_items = [], b_oldest_at = None\<rparr>, u_platform = p\<rparr>"

abbreviation demo_world :: "store \<Rightarrow> (QueueMessage memory_queue, unit) uploader_world" where
  "demo_world \<equiv> demo_gateway ()"

definition demo_row :: event where
  "demo_row = validated_row demo_event 0"

text \<open>The ledger after the event was accepted.\<close>

definition demo_db :: store where
  "demo_db = recorded demo_row 0 empty_store"

text \<open>The ledger after the worker processed it.\<close>

definition demo_digests :: HashedIdentifiers where
  "demo_digests = identifiers (build_user_identifiers demo_ucd demo_phonelib no_identifiers)"

definition demo_db2 :: store where
  "demo_db2 = apply_verdict (queued_row demo_row) 1 (Accept demo_digests) demo_db"

lemma demo_row_simps [simp]:
  "ev_event_id demo_row = lit ''hubspot:1''"
  "ce_event_id demo_event = lit ''hubspot:1''"
  "ev_status demo_row = RECEIVED"
  "ev_click_id demo_row = Some (lit ''click'')"
  "ev_hashed_identifiers demo_row = None"
  "ev_consent_ad_user_data demo_row = Some (consent_value GRANTED)"
  "ev_consent_ad_personalization demo_row = Some (consent_value GRANTED)"
  "ev_conversion_action demo_row = Some (lit ''closed_won'')"
  "ev_conversion_time demo_row = Some demo_datetime"
  by (simp_all add: demo_row_def validated_row_def demo_event_def consent_column_def)

lemma demo_row_fits: "event_fits demo_row"
  by (simp add: event_fits_def demo_row_def validated_row_def demo_event_def consent_column_def
      match_key_type_def)

lemma demo_world_simps [simp]:
  "w_db (demo_gateway p db) = db"
  "(demo_gateway p db)\<lparr>w_db := db'\<rparr> = demo_gateway p db'"
  "w_queue (demo_gateway p db) = new_memory_queue"
  "u_platform (demo_gateway p db) = p"
  "u_batcher (demo_gateway p db) = \<lparr>b_max_size = 2, b_max_wait = 5, b_items = [], b_oldest_at = None\<rparr>"
  by (simp_all add: demo_gateway_def)

lemma demo_accept:
  "accept_event demo_event 0 (lit ''c1'') (demo_gateway p empty_store) =
     (Inr (AcceptedResponse 202 (lit ''hubspot:1'') QUEUED (lit ''c1''), True), demo_gateway p demo_db)"
  using accept_event_new [of "demo_gateway p empty_store" demo_event 0 "lit ''c1''"] demo_row_fits
  by (simp add: store_fits_empty demo_db_def demo_row_def)

lemma gateway_reachable: "reachable demo_ucd demo_phonelib (demo_gateway p demo_db)"
  unfolding reachable_def
  by (intro exI [of _ "demo_gateway p empty_store"]) (auto intro!: r_into_rtranclp step.accepting [OF demo_accept])

lemma demo_found: "find_event demo_db (lit ''hubspot:1'') = Some (queued_row demo_row)"
  by (simp add: demo_db_def find_event_recorded)

lemma demo_queued [simp]:
  "ev_event_id (queued_row demo_row) = lit ''hubspot:1''"
  "ev_status (queued_row demo_row) = QUEUED"
  "ev_click_id (queued_row demo_row) = Some (lit ''click'')"
  "ev_hashed_identifiers (queued_row demo_row) = None"
  "ev_consent_ad_user_data (queued_row demo_row) = Some (consent_value GRANTED)"
  "ev_consent_ad_personalization (queued_row demo_row) = Some (consent_value GRANTED)"
  "ev_conversion_action (queued_row demo_row) = Some (lit ''closed_won'')"
  "ev_conversion_time (queued_row demo_row) = Some demo_datetime"
  by (simp_all add: queued_row_def)

definition demo_signals :: ConsentSignals where
  "demo_signals = \<lparr>ad_user_data = Some GRANTED, ad_personalization = Some GRANTED\<rparr>"

lemma demo_consent: "consent_from_row (queued_row demo_row) = Inr demo_signals"
  by (simp add: consent_from_row_def consent_of_column_def demo_signals_def del: consent_value.simps)

lemma demo_decide:
  "decide demo_ucd demo_phonelib (queued_row demo_row) demo_signals no_identifiers = Accept demo_digests"
proof -
  have "decision_reason (evaluate_consent demo_signals) = None"
    by (simp add: decision_reason_None_iff permitted_iff demo_signals_def)
  then show ?thesis
    by (simp add: decide_def Let_def build_no_identifiers relevant_rejections_def demo_digests_def)
qed

lemma demo_fits: "store_fits demo_db"
  using fits_reachable [OF gateway_reachable] by simp

lemma demo_process:
  "process_message demo_ucd demo_phonelib demo_message 1 (demo_gateway p demo_db) =
     (Inr OUT_PROCESSED, demo_gateway p demo_db2)"
proof -
  have "(demo_gateway p demo_db)\<lparr>w_db := demo_db2, w_metrics := w_metrics (demo_gateway p demo_db)\<rparr> = demo_gateway p demo_db2"
    by (simp add: demo_gateway_def)
  then show ?thesis
    using process_queued [of "demo_gateway p demo_db" demo_message "queued_row demo_row" demo_signals
        demo_ucd demo_phonelib 1] demo_found demo_consent demo_decide
    by (simp add: demo_message_def Let_def demo_db2_def)
qed

lemma demo_found2: "find_event demo_db2 (lit ''hubspot:1'') =
    Some ((queued_row demo_row)\<lparr>ev_hashed_identifiers := Some demo_digests, ev_status := PROCESSED,
      ev_status_reason := None\<rparr>)"
  using demo_found by (simp add: demo_db2_def find_event_moved find_event_update)

lemma demo_fits2: "store_fits demo_db2"
  unfolding demo_db2_def apply_verdict.simps
  using demo_found demo_fits
  by (intro store_fits_moved store_fits_update) (simp_all add: find_event_update)

lemma demo_handled:
  "handle_delivery demo_ucd demo_phonelib mq_ack mq_nack demo_delivery 1 (demo_gateway p demo_db) =
     (Inr (Some OUT_PROCESSED), (demo_gateway p demo_db2)\<lparr>w_queue := new_memory_queue\<rparr>)"
  using demo_process demo_fits2
  by (intro handle_delivery_committed transaction_commit)
    (simp_all add: demo_delivery_def mq_ack_def new_memory_queue_def)

lemma demo_world_queue [simp]: "(demo_gateway p db)\<lparr>w_queue := new_memory_queue\<rparr> = demo_gateway p db"
  by (simp add: demo_gateway_def)

lemma demo_step2: "step demo_ucd demo_phonelib (demo_gateway p demo_db) (demo_gateway p demo_db2)"
  using step.delivery [OF demo_handled] by simp

lemma gateway_steps2: "steps demo_ucd demo_phonelib (demo_gateway p demo_db) (demo_gateway p demo_db2)"
  using demo_step2 by (rule r_into_rtranclp)

lemma gateway_reachable2: "reachable demo_ucd demo_phonelib (demo_gateway p demo_db2)"
  using gateway_reachable demo_step2 unfolding reachable_def by (meson rtranclp.rtrancl_into_rtrancl)

lemmas demo_reachable = gateway_reachable [where p = "()"]
lemmas demo_reachable2 = gateway_reachable2 [where p = "()"]
lemmas demo_steps2 = gateway_steps2 [where p = "()"]

section \<open>The uploader before the mock platform\<close>

definition demo_config :: uploader_config where
  "demo_config = \<lparr>up_policy = default_policy, up_customer_id = lit ''1'', up_row_retry_after = 60,
     up_stale_after = 600, up_max_row_attempts = 5\<rparr>"

lemma demo_config_simps [simp]: "up_customer_id demo_config = lit ''1''"
  by (simp add: demo_config_def)

lemma demo_attempts: "up_max_row_attempts demo_config = 5"
  by (simp add: demo_config_def)

definition demo_actions :: "pystr list" where
  "demo_actions = [lit ''closed_won'']"

definition demo_platform :: mock_state where
  "demo_platform = mock_create_app demo_actions MODE_OK"

abbreviation demo_client_upload :: "json list \<Rightarrow> (mock_state, exn, BatchResult) se" where
  "demo_client_upload \<equiv> http_upload (\<lambda>_. []) (mock_post demo_ucd (\<lambda>_. []) 1)"

definition demo_clocks :: "'p clocks" where
  "demo_clocks = \<lparr>ck_now = (\<lambda>_ _. 3), ck_monotonic = (\<lambda>_. 0)\<rparr>"

definition demo_processed :: event where
  "demo_processed = (queued_row demo_row)\<lparr>ev_hashed_identifiers := Some demo_digests, ev_status := PROCESSED,
     ev_status_reason := None\<rparr>"

lemma demo_serving: "mock_serving demo_actions 1 demo_platform"
  by (simp add: mock_serving_def demo_platform_def mock_create_app_def new_control_def demo_actions_def
      take_control_def Let_def)

lemma demo_processed_simps [simp]:
  "ev_event_id demo_processed = lit ''hubspot:1''"
  "ev_status demo_processed = PROCESSED"
  "ev_attempt_count demo_processed = 0"
  by (simp_all add: demo_processed_def)
    (simp add: queued_row_def demo_row_def validated_row_def stored_row_def)

lemma demo_rows: "find_event demo_db2 x = (if x = lit ''hubspot:1'' then Some demo_processed else None)"
proof (cases "x = lit ''hubspot:1''")
  case True
  then show ?thesis using demo_found2 by (simp add: demo_processed_def)
next
  case False
  then show ?thesis
    by (simp add: demo_db2_def demo_db_def find_event_moved find_event_update find_event_recorded)
qed

lemma demo_backlog: "backlog demo_db2 = [demo_processed]"
  using reachable_distinct [OF gateway_reachable2] by (intro backlog_single [of _ "lit ''hubspot:1''"]) (simp_all add: demo_rows split: if_splits)

lemma demo_sendable: "sendable demo_ucd demo_actions (lit ''1'') demo_event"
  by (simp add: sendable_def demo_actions_def demo_event_def datetime_ok_def demo_datetime_def)
    (simp add: lit_def decimal_def char_decimal_def is_digit_def word_char_def ascii_alnum_def ascii_isalpha_def)

lemma demo_at_rest: "at_rest demo_codec demo_uuid (demo_gateway p empty_store)"
  by (simp add: at_rest_def mq_ok_def new_memory_queue_def demo_codec_ok demo_uuid_inj quiet_def backlog_def empty_store_def)

lemma demo_row_sendable: "row_sendable demo_ucd demo_actions (up_customer_id demo_config) demo_processed"
proof -
  have "demo_event\<lparr>ce_correlation_id := Some (lit ''c1'')\<rparr> = demo_event" by (simp add: demo_event_def)
  then have "sent_row demo_event (lit ''c1'') 0 demo_digests = demo_processed"
    by (simp add: sent_row_def accepted_row_def demo_processed_def demo_row_def)
  then show ?thesis using sendable_row [OF demo_sendable] by (metis demo_config_simps)
qed

lemma demo_ready:
  "uploader_ready demo_config (\<lambda>c. validate_row demo_ucd py_repr demo_actions c = Inr None) (demo_gateway p demo_db2)"
proof -
  have "reachable demo_ucd demo_phonelib (demo_gateway p empty_store)"
    unfolding reachable_def by (intro exI [of _ "demo_gateway p empty_store"]) simp
  then show ?thesis
    by (rule one_row_ready(2) [OF _ demo_at_rest gateway_reachable2, where x = "lit ''hubspot:1''" and e = demo_processed])
      (simp_all add: demo_rows demo_row_sendable [simplified] demo_attempts)
qed

text \<open>Two claims, the second before the lease of the first has run out.\<close>

lemma demo_claim:
  obtains db' where "claim demo_config {} 2 10 (demo_gateway p demo_db2) =
      (Inr [claimed_item (up_customer_id demo_config) (claimed_row 2 demo_processed)], demo_gateway p db')"
    and "\<And>x. find_event db' x = (if x = lit ''hubspot:1'' then Some (claimed_row 2 demo_processed) else None)"
proof -
  let ?w = "demo_gateway p demo_db2"
  have es: "[demo_processed] = select_for_upload (w_db ?w) {} 2 10 (up_row_retry_after demo_config)
      (up_stale_after demo_config)"
    using demo_ready [of _ p] by (subst select_quiet) (simp_all add: uploader_ready_def demo_backlog)
  have low: "\<forall>e \<in> set [demo_processed]. ev_attempt_count e < up_max_row_attempts demo_config"
    by (simp add: demo_config_def)
  obtain db' where run: "claim demo_config {} 2 10 ?w = (Inr (map (\<lambda>e. claimed_item (up_customer_id demo_config)
        (claimed_row 2 e)) [demo_processed]), ?w\<lparr>w_db := db'\<rparr>)"
      and found: "\<And>x. find_event db' x = (if x \<in> ev_event_id ` set [demo_processed]
         then map_option (claimed_row 2) (find_event (w_db ?w) x) else find_event (w_db ?w) x)"
    using claim_run [OF gateway_reachable2 es low] by blast
  show ?thesis using run found by (intro that [of db']) (simp_all add: demo_rows)
qed

lemma demo_claim_again:
  assumes "claim demo_config {} 2 10 (demo_world demo_db2) = (Inr items, w1)"
  obtains items' w3 where "claim demo_config {} 3 10 w1 = (Inr items', w3)"
proof -
  note reach1 = reachable_step [OF demo_reachable2 step.claim [OF assms]]
  obtain db' where w1: "w1 = demo_world db'" "\<And>x. find_event db' x =
      (if x = lit ''hubspot:1'' then Some (claimed_row 2 demo_processed) else None)"
    using demo_claim [of "()"] assms by (metis prod.inject)
  have low: "\<forall>e \<in> set (select_for_upload (w_db w1) {} 3 10 (up_row_retry_after demo_config)
      (up_stale_after demo_config)). ev_attempt_count e < up_max_row_attempts demo_config"
  proof
    fix e assume "e \<in> set (select_for_upload (w_db w1) {} 3 10 (up_row_retry_after demo_config)
        (up_stale_after demo_config))"
    then have "find_event db' (ev_event_id e) = Some e"
      using select_for_upload_rows(1) reachable_distinct [OF reach1] w1(1) unfolding distinct_ids_def by fastforce
    then have "e = claimed_row 2 demo_processed" by (simp add: w1(2) split: if_splits)
    then show "ev_attempt_count e < up_max_row_attempts demo_config" by (simp add: demo_config_def)
  qed
  from claim_run [OF reach1 refl low] show ?thesis using that by metis
qed

text \<open>The platform refuses the next two requests, while one row is on its way.\<close>

definition demo_outage :: mock_state where
  "demo_outage = demo_platform\<lparr>ms_control := new_control\<lparr>ctl_mode := HTTP_503, ctl_times := Some 2\<rparr>\<rparr>"

lemma demo_failing: "mock_failing demo_actions 1 2 demo_outage"
  by (simp add: mock_failing_def outage_modes_def demo_outage_def demo_platform_def mock_create_app_def demo_actions_def)

lemma demo_good: "validate_row demo_ucd py_repr demo_actions (row_conversion (lit ''1'') demo_processed) = Inr None"
  using demo_ready [of py_repr "()"] by (simp add: uploader_ready_def demo_backlog)

text \<open>The uploader gives the row up, and the gateway is at rest again.\<close>

definition demo_dead :: "event \<Rightarrow> bool" where
  "demo_dead e \<longleftrightarrow> ev_event_id e = lit ''hubspot:1'' \<and> ev_status e = DEAD_LETTERED \<and> facts e = facts demo_processed"

lemma demo_dead_sendable:
  assumes "demo_dead e"
  shows "row_sendable demo_ucd demo_actions (up_customer_id demo_config) e"
proof -
  have "facts e = facts demo_processed" using assms by (simp add: demo_dead_def)
  from facts_columns(2,3) [OF this] demo_row_sendable show ?thesis unfolding row_sendable_def by metis
qed

lemma demo_dead_letter:
  obtains db d e where "reachable demo_ucd demo_phonelib (demo_gateway demo_platform db)"
    and "at_rest demo_codec demo_uuid (demo_gateway demo_platform db)"
    and "find_dead_letter db 1 = Some d" and "dl_replayed_at d = None" and "dl_event_id d = lit ''hubspot:1''"
    and "find_event db (lit ''hubspot:1'') = Some e" and "demo_dead e"
proof -
  let ?w = "demo_gateway demo_platform demo_db2" and ?x = "lit ''hubspot:1''"
  let ?c = "claimed_item (up_customer_id demo_config) (claimed_row 2 demo_processed)"
  have es: "[demo_processed] = select_for_upload (w_db ?w) {} 2 10 (up_row_retry_after demo_config)
      (up_stale_after demo_config)"
    using demo_ready [of _ demo_platform] by (subst select_quiet) (simp_all add: uploader_ready_def demo_backlog)
  have low: "\<forall>e \<in> set [demo_processed]. up_max_row_attempts demo_config \<le> ev_attempt_count e \<longrightarrow>
      ev_attempt_count e < 2 ^ 31" by simp
  obtain w1 where w1: "reachable demo_ucd demo_phonelib w1" "items_settled demo_config 2 [demo_processed] ?w w1"
    by (rule claim_settles [OF gateway_reachable2 es low])
  have row: "find_event (w_db w1) ?x = Some (claimed_row 2 demo_processed)"
      and others: "\<And>y. y \<noteq> ?x \<Longrightarrow> find_event (w_db w1) y = None" and none: "dead_letters (w_db w1) = []"
    using w1(2) by (simp_all add: items_settled_def settled_row_def demo_attempts demo_rows)
      (simp add: demo_db2_def demo_db_def recorded_def created_def moved_def empty_store_def Let_def)
  obtain w2 where dead: "dead_letter ?x POISON (lit ''r'') (Some (lit ''r'')) (Some (lit ''r'')) (cl_conversion ?c) 3 w1 =
        (Inr (), w2)" "store_fits (w_db w2)"
      "w_db w2 = dead_lettered (claimed_row 2 demo_processed) POISON (lit ''r'') (Some (lit ''r'')) (Some (lit ''r''))
        (cl_conversion ?c) 3 (w_db w1)"
    using dead_letter_ok [OF row _ fits_reachable [OF w1(1)], of "lit ''r''" "Some (lit ''r'')" POISON "Some (lit ''r'')"
        "cl_conversion ?c" 3] by auto
  have "by_id_keys [?c] = [?x]" "by_id [?c] ?x = Some ?c"
    by (simp_all add: by_id_keys_def by_id_def claimed_item_def)
  then have run: "dead_letter_all [?c] POISON (lit ''r'') (lit ''r'') (lit ''r'') 3 w1 =
      (Inr (no_report\<lparr>dead_lettered_count := 1\<rparr>), w2)"
    using dead(1,2) row
    by (simp add: dead_letter_all_def load_events_def on_db_gets se_bind_def transaction_def)
  let ?w2 = "demo_gateway demo_platform (w_db w2)"
  have reach: "reachable demo_ucd demo_phonelib ?w2"
    by (rule reachable_step [OF reachable_step [OF w1(1) step.give_up [OF run]] step.elsewhere]) simp
  define e where "e = (claimed_row 2 demo_processed)\<lparr>ev_status := DEAD_LETTERED, ev_status_reason := Some (lit ''r'')\<rparr>"
  have found: "find_event (w_db w2) y = (if y = ?x then Some e else None)" for y
    using row others by (simp add: dead(3) find_event_dead_lettered e_def)
  obtain d where d: "dead_letters (w_db w2) = [d]" "dl_id d = 1" "dl_replayed_at d = None" "dl_event_id d = ?x"
    using none by (simp add: dead(3) dead_lettered_def dead_letters_add dead_letter_row_def next_dead_letter_id_def moved_def)
  have dist: "distinct_ids (w_db w2)" using reachable_distinct [OF reach] by simp
  have dead_status: "ev_status e = DEAD_LETTERED" by (simp add: e_def)
  have "quiet (w_db w2)"
    unfolding quiet_found [OF dist] using found dead_status by simp
  moreover have "backlog (w_db w2) = []"
  proof (rule ccontr)
    assume "backlog (w_db w2) \<noteq> []"
    then obtain a where "a \<in> set (backlog (w_db w2))" by (cases "backlog (w_db w2)") auto
    then have "find_event (w_db w2) (ev_event_id a) = Some a" "ev_status a = PROCESSED"
      using backlog_found [OF dist] by blast+
    with found dead_status show False by (simp split: if_splits)
  qed
  ultimately have rest: "at_rest demo_codec demo_uuid ?w2"
    by (simp add: at_rest_def mq_ok_def new_memory_queue_def demo_codec_ok demo_uuid_inj)
  have "demo_dead e" by (simp add: demo_dead_def e_def facts_def claimed_row_def)
  then show ?thesis
    using reach rest d found by (intro that [of "w_db w2" d e]) (simp_all add: find_dead_letter_def)
qed

section \<open>A webhook\<close>

definition demo_hubspot :: HubSpotWebhook where
  "demo_hubspot =
     \<lparr>hw_event_id = 1, hw_object_id = 2, hw_occurred_at = 1790069400000, hw_conversion_action = lit ''closed_won'',
      hw_properties = \<lparr>hp_email = None, hp_phone = None, hp_firstname = None, hp_lastname = None, hp_address = None,
        hp_city = None, hp_state = None, hp_zip = None, hp_country = None,
        hp_hs_google_click_id = Some (lit ''click''), hp_amount = None, hp_deal_currency_code = None,
        hp_ad_user_data_consent = Some GRANTED, hp_ad_personalization_consent = Some GRANTED\<rparr>\<rparr>"

definition demo_parsers :: parsers where
  "demo_parsers = \<lparr>json_loads = (\<lambda>_. Some JNull), validate_salesforce = (\<lambda>_. Inl []),
     validate_hubspot = (\<lambda>_. Inr demo_hubspot)\<rparr>"

definition demo_settings :: Settings where
  "demo_settings = default_settings\<lparr>webhook_secret_hubspot := lit ''k''\<rparr>"

lemma demo_occurred_at: "fromtimestamp_ms 1790069400000 = Inr demo_datetime"
  by code_simp

lemma demo_parsed:
  "parse_and_map demo_ucd demo_parsers HUBSPOT JNull = Inr (demo_event\<lparr>ce_correlation_id := None\<rparr>)"
proof -
  have "make_event_id HUBSPOT (str_of_int 1) = lit ''hubspot:1''" "str_of_int 1 = lit ''1''"
    by code_simp+
  then show ?thesis
    using demo_occurred_at
    by (simp add: parse_and_map_def demo_parsers_def map_hubspot_def demo_hubspot_def check_event_def
        must_be_timezone_aware_def Let_def demo_event_def or_none_def no_identifiers_def present_def)
      (simp add: demo_datetime_def)
qed

lemma demo_passes_gate: "passes_gate demo_ucd P demo_event"
  by (simp add: passes_gate_def demo_event_def build_no_identifiers)

lemma demo_signed:
  obtains sig where "verify demo_ucd (lit ''k'') (Some (str_of_nat 5)) (Some sig) [] 5 300 = Inr None"
proof -
  have five: "str_of_nat 5 = [53]" by (subst str_of_nat_def, subst digits_of_nat.simps) simp
  then obtain sig where s: "compute_signature (lit ''k'') (str_of_nat 5) [] = Inr sig"
    by (simp add: compute_signature_def)
  have "length (str_of_nat 5) \<le> 4300" by (simp add: five)
  from py_int_str_of_nat [OF this] compute_signature_shape [OF s] s show ?thesis
    by (intro that [of sig]) (auto simp: verify_accepts_iff float_overflow_def lit_def)
qed

text \<open>A retry engine without a time ceiling: it keeps the contract.\<close>

primrec demo_retry :: "nat \<Rightarrow> nat \<Rightarrow> ('s, 'a) engine" where
  "demo_retry 0 k args fn s =
     (case fn s of
        (Inr x, s') \<Rightarrow> (Inr x, s')
      | (Inl e, s') \<Rightarrow>
          (Inl (if \<not> ra_retry args e \<or> ra_reraise args then Reraised e else RetryError e k), s'))"
| "demo_retry (Suc m) k args fn s =
     (case fn s of
        (Inr x, s') \<Rightarrow> (Inr x, s')
      | (Inl e, s') \<Rightarrow>
          if \<not> ra_retry args e then (Inl (Reraised e), s')
          else (case ra_before_sleep args (call_state e k) s' of
                  (Inl x, s'') \<Rightarrow> (Inl (Reraised x), s'')
                | (Inr u, s'') \<Rightarrow> demo_retry m (Suc k) args fn s''))"

definition demo_tenacity :: "('s, 'a) engine" where
  "demo_tenacity args = demo_retry (nat (ra_stop_after_attempt args - 1)) 1 args"

lemma demo_retry_run:
  "demo_retry m k args fn s = (r, s') \<Longrightarrow> 0 < m \<longrightarrow> int (k + m) \<le> ra_stop_after_attempt args \<Longrightarrow>
   retry_run args fn k s r s'"
proof (induction m arbitrary: k s)
  case 0
  then show ?case
    using retry_run.gave_up [of fn s _ s' args k]
    by (auto split: prod.splits sum.splits if_splits intro: retry_run.returned retry_run.not_retried)
next
  case (Suc m)
  then have k: "int k < ra_stop_after_attempt args"
      "0 < m \<longrightarrow> int (Suc k + m) \<le> ra_stop_after_attempt args" by simp_all
  obtain r1 s1 where one: "fn s = (r1, s1)" by fastforce
  show ?case
  proof (cases r1)
    case (Inr x)
    with one Suc.prems(1) show ?thesis by (auto intro: retry_run.returned)
  next
    case (Inl e)
    show ?thesis
    proof (cases "ra_retry args e")
      case False
      with one Inl Suc.prems(1) show ?thesis by (auto intro: retry_run.not_retried)
    next
      case True
      obtain r2 s2 where two: "ra_before_sleep args (call_state e k) s1 = (r2, s2)" by fastforce
      note run = one [unfolded Inl]
      show ?thesis
      proof (cases r2)
        case x: (Inl x)
        with two Suc.prems(1) run True have "r = Inl (Reraised x)" "s' = s2" by simp_all
        then show ?thesis using run True k(1) two x by (auto intro: retry_run.callback_raised)
      next
        case (Inr u)
        with Suc.prems(1) run True two have rest: "demo_retry m (Suc k) args fn s2 = (r, s')" by simp
        have "ra_before_sleep args (call_state e k) s1 = (Inr (), s2)" using two Inr by simp
        from retry_run.again [where fn = fn and s = s, OF run True k(1) this Suc.IH [OF rest k(2)]]
        show ?thesis .
      qed
    qed
  qed
qed

lemma demo_retry_contract: "retry_contract demo_tenacity"
  unfolding retry_contract_def demo_tenacity_def using demo_retry_run by fastforce

lemma demo_retry_gives_up: "demo_retry m k args fn s = (Inl (RetryError e n), s') \<Longrightarrow> n = k + m"
  by (induction m arbitrary: k s) (fastforce split: prod.splits sum.splits if_splits)+

lemma demo_patient: "patient demo_tenacity"
  unfolding patient_def using demo_retry_contract demo_retry_gives_up unfolding demo_tenacity_def by fastforce

section \<open>A service that keeps the Pub/Sub contract\<close>

text \<open>A queue in memory behind the calls of the Google client.\<close>

definition demo_received :: "Delivery \<Rightarrow> QueueMessage received_message" where
  "demo_received d =
     \<lparr>rm_ack_id = d_ack_id d, rm_data = d_message d, rm_delivery_attempt = Some (d_attempt d)\<rparr>"

definition demo_lease :: "pystr \<Rightarrow> Delivery" where
  "demo_lease a = \<lparr>d_ack_id = a, d_message = demo_message, d_attempt = 1\<rparr>"

definition demo_client :: "(QueueMessage memory_queue, QueueMessage, unit) pubsub_client" where
  "demo_client =
     \<lparr>topic_path = (\<lambda>p t. p @ t), subscription_path = (\<lambda>p s. p @ s),
      api_publish = (\<lambda>_. mq_publish demo_codec), future_result = (\<lambda>_ _. se_return ()),
      api_pull = (\<lambda>_ n _ q. case mq_receive demo_codec demo_uuid n q of
          (Inl e, q') \<Rightarrow> (Inl e, q') | (Inr ds, q') \<Rightarrow> (Inr (map demo_received ds), q')),
      api_acknowledge = (\<lambda>_ as. mq_ack (demo_lease (hd as))),
      api_modify_ack_deadline = (\<lambda>_ as _. mq_nack (demo_lease (hd as))),
      api_create_topic = (\<lambda>_. se_return ()), api_create_subscription = (\<lambda>_ _ _. se_return ())\<rparr>"

definition demo_view :: "(QueueMessage memory_queue, QueueMessage) pubsub_view" where
  "demo_view =
     \<lparr>pv_ok = mq_ok demo_codec demo_uuid, pv_backlog = mq_unacked demo_codec,
      pv_leased = (\<lambda>q a. map_option fst (map_of (mq_inflight q) a))\<rparr>"

lemma demo_publish_contract: "publish_contract demo_client demo_view t"
  using memory.publish_ok [of demo_codec demo_uuid] memory.publish_accepted [of demo_codec demo_uuid]
  by (auto simp: publish_contract_def demo_client_def demo_view_def mq_publish_def)

text \<open>A lease is a held delivery.\<close>

lemma demo_leased:
  "pv_leased demo_view q a = Some m \<longleftrightarrow>
     (\<exists>n. mq_holds demo_codec q \<lparr>d_ack_id = a, d_message = m, d_attempt = n\<rparr>)"
  by (auto simp: demo_view_def mq_holds_def demo_codec_def)

lemma demo_settle:
  "mq_ack (demo_lease a) = mq_ack \<lparr>d_ack_id = a, d_message = m, d_attempt = n\<rparr>"
  "mq_nack (demo_lease a) = mq_nack \<lparr>d_ack_id = a, d_message = m, d_attempt = n\<rparr>"
  by (simp_all add: mq_ack_def mq_nack_def demo_lease_def)

lemma demo_other_lease:
  "b \<noteq> a \<Longrightarrow> mq_ack (demo_lease a) q = (r, q') \<Longrightarrow> pv_leased demo_view q' b = pv_leased demo_view q b"
  "b \<noteq> a \<Longrightarrow> mq_nack (demo_lease a) q = (r, q') \<Longrightarrow> pv_leased demo_view q' b = pv_leased demo_view q b"
  by (auto simp: mq_ack_def mq_nack_def demo_lease_def demo_view_def delete_conv Let_def split: option.splits)

lemma demo_lease_contract: "lease_contract demo_client demo_view sub"
proof -
  have pull: "pv_ok demo_view s' \<and> pv_backlog demo_view s' = pv_backlog demo_view s \<and>
      (\<forall>ms. r = Inr ms \<longrightarrow> length ms \<le> n \<and> distinct (map rm_ack_id ms) \<and>
         (\<forall>m \<in> set ms. pv_leased demo_view s' (rm_ack_id m) = Some (rm_data m)))"
    if "pv_ok demo_view s" "api_pull demo_client sub n t s = (r, s')" for s n t r s'
  proof -
    note prems = that
    have ok: "mq_ok demo_codec demo_uuid s" using prems(1) by (simp add: demo_view_def)
    obtain r1 where rec: "mq_receive demo_codec demo_uuid n s = (r1, s')"
        "r = (case r1 of Inl e \<Rightarrow> Inl e | Inr ds \<Rightarrow> Inr (map demo_received ds))"
      using prems(2) by (auto simp: demo_client_def split: prod.splits sum.splits)
    note m = mq_receive_ok [OF ok rec(1)]
    then obtain ds where ds: "r1 = Inr ds" "length ds \<le> n" "distinct (map d_ack_id ds)"
        "\<forall>d \<in> set ds. mq_holds demo_codec s' d" by blast
    have "pv_leased demo_view s' (d_ack_id d) = Some (d_message d)" if "d \<in> set ds" for d
    proof -
      have "d = \<lparr>d_ack_id = d_ack_id d, d_message = d_message d, d_attempt = d_attempt d\<rparr>" by simp
      with ds(4) that show ?thesis unfolding demo_leased by metis
    qed
    with m ds rec(2) show ?thesis
      by (auto simp: demo_view_def demo_received_def comp_def)
  qed
  have ack: "r = Inr () \<and> pv_ok demo_view s' \<and>
      add_mset data (pv_backlog demo_view s') = pv_backlog demo_view s \<and>
      (\<forall>b. b \<noteq> a \<longrightarrow> pv_leased demo_view s' b = pv_leased demo_view s b)"
    if "pv_ok demo_view s" "pv_leased demo_view s a = Some data"
      "api_acknowledge demo_client sub [a] s = (r, s')" for s a data r s'
  proof -
    note prems = that
    have ok: "mq_ok demo_codec demo_uuid s" using prems(1) by (simp add: demo_view_def)
    obtain n where held: "mq_holds demo_codec s \<lparr>d_ack_id = a, d_message = data, d_attempt = n\<rparr>"
      using prems(2) unfolding demo_leased by blast
    have run: "mq_ack (demo_lease a) s = (r, s')" using prems(3) by (simp add: demo_client_def)
    note memory.ack_done [OF ok held run [unfolded demo_settle(1) [of a data n]]]
    then have "r = Inr () \<and> mq_ok demo_codec demo_uuid s' \<and>
        add_mset data (mq_unacked demo_codec s') = mq_unacked demo_codec s" by simp
    with demo_other_lease(1) [OF _ run] show ?thesis by (simp add: demo_view_def)
  qed
  have nack: "r = Inr () \<and> pv_ok demo_view s' \<and> pv_backlog demo_view s' = pv_backlog demo_view s \<and>
      (\<forall>b. b \<noteq> a \<longrightarrow> pv_leased demo_view s' b = pv_leased demo_view s b)"
    if "pv_ok demo_view s" "pv_leased demo_view s a = Some data"
      "api_modify_ack_deadline demo_client sub [a] 0 s = (r, s')" for s a data r s'
  proof -
    note prems = that
    have ok: "mq_ok demo_codec demo_uuid s" using prems(1) by (simp add: demo_view_def)
    obtain n where held: "mq_holds demo_codec s \<lparr>d_ack_id = a, d_message = data, d_attempt = n\<rparr>"
      using prems(2) unfolding demo_leased by blast
    have run: "mq_nack (demo_lease a) s = (r, s')" using prems(3) by (simp add: demo_client_def)
    have "r = Inr () \<and> mq_ok demo_codec demo_uuid s' \<and>
        mq_unacked demo_codec s' = mq_unacked demo_codec s"
      using memory.nack_done [OF ok held run [unfolded demo_settle(2) [of a data n]]] .
    with demo_other_lease(2) [OF _ run] show ?thesis by (simp add: demo_view_def)
  qed
  show ?thesis unfolding lease_contract_def using pull ack nack by blast
qed

section \<open>Log timestamps are taken for phone numbers\<close>

text \<open>
  \<open>TimeStamper\<close> runs before \<open>redact_pii\<close>, and an ISO timestamp contains what the phone pattern
  matches: eight characters and more of digits and dashes.
\<close>

lemma log_timestamp_redacted:
  "scrub_string demo_ucd (lit ''2026-09-22T09:30:00.123456Z'') = REDACTED @ lit ''T09:30:'' @ REDACTED @ lit ''Z''"
  by code_simp

end
