(* ===== verification/Spec2Isabelle.thy ===== *)
theory Spec2Isabelle
  imports Demo
begin

text \<open>
  A verification library for the conversion gateway (Python, \<open>src/gateway\<close>): CRM webhooks come in,
  are authenticated, validated and written to an event ledger (\<open>api\<close>, \<open>ledger.py\<close>), travel on a
  queue to a worker (\<open>queue\<close>, \<open>worker.py\<close>, \<open>processor.py\<close>) that applies the consent gate
  (\<open>consent\<close>) and normalises and hashes the identifiers (\<open>normalise\<close>), and are uploaded in batches
  to an advertising platform (\<open>upload\<close>); what fails for good goes to a dead-letter store (\<open>dlq\<close>),
  from which an operator replays it (\<open>cli.py\<close>). Every log line is redacted (\<open>observability\<close>). A mock
  of the platform (\<open>src/mock_ads_api\<close>) and a seeding command belong to the repository.

  Theories, in the order of their imports:
  \<^item> \<open>Prelude\<close>: Python strings as lists of code points; statements that read and write a state
    and may raise (\<open>se\<close>); \<open>preserves\<close> (an invariant survives, even an exception) and \<open>keeps\<close> (it
    survives success; used inside transactions, where failure is rolled back).
  \<^item> \<open>PyStr\<close>, \<open>Sha256\<close>, \<open>Text\<close>: the string methods the source uses (ASCII computed, other characters
    through a parameter \<open>ucd\<close>), UTF-8, SHA-256 and HMAC on 32-bit words, padded fields, ISO
    timestamps and \<open>json.dumps\<close>.
  \<^item> \<open>Regex\<close>, \<open>Redaction\<close> (\<open>observability/logging.py\<close>): a backtracking matcher for the patterns
    of the program, and the scrubbing of log lines; the locale \<open>redacting\<close> gives, for a pattern that
    cannot match across a replacement, that a scrubbed string has no match left.
  \<^item> \<open>Lifecycle\<close> (\<open>models/status.py\<close>), \<open>Consent\<close> (\<open>consent/gate.py\<close>), \<open>Normalise\<close>
    (\<open>normalise/*.py\<close>, with the normaliser contracts as locales), \<open>Canonical\<close>
    (\<open>models/canonical.py\<close>, \<open>upload/errors.py\<close>).
  \<^item> \<open>Config\<close> (\<open>config.py\<close>): the settings, their defaults and constraints.
  \<^item> \<open>Ledger\<close> (\<open>models/ledger.py\<close>, \<open>ledger.py\<close>): the three tables as lists of records; every
    operation; the locale \<open>ledger_changes\<close>, whose assumptions are the elementary changes of the
    ledger, and \<open>ledger_invariant\<close> and \<open>ledger_steps\<close>, which differ in how a row is created. Their
    lemmas carry any such invariant through every operation.
  \<^item> \<open>Schema\<close> (\<open>migrations/versions\<close>): the migrations as changes of a list of tables; they build
    the tables of the models, can be undone, and accept the rows that theory Ledger accepts.
  \<^item> \<open>History\<close>: four interpretations of \<open>ledger_steps\<close>: the audit log explains the status
    (\<open>ledger_ok\<close>), history is append-only (\<open>evolves\<close>), nothing passes the worker without consent
    and a match key (\<open>gated\<close>), open dead letters are the dead events (\<open>letters_ok\<close>).
  \<^item> \<open>Metrics\<close> (\<open>observability/metrics.py\<close>): labelled series, counters, observed values and their
    buckets, and what the reading helpers return. \<open>World\<close> (with the session factory of \<open>db.py\<close>):
    database, metrics, standard output and queue; \<open>transaction\<close> rolls back the database only.
  \<^item> \<open>Queue\<close> (\<open>queue/base.py\<close>, \<open>queue/memory.py\<close>): the transport contract as a locale and the
    in-memory queue as its interpretation. \<open>Pubsub\<close> (\<open>queue/pubsub.py\<close>): the Pub/Sub transport, and
    that it keeps the same contract under the documented behaviour of the client library.
  \<^item> \<open>Processor\<close> (\<open>processor.py\<close>, \<open>worker.py\<close>): the decision \<open>decide\<close> as specification,
    \<open>process_message\<close> as its refinement; deliveries under the queue contract.
  \<^item> \<open>Backoff\<close>, \<open>Batching\<close>, \<open>Conversion\<close>, \<open>Client\<close>, \<open>Uploader\<close> (\<open>upload/*.py\<close>): the retry policy
    and the call through tenacity, classification, batcher, the conversion row as JSON, the response
    parser with Python's exceptions, the upload cycle.
  \<^item> \<open>Fake\<close> (\<open>upload/fake.py\<close>), \<open>MockAds\<close> (\<open>mock_ads_api/app.py\<close>): the scripted client, and the mock
    platform with its validation and control plane. What the gateway builds passes the mock's
    checks, and what the client reads from its answer is the verdict on each row.
  \<^item> \<open>Dlq\<close> (\<open>dlq/store.py\<close>), \<open>Signature\<close> and \<open>Ingest\<close> (\<open>api/*.py\<close>), \<open>Cli\<close> (the commands of \<open>cli.py\<close>
    with the text they print), \<open>Commands\<close> (\<open>wiring.py\<close>, \<open>api/app.py\<close>, and how the command line
    puts the processes together, with exit codes), \<open>Seed\<close> (\<open>seed.py\<close>).
  \<^item> \<open>Gateway\<close>: any interleaving of the transactions of all processes (\<open>step\<close>, \<open>reachable\<close>) and
    the invariants of the reachable states. \<open>Progress\<close>: a fifth invariant, \<open>complete_rows\<close>, under
    which no delivery raises, and that the worker drains its queue.
  \<^item> \<open>Cycles\<close>: what one cycle of the uploader achieves; the locale \<open>row_work\<close> carries what the
    uploader's primitive changes keep through all its runs, and \<open>accepting_client\<close> states the contract
    of a platform in order. \<open>Resend\<close>: a sixth invariant, \<open>resendable\<close>: a row that has left the queue
    keeps its digests, so what is sent twice is the same. \<open>Lease\<close>: a seventh, \<open>leased\<close>: the lease of
    a row never changes without a line in the log, so a claimed row is not handed out again.
    \<open>Backlog\<close>: an uploader before an accepting client empties its backlog; the mock platform is one
    (\<open>mock_serving\<close> reads the control that its next request will see).
    \<open>Journey\<close>: one webhook on its way from the API to the platform.
  \<^item> \<open>Replay\<close>: an open dead letter on its way back: operator, worker, uploader. \<open>Ceiling\<close>: a claim in
    full, with the rows that have no attempts left, and what the attempt count means (\<open>counted\<close>: the
    lines to UPLOADING since the row was last queued). \<open>Outage\<close>: a batch in front of a failing platform:
    \<open>recovering_client\<close> extends \<open>accepting_client\<close> by the number of requests that still fail, and its
    lemmas follow \<open>upload_batch\<close> through the retries to either outcome; the mock platform with an
    outage set over its control plane is the interpretation. \<open>Demo\<close>: small concrete runs.

  Parameters are the code that is not in the repository: the Unicode database, \<open>phonenumbers\<close>,
  pydantic's schema validation and JSON codecs, \<open>json.loads\<close>, \<open>repr\<close>, \<open>datetime.fromisoformat\<close>, httpx, tenacity,
  uuid4, the Google client, structlog's processors, the database driver's JSON and time zone, and
  the probe \<open>SELECT 1\<close>. What is relied on is stated where it is used: \<open>codec_ok\<close> (a message read
  back is the message written), injective uuids, \<open>retry_contract\<close> (tenacity's documented loop) and \<open>patient\<close> (it does not stop
  before the attempts are used up), and
  \<open>publish_contract\<close> and \<open>lease_contract\<close> (Pub/Sub keeps a message until it is acknowledged). Loops
  over lists are structural; the loops of the worker, the uploader and the seeding poll run for a
  given number of iterations, since the signal or deadline that ends them is outside; the uploader's
  loop takes for each cycle the rows that others have locked and its clocks, and as many cycles as
  there are full batches, and two more, are enough to upload a backlog; \<open>mq_receive\<close>
  counts down the deliveries still wanted. The matcher of \<open>Regex\<close> recurses on the pattern, and the
  scan for matches on the length of the rest.

  Simplifications: a transaction is atomic, and concurrent ones are interleaved as wholes, with the
  rows that others have locked as the argument \<open>locked\<close> of a claim; \<open>ORDER BY\<close> breaks ties by order
  of insertion; instants are whole microseconds, UTC offsets whole minutes; in the ledger the
  counters are natural numbers, and the database's refusal of NUL characters is left out.

  Not modelled: creating the engine, reading settings from the environment, typer's parsing of
  arguments, signal handlers, log calls, the exposition format of the metrics, the sleeping between
  retries, and the web frameworks' routing, all of which are calls of libraries;
  \<open>migrations/env.py\<close> hands the URL and the metadata to Alembic.
\<close>

section \<open>Properties\<close>

text \<open>
  C1. Whatever the API, worker, uploader and operator processes did, in whatever order: an event
  whose status is PROCESSED, UPLOADING, UPLOADED, FAILED_RETRYABLE or DEAD_LETTERED has both
  consent columns GRANTED, its stored digests are 64 hex characters each, and it has a click id or
  digests that form a match key.
\<close>

theorem uploads_are_gated:
  assumes "reachable U P w" and "find_event (w_db w) x = Some e" and "past_worker (ev_status e)"
  shows "consented e \<and>
    (\<exists>h. ev_hashed_identifiers e = Some h \<and> hashed_ok h \<and> (truthy (ev_click_id e) \<or> has_match_key h))"
proof -
  have "gated (w_db w)" using assms(1) empty_store_ok(2) by (rule gate.inv_reachable)
  then have "row_gated e" using assms(2) by (simp add: gated_def)
  with assms(3) show ?thesis by (auto simp: row_gated_def usable_def)
qed

theorem uploads_are_gated_witness:
  "consented ((queued_row demo_row)\<lparr>ev_hashed_identifiers := Some demo_digests, ev_status := PROCESSED,
      ev_status_reason := None\<rparr>)"
  using uploads_are_gated [OF demo_reachable2, of "lit ''hubspot:1''"] demo_found2
  by (simp add: past_worker_def)

text \<open>
  C2. The whole way of a webhook, with the mock platform in order. The gateway is at rest in a
  reachable state (nothing on the queue, nothing to upload); a webhook arrives whose signature
  verifies and whose payload parses to an event that the ledger does not have, with both consents
  granted, identifiers of which no normaliser rejects one and that hold a match key unless there
  is a click id, and a conversion action that the platform knows. Then the API answers 202 QUEUED;
  one iteration of the worker and two cycles of the uploader run without raising; the event is
  UPLOADED, the platform has stored exactly one more row, whose orderId is the event id; and when
  the CRM delivers the webhook again, freshly signed, the API answers 200 with the status UPLOADED
  and nothing changes.
\<close>

theorem accepted_webhook_reaches_the_platform:
  assumes "reachable U P w" and "at_rest C uuid w" and "mock_serving known timeout (u_platform w)"
    and "source_or_404 source = Some src" and "json_loads V body = Some payload"
    and "parse_and_map U V src payload = Inr event"
    and "verify U (secret_for cfg src) th sh body clock (webhook_timestamp_tolerance_seconds cfg) = Inr None"
    and "event_fits (validated_row (event\<lparr>ce_correlation_id := Some corr\<rparr>) now)"
    and "find_event (w_db w) (ce_event_id event) = None"
    and "passes_gate U P event" and "sendable U known (up_customer_id ucfg) event"
    and "0 < batch" and "retry_contract tenacity" and "1 \<le> up_max_row_attempts ucfg"
    and "ce_event_id event \<notin> l1"
    and "t1 + b_max_wait (u_batcher w) \<le> t2" and "t2 < t1 + up_stale_after ucfg"
    and "verify U (secret_for cfg src) th' sh' body clock' (webhook_timestamp_tolerance_seconds cfg) = Inr None"
    and "event_fits (validated_row (event\<lparr>ce_correlation_id := Some corr'\<rparr>) now')"
  shows "\<exists>w1 w2 w3 row answer.
    post_webhook U V cfg (mq_publish C) source th sh body clock now corr w =
      (Inr (AcceptedResponse 202 (ce_event_id event) QUEUED corr), w1) \<and>
    worker_run U P (mq_receive C uuid) mq_ack mq_nack batch wclock 1 w1 = (Inr (), w2) \<and>
    uploader_run tenacity (http_upload py_repr (mock_post U py_repr timeout)) ucfg
      [(l1, k1, t1), (l2, k2, t2)] w2 = (Inr (), w3) \<and>
    map_option ev_status (find_event (w_db w3) (ce_event_id event)) = Some UPLOADED \<and>
    ms_uploads (u_platform w3) = ms_uploads (u_platform w) @ [row] \<and>
    json_field ''orderId'' row = Some (JStr (ce_event_id event)) \<and>
    post_webhook U V cfg (mq_publish C) source th' sh' body clock' now' corr' w3 =
      (Inr (AcceptedResponse 200 (ce_event_id event) UPLOADED answer), w3)"
proof -
  let ?x = "ce_event_id event"
  obtain w1 w2 h where api: "post_webhook U V cfg (mq_publish C) source th sh body clock now corr w =
        (Inr (AcceptedResponse 202 ?x QUEUED corr), w1)"
    and worker: "worker_run U P (mq_receive C uuid) mq_ack mq_nack batch wclock 1 w1 = (Inr (), w2)"
    and w2: "reachable U P w2" "u_batcher w2 = u_batcher w" "u_platform w2 = u_platform w"
      "\<And>x. find_event (w_db w2) x = (if x = ?x then Some (sent_row event corr now h) else find_event (w_db w) x)"
    using webhook_processed [OF assms(1,2,4-10,12), where wclock = wclock] by blast
  have row: "ev_attempt_count (sent_row event corr now h) < up_max_row_attempts ucfg"
    using assms(14) by simp
  obtain w3 e3 where w3: "uploader_run tenacity (http_upload py_repr (mock_post U py_repr timeout)) ucfg
        [(l1, k1, t1), (l2, k2, t2)] w2 = (Inr (), w3)" "reachable U P w3"
      "find_event (w_db w3) ?x = Some e3" "ev_status e3 = UPLOADED"
      "ms_uploads (u_platform w3) = ms_uploads (u_platform w) @ [row_conversion (up_customer_id ucfg) (sent_row event corr now h)]"
    by (rule one_row_sent [OF assms(13,1-3) w2 _ row sendable_row [OF assms(11)] assms(15-17)]) simp_all
  note again = webhook_redelivered [OF assms(4,18,5,6) w3(3) fits_reachable [OF w3(2)] assms(19), unfolded w3(4)]
  show ?thesis
    using api worker w3(1,3-5) again sent_order_id by (intro exI conjI) (assumption | simp)+
qed

theorem accepted_webhook_reaches_the_platform_witness:
  "\<exists>th sh w1 w2 w3.
     post_webhook demo_ucd demo_parsers demo_settings (mq_publish demo_codec) (lit ''hubspot'') th sh [] 5 0 (lit ''c1'')
       (demo_gateway demo_platform empty_store) = (Inr (AcceptedResponse 202 (lit ''hubspot:1'') QUEUED (lit ''c1'')), w1) \<and>
     worker_run demo_ucd demo_phonelib (mq_receive demo_codec demo_uuid) mq_ack mq_nack 10 (\<lambda>_. 1) 1 w1 = (Inr (), w2) \<and>
     uploader_run demo_tenacity demo_client_upload demo_config [({}, demo_clocks, 2), ({}, demo_clocks, 8)] w2 = (Inr (), w3) \<and>
     map_option ev_status (find_event (w_db w3) (lit ''hubspot:1'')) = Some UPLOADED"
proof -
  let ?w = "demo_gateway demo_platform empty_store" and ?event = "demo_event\<lparr>ce_correlation_id := None\<rparr>"
  obtain sig where sig: "verify demo_ucd (lit ''k'') (Some (str_of_nat 5)) (Some sig) [] 5 300 = Inr None"
    by (rule demo_signed)
  have reach: "reachable demo_ucd demo_phonelib ?w"
    unfolding reachable_def by (intro exI [of _ ?w]) simp
  have serving: "mock_serving demo_actions 1 (u_platform ?w)" by (simp add: demo_serving)
  have source: "source_or_404 (lit ''hubspot'') = Some HUBSPOT" by (simp add: source_or_404_def lit_def)
  have body: "json_loads demo_parsers [] = Some JNull" by (simp add: demo_parsers_def)
  have signed: "verify demo_ucd (secret_for demo_settings HUBSPOT) (Some (str_of_nat 5)) (Some sig) [] 5
      (webhook_timestamp_tolerance_seconds demo_settings) = Inr None"
    using sig by (simp add: demo_settings_def default_settings_def)
  have "?event\<lparr>ce_correlation_id := Some (lit ''c1'')\<rparr> = demo_event" by (simp add: demo_event_def)
  then have fits: "event_fits (validated_row (?event\<lparr>ce_correlation_id := Some (lit ''c1'')\<rparr>) 0)"
    using demo_row_fits by (simp only: demo_row_def)
  have gate: "passes_gate demo_ucd demo_phonelib ?event" and
      row: "sendable demo_ucd demo_actions (up_customer_id demo_config) ?event"
    using demo_passes_gate demo_sendable by (simp_all add: passes_gate_def sendable_def demo_config_def)
  have new: "find_event (w_db ?w) (ce_event_id ?event) = None" by simp
  have times: "0 < (10 :: nat)" "1 \<le> up_max_row_attempts demo_config" "ce_event_id ?event \<notin> {}"
      "2 + b_max_wait (u_batcher ?w) \<le> 8" "8 < 2 + up_stale_after demo_config"
    by (simp_all add: demo_config_def)
  obtain w1 w2 w3 where "post_webhook demo_ucd demo_parsers demo_settings (mq_publish demo_codec) (lit ''hubspot'')
        (Some (str_of_nat 5)) (Some sig) [] 5 0 (lit ''c1'') ?w =
        (Inr (AcceptedResponse 202 (ce_event_id ?event) QUEUED (lit ''c1'')), w1)"
      "worker_run demo_ucd demo_phonelib (mq_receive demo_codec demo_uuid) mq_ack mq_nack 10 (\<lambda>_. 1) 1 w1 = (Inr (), w2)"
      "uploader_run demo_tenacity demo_client_upload demo_config [({}, demo_clocks, 2), ({}, demo_clocks, 8)] w2 = (Inr (), w3)"
      "map_option ev_status (find_event (w_db w3) (ce_event_id ?event)) = Some UPLOADED"
    using accepted_webhook_reaches_the_platform [OF reach demo_at_rest serving source body demo_parsed signed fits new
        gate row times(1) demo_retry_contract times(2-5) signed fits, where py_repr = "\<lambda>_. []" and wclock = "\<lambda>_. 1" and
        ?k1.0 = demo_clocks and ?l2.0 = "{}" and ?k2.0 = demo_clocks] by blast
  then show ?thesis by (intro exI conjI) (assumption | simp)+
qed

text \<open>
  C3. The way back of a dead-lettered event, with the mock platform in order and the gateway at
  rest in a reachable state. An operator replays an open record; its event is then DEAD_LETTERED
  indeed. The replay, one iteration of the worker and two cycles of the uploader all succeed: the
  event is UPLOADED, with the digests that it had; the platform has stored exactly one more row,
  the one that build_conversion makes of the dead-lettered event; no record of the event is open
  any more; and no other event has changed.
\<close>

theorem replayed_event_reaches_the_platform:
  assumes "reachable U P w" and "at_rest C uuid w" and "mock_serving known timeout (u_platform w)"
    and "find_dead_letter (w_db w) i = Some d" and "dl_replayed_at d = None" and "i < 2 ^ 31"
    and "find_event (w_db w) (dl_event_id d) = Some e" and "row_sendable U known (up_customer_id ucfg) e"
    and "0 < batch" and "retry_contract tenacity" and "1 \<le> up_max_row_attempts ucfg" and "dl_event_id d \<notin> l1"
    and "t1 + b_max_wait (u_batcher w) \<le> t2" and "t2 < t1 + up_stale_after ucfg"
  shows "\<exists>w1 w2 w3 e3 row. ev_status e = DEAD_LETTERED \<and>
    replay_candidate (mq_publish C) now i w = (Inr True, w1) \<and>
    worker_run U P (mq_receive C uuid) mq_ack mq_nack batch wclock 1 w1 = (Inr (), w2) \<and>
    uploader_run tenacity (http_upload py_repr (mock_post U py_repr timeout)) ucfg
      [(l1, k1, t1), (l2, k2, t2)] w2 = (Inr (), w3) \<and>
    find_event (w_db w3) (dl_event_id d) = Some e3 \<and> ev_status e3 = UPLOADED \<and>
    ev_hashed_identifiers e3 = ev_hashed_identifiers e \<and>
    build_conversion e (up_customer_id ucfg) = Inr row \<and>
    ms_uploads (u_platform w3) = ms_uploads (u_platform w) @ [row] \<and>
    open_letters (w_db w3) (dl_event_id d) = [] \<and>
    (\<forall>y. y \<noteq> dl_event_id d \<longrightarrow> find_event (w_db w3) y = find_event (w_db w) y)"
proof -
  let ?x = "dl_event_id d"
  obtain e0 w1 w2 where dead: "find_event (w_db w) ?x = Some e0" "ev_status e0 = DEAD_LETTERED"
    and op: "replay_candidate (mq_publish C) now i w = (Inr True, w1)"
    and worker: "worker_run U P (mq_receive C uuid) mq_ack mq_nack batch wclock 1 w1 = (Inr (), w2)"
    and w2: "reachable U P w2" "u_batcher w2 = u_batcher w" "u_platform w2 = u_platform w"
      "\<And>y. find_event (w_db w2) y = (if y = ?x then Some (revived_row e0) else find_event (w_db w) y)"
    using replay_processed [OF assms(1,2,4-6,9), where wclock = wclock and now = now] by blast
  have e0: "e0 = e" using dead(1) assms(7) by simp
  have row: "ev_status (revived_row e0) = PROCESSED" "ev_attempt_count (revived_row e0) < up_max_row_attempts ucfg"
    using assms(11) by simp_all
  have sendable: "row_sendable U known (up_customer_id ucfg) (revived_row e0)"
    using assms(8) unfolding e0 by (rule sendable_revived)
  obtain w3 e3 where w3: "uploader_run tenacity (http_upload py_repr (mock_post U py_repr timeout)) ucfg
        [(l1, k1, t1), (l2, k2, t2)] w2 = (Inr (), w3)" "reachable U P w3"
      "find_event (w_db w3) ?x = Some e3" "ev_status e3 = UPLOADED"
      "ms_uploads (u_platform w3) = ms_uploads (u_platform w) @ [row_conversion (up_customer_id ucfg) (revived_row e0)]"
      "\<And>y. y \<noteq> ?x \<Longrightarrow> find_event (w_db w3) y = find_event (w_db w) y"
    by (rule one_row_sent [where py_repr = py_repr and ?k1.0 = k1 and ?l2.0 = l2 and ?k2.0 = k2,
          OF assms(10,1-3) w2 row sendable assms(12-14)]) blast
  have kept: "ev_hashed_identifiers e3 = ev_hashed_identifiers e"
    using uploader_keeps_digests [OF assms(10) w3(1) reachable_distinct [OF w2(1)], of ?x "revived_row e0" e3] w2(4) w3(3) e0
    by simp
  obtain row where built: "build_conversion e (up_customer_id ucfg) = Inr row"
    using assms(8) build_conversion_ok unfolding row_sendable_def by metis
  then have "row_conversion (up_customer_id ucfg) (revived_row e0) = row"
    unfolding e0 conversion_revived by (simp add: row_conversion_def)
  with w3(5) have sent: "ms_uploads (u_platform w3) = ms_uploads (u_platform w) @ [row]" by simp
  have "letters_ok (w_db w3)" using w3(2) empty_store_ok(3) by (rule letters.inv_reachable)
  moreover have "\<not> is_dead (w_db w3) ?x" using w3(3,4) by (simp add: is_dead_def)
  ultimately have "length (open_letters (w_db w3) ?x) = 0" by (simp add: letters_ok_def)
  then have closed: "open_letters (w_db w3) ?x = []" by simp
  have others: "\<forall>y. y \<noteq> ?x \<longrightarrow> find_event (w_db w3) y = find_event (w_db w) y" using w3(6) by blast
  show ?thesis
    using dead(2) e0 op worker w3(1,3,4) kept built sent closed others by (intro exI conjI) (assumption | simp)+
qed

theorem replayed_event_reaches_the_platform_witness:
  "\<exists>db w1 w2 w3. map_option ev_status (find_event db (lit ''hubspot:1'')) = Some DEAD_LETTERED \<and>
     replay_candidate (mq_publish demo_codec) 4 1 (demo_gateway demo_platform db) = (Inr True, w1) \<and>
     worker_run demo_ucd demo_phonelib (mq_receive demo_codec demo_uuid) mq_ack mq_nack 10 (\<lambda>_. 4) 1 w1 = (Inr (), w2) \<and>
     uploader_run demo_tenacity demo_client_upload demo_config [({}, demo_clocks, 5), ({}, demo_clocks, 11)] w2 = (Inr (), w3) \<and>
     map_option ev_status (find_event (w_db w3) (lit ''hubspot:1'')) = Some UPLOADED"
proof -
  obtain db d e where dead: "reachable demo_ucd demo_phonelib (demo_gateway demo_platform db)"
      "at_rest demo_codec demo_uuid (demo_gateway demo_platform db)"
      "find_dead_letter db 1 = Some d" "dl_replayed_at d = None" "dl_event_id d = lit ''hubspot:1''"
      "find_event db (lit ''hubspot:1'') = Some e" "demo_dead e"
    by (rule demo_dead_letter)
  let ?w = "demo_gateway demo_platform db"
  have serving: "mock_serving demo_actions 1 (u_platform ?w)" by (simp add: demo_serving)
  have letter: "find_dead_letter (w_db ?w) 1 = Some d" "(1 :: nat) < 2 ^ 31"
      "find_event (w_db ?w) (dl_event_id d) = Some e" "dl_event_id d \<notin> {}"
    using dead(3,5,6) by simp_all
  have sendable: "row_sendable demo_ucd demo_actions (up_customer_id demo_config) e"
    using dead(7) by (rule demo_dead_sendable)
  have times: "0 < (10 :: nat)" "1 \<le> up_max_row_attempts demo_config"
      "5 + b_max_wait (u_batcher ?w) \<le> 11" "11 < 5 + up_stale_after demo_config"
    by (simp_all add: demo_config_def)
  have "\<exists>w1 w2 w3 e3 row. ev_status e = DEAD_LETTERED \<and>
      replay_candidate (mq_publish demo_codec) 4 1 ?w = (Inr True, w1) \<and>
      worker_run demo_ucd demo_phonelib (mq_receive demo_codec demo_uuid) mq_ack mq_nack 10 (\<lambda>_. 4) 1 w1 = (Inr (), w2) \<and>
      uploader_run demo_tenacity demo_client_upload demo_config [({}, demo_clocks, 5), ({}, demo_clocks, 11)] w2 = (Inr (), w3) \<and>
      find_event (w_db w3) (dl_event_id d) = Some e3 \<and> ev_status e3 = UPLOADED \<and>
      ev_hashed_identifiers e3 = ev_hashed_identifiers e \<and>
      build_conversion e (up_customer_id demo_config) = Inr row \<and>
      ms_uploads (u_platform w3) = ms_uploads (u_platform ?w) @ [row] \<and>
      open_letters (w_db w3) (dl_event_id d) = [] \<and>
      (\<forall>y. y \<noteq> dl_event_id d \<longrightarrow> find_event (w_db w3) y = find_event (w_db ?w) y)"
    by (rule replayed_event_reaches_the_platform [OF dead(1,2) serving letter(1) dead(4) letter(2,3) sendable times(1)
          demo_retry_contract times(2) letter(4) times(3,4)])
  then show ?thesis using dead(5,6) by (auto simp del: worker_run.simps uploader_run.simps)
qed



text \<open>
  C5. In every reachable state, for every event id, reading the lines of event_transitions in
  order (a first line NULL to RECEIVED, then only transitions of ALLOWED_TRANSITIONS or the
  uploader's reclaimed_stale line) ends in exactly the status and the reason that the row of
  events has; an id without a row has no line.
\<close>

theorem audit_log_explains_status:
  assumes "reachable U P w"
  shows "read_log (list_transitions (w_db w) x) = row_state (find_event (w_db w) x)"
proof -
  have "ledger_ok (w_db w)" using assms empty_store_ok(1) by (rule audit.inv_reachable)
  then show ?thesis by (simp add: ledger_ok_def)
qed

theorem audit_log_explains_status_witness:
  "read_log (list_transitions demo_db2 (lit ''hubspot:1'')) = At PROCESSED None"
  using audit_log_explains_status [OF demo_reachable2, of "lit ''hubspot:1''"] demo_found2 by simp



text \<open>
  C7. On a QUEUED row whose consent columns read back, process_message succeeds and does exactly
  what the decision demands: suppress with the consent reason, reject with the joined reasons, or
  store the digests and move to PROCESSED; the counters of that decision are incremented and
  nothing else changes.
\<close>

theorem processor_carries_out_the_decision:
  assumes "find_event (w_db w) (qm_event_id message) = Some e" and "ev_status e = QUEUED"
    and "consent_from_row e = Inr signals" and "v = decide U P e signals (qm_identifiers message)"
  shows "process_message U P message now w =
    (Inr (verdict_outcome v),
     w\<lparr>w_db := apply_verdict e now v (w_db w),
       w_metrics := (\<lambda>s. w_metrics w s + count_list (verdict_series e v) s)\<rparr>)"
proof -
  have "count_series ss m = (\<lambda>s. m s + count_list ss s)" for ss m
    by (rule ext) (rule count_series_apply)
  then show ?thesis using process_queued [OF assms(1-3), of U P now] assms(4) by (simp add: Let_def)
qed

theorem processor_carries_out_the_decision_witness:
  "fst (process_message demo_ucd demo_phonelib demo_message 1 (demo_world demo_db)) = Inr OUT_PROCESSED"
  using processor_carries_out_the_decision [of "demo_world demo_db" demo_message "queued_row demo_row"
      demo_signals "Accept demo_digests" demo_ucd demo_phonelib 1] demo_found demo_consent demo_decide
  by (simp add: demo_message_def)



text \<open>
  C9. From a reachable state in which nothing is on its way and the batcher is empty, against the
  mock platform in mode ok: after one cycle per full batch and two more, the second of which comes
  when the last rows are due and before they are stale, the loop has not raised, no row is left in
  the backlog, every row of it is UPLOADED, and what the platform has stored since is exactly
  their conversion rows, each once, oldest first. All other rows are untouched.
\<close>

theorem uploader_empties_the_backlog:
  assumes "retry_contract tenacity" and "reachable U P w" and "mock_serving known timeout (u_platform w)"
    and "uploader_ready cfg (\<lambda>c. validate_row U py_repr known c = Inr None) w" and "0 < b_max_wait (u_batcher w)"
    and "\<forall>(locked, clock, now) \<in> set (cycles @ [(l1, k1, t1)]). unlocked (w_db w) locked"
    and "length cycles = length (backlog (w_db w)) div b_max_size (u_batcher w)"
    and "t1 + b_max_wait (u_batcher w) \<le> t2" and "t2 < t1 + up_stale_after cfg"
  shows "\<exists>w'. uploader_run tenacity (http_upload py_repr (mock_post U py_repr timeout)) cfg
      (cycles @ [(l1, k1, t1), (l2, k2, t2)]) w = (Inr (), w') \<and>
    backlog (w_db w') = [] \<and>
    (\<forall>e \<in> set (backlog (w_db w)). map_option ev_status (find_event (w_db w') (ev_event_id e)) = Some UPLOADED) \<and>
    (\<forall>y. y \<notin> ev_event_id ` set (backlog (w_db w)) \<longrightarrow> find_event (w_db w') y = find_event (w_db w) y) \<and>
    ms_uploads (u_platform w') = ms_uploads (u_platform w) @
      map (row_conversion (up_customer_id cfg)) (backlog (w_db w))"
proof -
  obtain w' where run: "uploader_run tenacity (http_upload py_repr (mock_post U py_repr timeout)) cfg
      (cycles @ [(l1, k1, t1), (l2, k2, t2)]) w = (Inr (), w')" "backlog (w_db w') = []"
    and all: "mock.all_uploaded (up_customer_id cfg) (backlog (w_db w)) w w'"
    by (rule mock.empties_backlog [OF assms(1,2,4,6,3,5,7,8,9)])
  show ?thesis
    using all unfolding mock.all_uploaded_def by (intro exI [of _ w'] conjI run) simp_all
qed

theorem uploader_empties_the_backlog_witness:
  "\<exists>w'. uploader_run demo_tenacity demo_client_upload demo_config [({}, demo_clocks, 2), ({}, demo_clocks, 8)]
      (demo_gateway demo_platform demo_db2) = (Inr (), w') \<and>
    map_option ev_status (find_event (w_db w') (lit ''hubspot:1'')) = Some UPLOADED"
proof -
  let ?w = "demo_gateway demo_platform demo_db2"
  have log: "backlog (w_db ?w) = [demo_processed]" by (simp add: demo_backlog)
  have serving: "mock_serving demo_actions 1 (u_platform ?w)" by (simp add: demo_serving)
  show ?thesis
    using uploader_empties_the_backlog [where cycles = "[]" and tenacity = demo_tenacity and py_repr = "\<lambda>_. []" and ?l1.0 = "{}" and ?t1.0 = 2 and
        ?t2.0 = 8 and ?k1.0 = demo_clocks and ?l2.0 = "{}" and ?k2.0 = demo_clocks,
        OF demo_retry_contract gateway_reachable2 serving demo_ready] log
    by (auto simp: unlocked_def demo_config_def simp del: uploader_run.simps)
qed





text \<open>
  C12. For a batch of distinct UPLOADING rows and a result with as many rows, whose error codes
  fit their column, apply_result commits and moves the i-th row exactly as the i-th result says
  (accepted: UPLOADED, retryable code: FAILED_RETRYABLE, any other: DEAD_LETTERED), leaves all
  other rows alone, and returns counts that add up to the size of the batch.
\<close>

theorem results_are_applied_per_row:
  assumes "length (br_rows result) = length batch" and "distinct (map cl_event_id batch)"
    and "\<forall>c \<in> set batch. map_option ev_status (find_event (w_db w) (cl_event_id c)) = Some UPLOADING"
    and "store_fits (w_db w)" and "codes_fit (br_rows result)"
  shows "\<exists>w' report. apply_result batch result now w = (Inr report, w') \<and>
    (\<forall>i < length batch. map_option ev_status (find_event (w_db w') (cl_event_id (batch ! i))) =
       Some (row_target (br_rows result ! i))) \<and>
    (\<forall>y. y \<notin> cl_event_id ` set batch \<longrightarrow> find_event (w_db w') y = find_event (w_db w) y) \<and>
    uploaded report + retry_later report + dead_lettered_count report = length batch"
proof -
  let ?report = "fold count_row (br_rows result) no_report"
  have total: "uploaded ?report + retry_later ?report + dead_lettered_count ?report = length batch"
    using count_rows_total [of "br_rows result" no_report] assms(1) by (simp add: no_report_def)
  obtain w' where "apply_result batch result now w = (Inr ?report, w')"
      "\<forall>i < length batch. map_option ev_status (find_event (w_db w') (cl_event_id (batch ! i))) =
         Some (row_target (br_rows result ! i))"
      "\<forall>y. y \<notin> cl_event_id ` set batch \<longrightarrow> find_event (w_db w') y = find_event (w_db w) y"
    using apply_result_run [OF assms] by blast
  with total show ?thesis by (intro exI [of _ w'] exI [of _ ?report] conjI)
qed

theorem results_are_applied_per_row_witness:
  "\<exists>w' report. apply_result
     [\<lparr>cl_event_id = lit ''hubspot:1'', cl_attempt_count = 1, cl_conversion = JNull\<rparr>]
     \<lparr>br_rows = [\<lparr>rr_index = 0, rr_ok = True, rr_error_code = None, rr_message = None\<rparr>]\<rparr> 2
     (demo_world (update_event (lit ''hubspot:1'') (\<lambda>e. e\<lparr>ev_status := UPLOADING, ev_status_reason := None\<rparr>) demo_db)) =
     (Inr report, w') \<and> uploaded report + retry_later report + dead_lettered_count report = 1"
proof -
  let ?db = "update_event (lit ''hubspot:1'') (\<lambda>e. e\<lparr>ev_status := UPLOADING, ev_status_reason := None\<rparr>) demo_db"
  have "store_fits ?db" using demo_fits by (rule store_fits_update) (simp add: event_fits_status)
  then show ?thesis
    using results_are_applied_per_row [of
        "\<lparr>br_rows = [\<lparr>rr_index = 0, rr_ok = True, rr_error_code = None, rr_message = None\<rparr>]\<rparr>"
        "[\<lparr>cl_event_id = lit ''hubspot:1'', cl_attempt_count = 1, cl_conversion = JNull\<rparr>]"
        "demo_world ?db" 2]
    by (auto simp: find_event_update demo_found codes_fit_def row_code_def)
qed

text \<open>
  C13. A claimed row is leased. After an uploader has claimed rows at time now, let all processes
  run in any order: a later claim, by the same or another uploader, less than stale_after away,
  hands out none of these rows about which the audit log has no new line (a result, a retry, a
  dead-lettering); in particular two claims in a row are disjoint.
\<close>

theorem leases_are_respected:
  assumes "reachable U P w" and "claim cfg locked now limit w = (Inr items, w1)"
    and "claim cfg' locked' now' limit' w2 = (Inr items', w3)" and "now' < now + up_stale_after cfg'"
  shows "(steps U P w1 w2 \<longrightarrow>
      c \<in> set items \<longrightarrow>
      (\<forall>t \<in> set (drop (length (transitions (w_db w1))) (transitions (w_db w2))). tr_event_id t \<noteq> cl_event_id c) \<longrightarrow>
      (cl_event_id c \<notin> cl_event_id ` set items')) \<and>
    (w2 = w1 \<longrightarrow>
      (cl_event_id ` set items \<inter> cl_event_id ` set items' = {}))"
proof (rule conjI; ((rule impI)+)?)
  note dist = reachable_distinct [OF assms(1)] and reach1 = reachable_step [OF assms(1) step.claim [OF assms(2)]]
  show "cl_event_id c \<notin> cl_event_id ` set items'"
    if run: "steps U P w1 w2" and c: "c \<in> set items" and log:
      "\<forall>t \<in> set (drop (length (transitions (w_db w1))) (transitions (w_db w2))). tr_event_id t \<noteq> cl_event_id c"
  proof -
    obtain e where "find_event (w_db w1) (cl_event_id c) = Some (claimed_row now e)"
      using claim_hands_out [OF assms(2) dist c] by blast
    then show ?thesis
      by (rule lease_respected [OF _ _ _ lease.inv_steps [OF run leased_refl [OF reachable_distinct [OF reach1]]]
            _ assms(3,4)]) (use log in \<open>simp_all add: logged_since_def\<close>)
  qed
  show "cl_event_id ` set items \<inter> cl_event_id ` set items' = {}" if "w2 = w1"
    using consecutive_claims_disjoint [OF assms(1,2) _ assms(4)] assms(3) that by blast
qed

theorem leases_are_respected_witness:
  "\<exists>items w1 items' w3. claim demo_config {} 2 10 (demo_world demo_db2) = (Inr items, w1) \<and>
     items \<noteq> [] \<and> claim demo_config {} 3 10 w1 = (Inr items', w3) \<and>
     cl_event_id ` set items \<inter> cl_event_id ` set items' = {}"
proof -
  obtain items w1 where one: "claim demo_config {} 2 10 (demo_world demo_db2) = (Inr items, w1)" "items \<noteq> []"
    by (rule demo_claim [of "()"]) blast
  obtain items' w3 where two: "claim demo_config {} 3 10 w1 = (Inr items', w3)"
    by (rule demo_claim_again [OF one(1)])
  have "3 < 2 + up_stale_after demo_config" by (simp add: demo_config_def)
  from leases_are_respected [OF demo_reachable2 one(1) two this, THEN conjunct2, THEN mp, OF refl] one two
  show ?thesis by blast
qed



text \<open>
  C15. In every reachable state the attempt count of every row is exactly the number of lines of
  its audit log that say it went to UPLOADING since the last line that queued it (every claim,
  reclaim and retry counts, a replay starts again); and every item that a claim hands out carries
  that number, which is at most max_row_attempts. So the uploader never claims an event more often
  than that without giving it up.
\<close>

theorem attempts_are_counted:
  assumes "reachable U P w"
  shows "(find_event (w_db w) x = Some e \<longrightarrow>
      (ev_attempt_count e = sends (list_transitions (w_db w) x))) \<and>
    (claim cfg locked now limit w = (Inr items, w') \<longrightarrow>
      c \<in> set items \<longrightarrow>
      (cl_attempt_count c = sends (list_transitions (w_db w') (cl_event_id c)) \<and>
      cl_attempt_count c \<le> up_max_row_attempts cfg))"
proof (rule conjI; ((rule impI)+)?)
  have count: "ev_attempt_count e = sends (list_transitions (w_db v) x)"
    if "reachable U P v" "find_event (w_db v) x = Some e" for v x e
    using counted_reachable [OF that(1)] that(2) unfolding counted_def attempts_def by (metis option.simps(5))
  show "find_event (w_db w) x = Some e \<Longrightarrow> ev_attempt_count e = sends (list_transitions (w_db w) x)"
    using assms by (rule count)
  show "cl_attempt_count c = sends (list_transitions (w_db w') (cl_event_id c)) \<and>
      cl_attempt_count c \<le> up_max_row_attempts cfg"
    if run: "claim cfg locked now limit w = (Inr items, w')" and c: "c \<in> set items"
  proof -
    obtain e where e: "find_event (w_db w') (cl_event_id c) = Some (claimed_row now e)" "item_of cfg (w_db w') c"
      using claim_hands_out [OF run reachable_distinct [OF assms] c] by blast
    from count [OF reachable_step [OF assms step.claim [OF run]] e(1)] e show ?thesis
      by (simp add: item_of_def)
  qed
qed

theorem attempts_are_counted_witness:
  "\<exists>db'. claim demo_config {} 2 10 (demo_world demo_db2) =
      (Inr [claimed_item (up_customer_id demo_config) (claimed_row 2 demo_processed)], demo_world db') \<and>
    sends (list_transitions demo_db2 (lit ''hubspot:1'')) = 0 \<and>
    sends (list_transitions db' (lit ''hubspot:1'')) = 1"
proof -
  obtain db' where run: "claim demo_config {} 2 10 (demo_world demo_db2) =
      (Inr [claimed_item (up_customer_id demo_config) (claimed_row 2 demo_processed)], demo_world db')"
    by (rule demo_claim [of "()"]) blast
  have "find_event (w_db (demo_world demo_db2)) (lit ''hubspot:1'') = Some demo_processed" by (simp add: demo_rows)
  from attempts_are_counted [OF demo_reachable2, THEN conjunct1, THEN mp, OF this]
    attempts_are_counted [OF demo_reachable2, THEN conjunct2, THEN mp, THEN mp, OF run] run
  show ?thesis by (intro exI [of _ db']) (simp add: claimed_item_def)
qed

text \<open>
  C16. What is sent twice is the same. Take any event of a reachable state that is not QUEUED. In
  every later state in which the log shows no move of it back to QUEUED (a replay by an operator),
  the conversion row built from it is equal to the one built now, so that a row sent again after a
  crash, a timeout or a retryable error is the one that the platform knows by its orderId. No run
  of the uploader queues an event, whatever the platform answers and however often the engine
  retries, so it never changes the conversion row of such an event.
\<close>

theorem resent_conversions_are_identical:
  assumes "reachable U P w" and "find_event (w_db w) x = Some e0" and "ev_status e0 \<noteq> QUEUED"
  shows "(steps U P w w' \<longrightarrow>
      \<not> requeued (w_db w) (w_db w') x \<longrightarrow>
      (\<exists>e. find_event (w_db w') x = Some e \<and> build_conversion e customer = build_conversion e0 customer)) \<and>
    (retry_contract tenacity \<longrightarrow>
      uploader_run tenacity upload cfg cycles w = (r, w') \<longrightarrow>
      (\<exists>e. find_event (w_db w') x = Some e \<and> build_conversion e customer = build_conversion e0 customer))"
proof (rule conjI; ((rule impI)+)?)
  note dist = reachable_distinct [OF assms(1)]
  have kept: "\<exists>e. find_event (w_db w') x = Some e \<and> build_conversion e customer = build_conversion e0 customer"
    if "resendable (w_db w) (w_db w')" "\<not> requeued (w_db w) (w_db w') x"
    using conversion_kept [OF that(1) assms(2,3) that(2), of customer] by blast
  show "\<exists>e. find_event (w_db w') x = Some e \<and> build_conversion e customer = build_conversion e0 customer"
    if "steps U P w w'" "\<not> requeued (w_db w) (w_db w') x"
    using kept resent.inv_steps [OF that(1) resendable_refl [OF dist]] that(2) by blast
  show "\<exists>e. find_event (w_db w') x = Some e \<and> build_conversion e customer = build_conversion e0 customer"
    if "retry_contract tenacity" "uploader_run tenacity upload cfg cycles w = (r, w')"
    using kept uploader_keeps_conversions [OF that dist] uploader_never_requeues [OF that] by blast
qed

theorem resent_conversions_are_identical_witness:
  "\<exists>r w' e. uploader_run demo_tenacity demo_client_upload demo_config [({}, demo_clocks, 2), ({}, demo_clocks, 8)]
      (demo_gateway demo_platform demo_db2) = (r, w') \<and>
    find_event (w_db w') (lit ''hubspot:1'') = Some e \<and>
    build_conversion e (lit ''1'') = build_conversion demo_processed (lit ''1'')"
proof -
  obtain r w' where run: "uploader_run demo_tenacity demo_client_upload demo_config
      [({}, demo_clocks, 2), ({}, demo_clocks, 8)] (demo_gateway demo_platform demo_db2) = (r, w')" by fastforce
  have found: "find_event (w_db (demo_gateway demo_platform demo_db2)) (lit ''hubspot:1'') = Some demo_processed"
    by (simp add: demo_rows)
  have "ev_status demo_processed \<noteq> QUEUED" by simp
  from resent_conversions_are_identical [OF gateway_reachable2 found this, THEN conjunct2, THEN mp, THEN mp,
      OF demo_retry_contract run, of "lit ''1''"] run
  show ?thesis by blast
qed

text \<open>
  C17. Between any two states of a run the transition log grows at its end only, every event that
  had a row keeps it with the columns that ingest wrote (source, times, conversion data, click id,
  consent), and UPLOADED and REJECTED events keep their status and reason for ever.
\<close>

theorem history_is_append_only:
  assumes "reachable U P w" and "steps U P w w'"
  shows "(prefix (transitions (w_db w)) (transitions (w_db w'))) \<and>
    (find_event (w_db w) x = Some e \<longrightarrow>
      (\<exists>e'. find_event (w_db w') x = Some e' \<and> facts e' = facts e \<and>
      (terminal (ev_status e) \<longrightarrow> ev_status e' = ev_status e \<and> ev_status_reason e' = ev_status_reason e)))"
proof (rule conjI; ((rule impI)+)?)
  have "ledger_ok (w_db w)" using assms(1) empty_store_ok(1) by (rule audit.inv_reachable)
  then have "distinct_ids (w_db w) \<and> evolves (w_db w) (w_db w)"
    by (simp add: ledger_ok_def evolves_refl)
  then have "evolves (w_db w) (w_db w')" using history.inv_steps [OF assms(2)] by blast
  then show "prefix (transitions (w_db w)) (transitions (w_db w'))"
    and "find_event (w_db w) x = Some e \<Longrightarrow> \<exists>e'. find_event (w_db w') x = Some e' \<and> facts e' = facts e \<and>
      (terminal (ev_status e) \<longrightarrow> ev_status e' = ev_status e \<and> ev_status_reason e' = ev_status_reason e)"
    by (auto simp: evolves_def later_row_def)
qed

theorem history_is_append_only_witness:
  "prefix (transitions demo_db) (transitions demo_db2) \<and>
   (\<exists>e'. find_event demo_db2 (lit ''hubspot:1'') = Some e' \<and> facts e' = facts (queued_row demo_row))"
  using history_is_append_only [OF demo_reachable demo_steps2, of "lit ''hubspot:1''" "queued_row demo_row"]
    demo_found by auto

text \<open>
  C18. In every reachable state, the conversion row that build_conversion makes of an event past
  the worker has orderId equal to the event id, carries a gclid or userIdentifiers (so the
  platform can match it), and has userIdentifiers exactly when the stored digests form a match
  key.
\<close>

theorem uploaded_rows_are_matchable:
  assumes "reachable U P w" and "find_event (w_db w) x = Some e" and "past_worker (ev_status e)"
    and "build_conversion e customer = Inr c"
  shows "(json_field ''orderId'' c = Some (JStr x)) \<and>
    (json_field ''gclid'' c \<noteq> None \<or> json_field ''userIdentifiers'' c \<noteq> None) \<and>
    (json_field ''userIdentifiers'' c \<noteq> None \<longleftrightarrow>
      (\<exists>h. ev_hashed_identifiers e = Some h \<and> has_match_key h))"
proof (rule conjI [OF _ conjI])
  have "gated (w_db w)" using assms(1) empty_store_ok(2) by (rule gate.inv_reachable)
  then have "row_gated e" using assms(2) by (simp add: gated_def)
  then obtain h where h: "ev_hashed_identifiers e = Some h" "hashed_ok h"
      "truthy (ev_click_id e) \<or> has_match_key h"
    using assms(3) by (auto simp: row_gated_def usable_def)
  note fields = build_conversion_fields [OF assms(4)]
  show "json_field ''orderId'' c = Some (JStr x)" using fields(3) find_event_id [OF assms(2)] by simp
  show ids: "json_field ''userIdentifiers'' c \<noteq> None \<longleftrightarrow>
      (\<exists>h. ev_hashed_identifiers e = Some h \<and> has_match_key h)"
    using fields(5) user_identifiers_match_key [OF h(2)] h(1) by (auto simp: Let_def)
  show "json_field ''gclid'' c \<noteq> None \<or> json_field ''userIdentifiers'' c \<noteq> None"
    using fields(4) ids h by (auto elim: truthyE)
qed

theorem uploaded_rows_are_matchable_witness:
  "\<exists>c. build_conversion ((queued_row demo_row)\<lparr>ev_hashed_identifiers := Some demo_digests,
      ev_status := PROCESSED, ev_status_reason := None\<rparr>) (lit ''1'') = Inr c \<and>
    json_field ''orderId'' c = Some (JStr (lit ''hubspot:1''))"
proof -
  let ?e = "(queued_row demo_row)\<lparr>ev_hashed_identifiers := Some demo_digests,
      ev_status := PROCESSED, ev_status_reason := None\<rparr>"
  obtain kvs where "build_conversion ?e (lit ''1'') = Inr (JObj kvs)"
    using build_conversion_ok [of ?e "lit ''closed_won''" demo_datetime "lit ''1''"] by auto
  moreover have "find_event (w_db (demo_world demo_db2)) (lit ''hubspot:1'') = Some ?e"
    using demo_found2 by simp
  ultimately show ?thesis
    using uploaded_rows_are_matchable [OF demo_reachable2, of "lit ''hubspot:1''" ?e "lit ''1''"]
    by (auto simp: past_worker_def)
qed

text \<open>
  C19. In every reachable state, the conversion row that the gateway builds from an event past the
  worker is well-typed for the platform: the mock's validate_row accepts it, whatever identifiers
  and click id it carries, when the customer id is a nonempty string of digits, the conversion
  action is a known identifier and the conversion time is a timestamp that Python can hold.
\<close>

theorem platform_accepts_gateway_rows:
  assumes "reachable U P w" and "find_event (w_db w) x = Some e" and "past_worker (ev_status e)"
    and "build_conversion e customer = Inr c"
    and "customer \<noteq> []" and "\<forall>d \<in> set customer. decimal U d"
    and "ev_conversion_action e = Some a" and "a \<in> set known" and "a \<noteq> []" and "\<forall>d \<in> set a. word_char d"
    and "ev_conversion_time e = Some t" and "datetime_ok t"
  shows "validate_row U py_repr known c = Inr None"
proof -
  have "gated (w_db w)" using assms(1) empty_store_ok(2) by (rule gate.inv_reachable)
  then have "row_gated e" using assms(2) by (simp add: gated_def)
  then obtain h where "consented e" "ev_hashed_identifiers e = Some h" "hashed_ok h"
      "truthy (ev_click_id e) \<or> has_match_key h"
    using assms(3) by (auto simp: row_gated_def usable_def)
  with gateway_row_accepted [OF assms(4,7,11,5,6,8,9,10,12)] show ?thesis by blast
qed

theorem platform_accepts_gateway_rows_witness:
  "\<exists>c. build_conversion ((queued_row demo_row)\<lparr>ev_hashed_identifiers := Some demo_digests,
      ev_status := PROCESSED, ev_status_reason := None\<rparr>) (lit ''1'') = Inr c \<and>
    validate_row demo_ucd (\<lambda>_. []) [lit ''closed_won''] c = Inr None"
proof -
  let ?e = "(queued_row demo_row)\<lparr>ev_hashed_identifiers := Some demo_digests,
      ev_status := PROCESSED, ev_status_reason := None\<rparr>"
  obtain kvs where c: "build_conversion ?e (lit ''1'') = Inr (JObj kvs)"
    using build_conversion_ok [of ?e "lit ''closed_won''" demo_datetime "lit ''1''"] by auto
  have found: "find_event (w_db (demo_world demo_db2)) (lit ''hubspot:1'') = Some ?e"
    using demo_found2 by simp
  have "validate_row demo_ucd (\<lambda>_. []) [lit ''closed_won''] (JObj kvs) = Inr None"
    using platform_accepts_gateway_rows [OF demo_reachable2 found _ c, of "lit ''closed_won''"
        "[lit ''closed_won'']" demo_datetime "\<lambda>_. []"]
    by (simp add: past_worker_def datetime_ok_def demo_datetime_def)
      (simp add: lit_def decimal_def char_decimal_def is_digit_def word_char_def ascii_alnum_def ascii_isalpha_def)
  with c show ?thesis by blast
qed

text \<open>
  C20. Round trip through the wire format: when the platform is in mode ok and gives row j the
  verdict v_j (None or an error code), the client's parser reads from the platform's response one
  result per row, ok exactly where v_j is None and otherwise with the error code v_j, and the
  platform has appended exactly the accepted rows to its uploads.
\<close>

theorem platform_verdicts_round_trip:
  assumes "take_control (st\<lparr>ms_request_count := ms_request_count st + 1\<rparr>) = (control, st1)"
    and "ctl_mode control = MODE_OK" and "0 \<le> timeout" and "length vs = length rows"
    and "\<forall>j < length rows.
      row_verdict U py_repr (ms_known_actions st) (ctl_fail_rows control) j (rows ! j) = Inr (vs ! j)"
  shows "\<exists>result st'. http_upload py_repr (mock_post U py_repr timeout) rows st = (Inr result, st') \<and>
    length (br_rows result) = length rows \<and>
    (\<forall>j < length rows. (rr_ok (br_rows result ! j) \<longleftrightarrow> vs ! j = None) \<and>
       rr_error_code (br_rows result ! j) = vs ! j) \<and>
    ms_uploads st' = ms_uploads st @ map fst (filter (\<lambda>(row, v). v = None) (zip rows vs))"
proof -
  obtain result where "http_upload py_repr (mock_post U py_repr timeout) rows st =
        (Inr result, st1\<lparr>ms_uploads := ms_uploads st @ accepted_rows rows vs\<rparr>)"
      "length (br_rows result) = length rows"
      "\<forall>j < length rows. (rr_ok (br_rows result ! j) \<longleftrightarrow> vs ! j = None) \<and> rr_error_code (br_rows result ! j) = vs ! j"
    by (rule mock_round_trip [OF assms])
  then show ?thesis by (simp add: accepted_rows_def)
qed

theorem platform_verdicts_round_trip_witness:
  "\<exists>result st'. http_upload (\<lambda>_. []) (mock_post demo_ucd (\<lambda>_. []) 1) [JNull]
      (mock_create_app [lit ''closed_won''] MODE_OK) = (Inr result, st') \<and>
    rr_error_code (br_rows result ! 0) = Some (lit ''INVALID_CONVERSION'')"
proof -
  let ?st = "mock_create_app [lit ''closed_won''] MODE_OK"
  have c: "take_control (?st\<lparr>ms_request_count := ms_request_count ?st + 1\<rparr>) =
      (new_control, ?st\<lparr>ms_request_count := ms_request_count ?st + 1\<rparr>)"
    by (simp add: take_control_def mock_create_app_def new_control_def Let_def)
  show ?thesis
    using platform_verdicts_round_trip [OF c, of 1 "[Some (lit ''INVALID_CONVERSION'')]" "[JNull]" demo_ucd "\<lambda>_. []"]
    by (auto simp: new_control_def row_verdict_def injected_code_def validate_row_def)
qed

text \<open>
  C21. In every reachable state an event has exactly one dead letter that is not replayed when its
  status is DEAD_LETTERED, and none otherwise; hence refreshing the dlq_depth gauge leaves the
  database alone and sets the series of each source to the number of its DEAD_LETTERED events.
\<close>

theorem dlq_depth_is_exact:
  assumes "reachable U P w"
  shows "(length (open_letters (w_db w) x) = (if is_dead (w_db w) x then 1 else 0)) \<and>
    (\<exists>w'. refresh_dlq_depth w = (Inr (), w') \<and> w_db w' = w_db w \<and>
      (\<forall>s. w_metrics w' (dlq_depth (source_value s)) =
         length (filter (\<lambda>e. ev_status e = DEAD_LETTERED \<and> ev_source e = source_value s) (events (w_db w)))))"
proof (rule conjI)
  have ok: "letters_ok (w_db w)" using assms empty_store_ok(3) by (rule letters.inv_reachable)
  then show "length (open_letters (w_db w) x) = (if is_dead (w_db w) x then 1 else 0)"
    by (simp only: letters_ok_def)
  show "\<exists>w'. refresh_dlq_depth w = (Inr (), w') \<and> w_db w' = w_db w \<and>
      (\<forall>s. w_metrics w' (dlq_depth (source_value s)) =
         length (filter (\<lambda>e. ev_status e = DEAD_LETTERED \<and> ev_source e = source_value s) (events (w_db w))))"
    using refresh_dlq_depth_run [of w] unfolding open_letters_of_source [OF ok] .
qed

theorem dlq_depth_is_exact_witness: "length (open_letters demo_db2 (lit ''hubspot:1'')) = 0"
  using dlq_depth_is_exact [OF demo_reachable2, of "lit ''hubspot:1''"] demo_found2
  by (simp add: is_dead_def)

text \<open>
  C22. When the consent columns of a queued row do not grant both signals, process_message
  suppresses the event, and its result and the state it leaves are the same for any identifiers
  the message carries: a denied user's data is not even normalised.
\<close>

theorem denied_identifiers_are_never_read:
  assumes "find_event (w_db w) (qm_event_id message) = Some e" and "ev_status e = QUEUED"
    and "consent_from_row e = Inr signals" and "\<not> permitted (evaluate_consent signals)"
  shows "(process_message U P (message\<lparr>qm_identifiers := raw\<rparr>) now w = process_message U P message now w) \<and>
    (fst (process_message U P message now w) = Inr OUT_SUPPRESSED)"
proof (rule conjI)
  obtain r where r: "decision_reason (evaluate_consent signals) = Some r"
    using assms(4) by (auto simp: decision_reason_None_iff [symmetric])
  then have d: "decide U P e signals ids = Suppress r" for ids by (simp add: decide_def)
  have "process_message U P (message\<lparr>qm_identifiers := ids\<rparr>) now w =
      (Inr OUT_SUPPRESSED, w\<lparr>w_db := apply_verdict e now (Suppress r) (w_db w),
         w_metrics := count_series (verdict_series e (Suppress r)) (w_metrics w)\<rparr>)" for ids
    using process_queued [of w "message\<lparr>qm_identifiers := ids\<rparr>" e signals U P now] assms(1-3) d
    by (simp add: Let_def)
  from this [of raw] this [of "qm_identifiers message"]
  show "process_message U P (message\<lparr>qm_identifiers := raw\<rparr>) now w = process_message U P message now w"
    and "fst (process_message U P message now w) = Inr OUT_SUPPRESSED"
    by simp_all
qed

theorem denied_identifiers_are_never_read_witness:
  "fst (process_message demo_ucd demo_phonelib demo_message 1
     (demo_world (update_event (lit ''hubspot:1'') (\<lambda>e. e\<lparr>ev_consent_ad_user_data := None\<rparr>) demo_db))) =
   Inr OUT_SUPPRESSED"
  by (rule denied_identifiers_are_never_read
      [where e = "(queued_row demo_row)\<lparr>ev_consent_ad_user_data := None\<rparr>"
         and signals = "\<lparr>ad_user_data = None, ad_personalization = Some GRANTED\<rparr>", THEN conjunct2])
    (use demo_found in \<open>simp_all add: demo_message_def find_event_update consent_from_row_def
       consent_of_column_def permitted_iff del: consent_value.simps\<close>)

text \<open>
  C23. After process_message has returned PROCESSED, SUPPRESSED or REJECTED for a message,
  processing the same event id again (with any identifiers, at any time) returns
  SKIPPED_NOT_QUEUED and leaves database and metrics as they were: at-least-once delivery is
  harmless.
\<close>

theorem redelivery_is_skipped:
  assumes "process_message U P message now w = (Inr r, w')"
    and "r \<in> {OUT_PROCESSED, OUT_SUPPRESSED, OUT_REJECTED}"
    and "qm_event_id message' = qm_event_id message"
  shows "process_message U P message' now' w' = (Inr SKIPPED_NOT_QUEUED, w')"
proof -
  obtain e where e: "find_event (w_db w) (qm_event_id message) = Some e"
    using assms(1,2) by (cases "find_event (w_db w) (qm_event_id message)") (auto simp: process_unknown)
  have q: "ev_status e = QUEUED"
    using assms(1,2) process_not_queued [OF e, of U P now] by fastforce
  obtain signals where s: "consent_from_row e = Inr signals"
    using assms(1) process_bad_consent [OF e q, of _ U P now] by (cases "consent_from_row e") auto
  have found: "find_event (w_db w) (ev_event_id e) = Some e" using e find_event_id [OF e] by simp
  let ?v = "decide U P e signals (qm_identifiers message)"
  have "w_db w' = apply_verdict e now ?v (w_db w)"
    using assms(1) process_queued [OF e q s, of U P now] by (auto simp: Let_def)
  with apply_verdict_leaves_queued [OF found, of now ?v] obtain e' where
      "find_event (w_db w') (qm_event_id message') = Some e'" "ev_status e' \<noteq> QUEUED"
    using assms(3) find_event_id [OF e] by auto
  then show ?thesis by (rule process_not_queued)
qed

theorem redelivery_is_skipped_witness:
  "process_message demo_ucd demo_phonelib demo_message 7 (demo_world demo_db2) =
     (Inr SKIPPED_NOT_QUEUED, demo_world demo_db2)"
  using redelivery_is_skipped [OF demo_process, of demo_message 7] by simp

text \<open>
  C24. verify accepts a request exactly when the source has a secret, the timestamp header is an
  integer within the tolerance of the clock, and the signature header, lower-cased, is sha256=
  followed by the HMAC-SHA256 of the timestamp header, a dot and the body under the secret; in
  particular what compute_signature produces for a current timestamp is accepted.
\<close>

theorem accepted_webhooks_are_signed_and_fresh:
  shows "(verify U secret th sh body now tol = Inr None \<longleftrightarrow>
     secret \<noteq> [] \<and>
     (\<exists>ts sig sent_at. th = Some ts \<and> sh = Some sig \<and> py_int U ts = Some sent_at \<and>
        str_startswith sig (lit ''sha256='') \<and> length sig = 71 \<and> \<not> float_overflow sent_at \<and>
        \<bar>now - of_int sent_at\<bar> \<le> of_int tol \<and> is_ascii (str_lower U sig) \<and>
        compute_signature secret ts body = Inr (str_lower U sig))) \<and>
    (secret \<noteq> [] \<longrightarrow>
      compute_signature secret (str_of_nat n) body = Inr sig \<longrightarrow>
      length (str_of_nat n) \<le> 4300 \<longrightarrow>
      \<not> float_overflow (int n) \<longrightarrow>
      \<bar>now - of_nat n\<bar> \<le> of_int tol \<longrightarrow>
      (verify U secret (Some (str_of_nat n)) (Some sig) body now tol = Inr None))"
proof (rule conjI; ((rule impI)+)?)
  show "verify U secret th sh body now tol = Inr None \<longleftrightarrow>
     secret \<noteq> [] \<and>
     (\<exists>ts sig sent_at. th = Some ts \<and> sh = Some sig \<and> py_int U ts = Some sent_at \<and>
        str_startswith sig (lit ''sha256='') \<and> length sig = 71 \<and> \<not> float_overflow sent_at \<and>
        \<bar>now - of_int sent_at\<bar> \<le> of_int tol \<and> is_ascii (str_lower U sig) \<and>
        compute_signature secret ts body = Inr (str_lower U sig))"
    by (rule verify_accepts_iff)
  assume "secret \<noteq> []" and sig: "compute_signature secret (str_of_nat n) body = Inr sig"
    and "length (str_of_nat n) \<le> 4300" "\<not> float_overflow (int n)" "\<bar>now - of_nat n\<bar> \<le> of_int tol"
  then show "verify U secret (Some (str_of_nat n)) (Some sig) body now tol = Inr None"
    using compute_signature_shape(1-3) [OF sig] compute_signature_shape(4) [OF sig, of U] py_int_str_of_nat
    by (simp add: verify_accepts_iff)
qed

theorem accepted_webhooks_are_signed_and_fresh_witness:
  "\<exists>sig. compute_signature (lit ''k'') (str_of_nat 5) [] = Inr sig \<and>
     verify demo_ucd (lit ''k'') (Some (str_of_nat 5)) (Some sig) [] 5 300 = Inr None"
proof -
  have five: "str_of_nat 5 = [53]" by (subst str_of_nat_def, subst digits_of_nat.simps) simp
  then obtain sig where s: "compute_signature (lit ''k'') (str_of_nat 5) [] = Inr sig"
    by (simp add: compute_signature_def)
  have "verify demo_ucd (lit ''k'') (Some (str_of_nat 5)) (Some sig) [] 5 300 = Inr None"
    by (rule accepted_webhooks_are_signed_and_fresh [THEN conjunct2, THEN mp, THEN mp, OF _ s,
          THEN mp, THEN mp, THEN mp])
      (simp_all add: five float_overflow_def)
  with s show ?thesis by blast
qed






text \<open>
  C28. build_user_identifiers reports field f with reason r (other than no_match_key) exactly when
  f was provided and its normaliser fails with r, reports no_match_key exactly when the digests it
  built are not a match key, and every digest it returns is 64 lower-case hex characters.
\<close>

theorem rejections_name_the_failing_fields:
  shows "((\<exists>d \<in> set (rejections (build_user_identifiers U P raw)). rej_reason d = NO_MATCH_KEY) \<longleftrightarrow> \<not> has_match_key (identifiers (build_user_identifiers U P raw))) \<and>
    (rej_reason d \<noteq> NO_MATCH_KEY \<longrightarrow>
      (d \<in> set (rejections (build_user_identifiers U P raw)) \<longleftrightarrow> rej_reason d \<noteq> MISSING \<and>
      (\<exists>f. rej_field d = lit f \<and> (f, Inl (rej_reason d)) \<in> set (field_results U P raw)))) \<and>
    (hashed_ok (identifiers (build_user_identifiers U P raw)))"
proof (rule conjI [OF _ conjI]; ((rule impI)+)?)
  have none: "rej_reason d \<noteq> NO_MATCH_KEY" if "d \<in> set (outcome_rejections (field_outcomes U P raw))" for d
    using that field_results_field_level outcome_rejections_field_outcomes by metis
  show "(\<exists>d \<in> set (rejections (build_user_identifiers U P raw)). rej_reason d = NO_MATCH_KEY) \<longleftrightarrow> \<not> has_match_key (identifiers (build_user_identifiers U P raw))"
    unfolding build_rejections using none by (auto intro: rev_bexI)
  show "rej_reason d \<noteq> NO_MATCH_KEY \<Longrightarrow> d \<in> set (rejections (build_user_identifiers U P raw)) \<longleftrightarrow> rej_reason d \<noteq> MISSING \<and>
      (\<exists>f. rej_field d = lit f \<and> (f, Inl (rej_reason d)) \<in> set (field_results U P raw))"
    unfolding build_rejections by (auto simp: outcome_rejections_field_outcomes)
  show "hashed_ok (identifiers (build_user_identifiers U P raw))" by (rule build_hashed_ok)
qed

theorem rejections_name_the_failing_fields_witness:
  "\<lparr>rej_field = lit ''email'', rej_reason = MALFORMED\<rparr> \<in> set (rejections (build_user_identifiers demo_ucd
     demo_phonelib (no_identifiers\<lparr>raw_email := Some (lit ''a'')\<rparr>)))"
proof -
  have "normalise_email demo_ucd (Some (lit ''a'')) = Inl MALFORMED"
    by (simp add: normalise_email_def str_strip_def lstrip_def str_lower_def lit_def char_isspace_def
        ascii_isspace_def ascii_lower_def)
  then show ?thesis
    by (intro iffD2 [OF rejections_name_the_failing_fields [THEN conjunct2, THEN conjunct1, THEN mp]]
        conjI exI [of _ "''email''"])
      (simp_all add: field_results_def no_identifiers_def)
qed






text \<open>
  C32. Processing the message that reconcile or replay publishes (no identifiers) for a QUEUED
  event that has a click id or stored digests ends in PROCESSED or, when consent is missing,
  SUPPRESSED; it is never REJECTED, and stored digests are kept as they are.
\<close>

theorem recoverable_events_are_never_rejected:
  assumes "find_event (w_db w) (qm_event_id message) = Some e" and "ev_status e = QUEUED"
    and "consent_from_row e = Inr signals" and "qm_identifiers message = no_identifiers"
    and "truthy (ev_click_id e) \<or> ev_hashed_identifiers e \<noteq> None"
  shows "\<exists>r w'. process_message U P message now w = (Inr r, w') \<and> r \<in> {OUT_PROCESSED, OUT_SUPPRESSED} \<and>
    (\<forall>h. ev_hashed_identifiers e = Some h \<longrightarrow>
       map_option ev_hashed_identifiers (find_event (w_db w') (qm_event_id message)) = Some (Some h))"
proof -
  have id: "qm_event_id message = ev_event_id e" using find_event_id [OF assms(1)] by simp
  have found: "find_event (w_db w) (ev_event_id e) = Some e" using assms(1) id by simp
  let ?v = "decide U P e signals no_identifiers"
  have "(\<exists>r. ?v = Suppress r) \<or> (\<exists>h. ?v = Accept h \<and> (\<forall>h'. ev_hashed_identifiers e = Some h' \<longrightarrow> h = h'))"
    using assms(5)
    by (auto simp: decide_def relevant_rejections_def build_no_identifiers Let_def split: option.splits)
  then consider r where "?v = Suppress r"
    | h where "?v = Accept h" "\<forall>h'. ev_hashed_identifiers e = Some h' \<longrightarrow> h = h'" by blast
  then show ?thesis
    by cases (use process_queued [OF assms(1-3), of U P now] assms(4) found id in
        \<open>simp_all add: Let_def find_event_moved find_event_update\<close>)
qed

theorem recoverable_events_are_never_rejected_witness:
  "\<exists>r w'. process_message demo_ucd demo_phonelib demo_message 1 (demo_world demo_db) = (Inr r, w') \<and>
     r \<in> {OUT_PROCESSED, OUT_SUPPRESSED}"
  using recoverable_events_are_never_rejected [of "demo_world demo_db" demo_message "queued_row demo_row"
      demo_signals demo_ucd demo_phonelib 1] demo_found demo_consent
  by (auto simp: demo_message_def)







text \<open>
  C36. The HTTP client turns a timeout, any transport error and the statuses 408, 429, 500, 502,
  503 and 504 into TransientUploadError, every other status but 200 into PermanentUploadError with
  the status in its reason, and returns a batch result only for a 200 whose body parses.
\<close>

theorem whole_batch_failures_are_classified:
  assumes "post (upload_request cs) p = (answer, p')"
  shows "(answer = HttpTimeout \<longrightarrow>
      (http_upload py_repr post cs p = (Inl (TransientUploadError (lit ''timeout'')), p'))) \<and>
    (answer = HttpTransportError name \<longrightarrow>
      (http_upload py_repr post cs p = (Inl (TransientUploadError (lit ''connection:'' @ name)), p'))) \<and>
    (answer = HttpResponse status body \<longrightarrow>
      status \<in> {408, 429, 500, 502, 503, 504} \<longrightarrow>
      (http_upload py_repr post cs p = (Inl (TransientUploadError (lit ''http_'' @ str_of_nat status)), p'))) \<and>
    (answer = HttpResponse status body \<longrightarrow>
      status \<notin> {200, 408, 429, 500, 502, 503, 504} \<longrightarrow>
      (http_upload py_repr post cs p = (Inl (PermanentUploadError (lit ''http_'' @ str_of_nat status)), p'))) \<and>
    (http_upload py_repr post cs p = (Inr result, p'') \<longrightarrow>
      (\<exists>b. answer = HttpResponse 200 (Some b) \<and> parse_batch_response py_repr b (length cs) = Inr result))"
proof -
  have parts: "answer = HttpTimeout \<Longrightarrow>
      http_upload py_repr post cs p = (Inl (TransientUploadError (lit ''timeout'')), p')"
    "answer = HttpTransportError name \<Longrightarrow>
      http_upload py_repr post cs p = (Inl (TransientUploadError (lit ''connection:'' @ name)), p')"
    "answer = HttpResponse status body \<Longrightarrow> status \<in> {408, 429, 500, 502, 503, 504} \<Longrightarrow>
      http_upload py_repr post cs p = (Inl (TransientUploadError (lit ''http_'' @ str_of_nat status)), p')"
    "answer = HttpResponse status body \<Longrightarrow> status \<notin> {200, 408, 429, 500, 502, 503, 504} \<Longrightarrow>
      http_upload py_repr post cs p = (Inl (PermanentUploadError (lit ''http_'' @ str_of_nat status)), p')"
    "http_upload py_repr post cs p = (Inr result, p'') \<Longrightarrow>
      \<exists>b. answer = HttpResponse 200 (Some b) \<and> parse_batch_response py_repr b (length cs) = Inr result"
    using assms
    by (auto simp: http_upload_def classify_http_status_def TRANSIENT_STATUSES_def Let_def
        split: http_result.splits if_splits sum.splits option.splits)
  from parts show ?thesis by blast
qed

theorem whole_batch_failures_are_classified_witness:
  "http_upload (\<lambda>_. []) (\<lambda>_ p. (HttpResponse 429 None, p)) [] () =
     (Inl (TransientUploadError (lit ''http_'' @ str_of_nat 429)), ())"
  using whole_batch_failures_are_classified [of "\<lambda>_ p. (HttpResponse 429 None, p)" "[]" "()"
      "HttpResponse 429 None" "()" "\<lambda>_. []" "[]" 429 None] by simp

text \<open>
  C37. Whatever items are added to a well-formed batcher, every batch it returns has exactly
  max_size items, fewer than max_size stay waiting, and the returned batches followed by the
  waiting items are the earlier items followed by the added ones, in order: nothing is lost,
  duplicated or reordered.
\<close>

theorem batches_are_full_and_complete:
  assumes "batcher_ok b" and "feed xs b = (batches, b')"
  shows "(concat batches @ b_items b' = b_items b @ map fst xs) \<and>
    (batcher_ok b') \<and>
    (\<forall>batch \<in> set batches. length batch = b_max_size b)"
proof -
  have parts: "concat batches @ b_items b' = b_items b @ map fst xs"
    "batcher_ok b'"
    "\<forall>batch \<in> set batches. length batch = b_max_size b"
    using feed_ok [OF assms] by blast+
  from parts show ?thesis by blast
qed

theorem batches_are_full_and_complete_witness:
  "batcher_ok (snd (feed [(1 :: nat, 0)] \<lparr>b_max_size = 2, b_max_wait = 5, b_items = [], b_oldest_at = None\<rparr>))"
  by (rule batches_are_full_and_complete
      [THEN conjunct2, THEN conjunct1, of "\<lparr>b_max_size = 2, b_max_wait = 5, b_items = [], b_oldest_at = None\<rparr>" "[(1, 0)]"])
    (simp_all add: batcher_ok_def batcher_add_def split: prod.split)





text \<open>
  C40. dlq show only writes to standard output, and whatever characters the CRM, the platform or
  the database driver put into the record, every character it writes is a line feed or printable
  ASCII: control characters, quotes and non-ASCII text are escaped, so a stored payload cannot
  send escape sequences to the operator's terminal. It returns whether the record exists.
\<close>

theorem dlq_show_prints_plain_text:
  "\<exists>printed. dlq_show stored tz i w = (Inr (find_dead_letter (w_db w) i \<noteq> None), w\<lparr>w_out := w_out w @ printed\<rparr>) \<and>
     plain_ascii printed"
proof -
  obtain r w' where run: "dlq_show stored tz i w = (r, w')" by fastforce
  obtain printed where "w' = w\<lparr>w_out := w_out w @ printed\<rparr>" "plain_ascii printed"
    using dlq_show_plain [OF run] by blast
  moreover have "r = Inr (find_dead_letter (w_db w) i \<noteq> None)"
    using run by (auto simp: dlq_show_run split: option.splits)
  ultimately show ?thesis using run by auto
qed

end
